(* ===== verification/Prelude.thy ===== *)
theory Prelude
  imports Main
begin

text \<open>
  Shared ground of the development: the results a Go call can end in, the state monad in
  which calls against the cluster are written, and a small weakest-precondition calculus for
  handlers that mutate a \<open>VirtualDatabase\<close> while they talk to a cluster.

  A Go function with result type \<open>(T, error)\<close> ends in \<open>Ok x\<close>, in \<open>Fail e\<close> (a non-nil
  error) or in \<open>Panic\<close> (a nil dereference, an index out of range, a write to a nil map).
  Calls that leave the process take and return a world of an arbitrary type \<open>'w\<close>.
\<close>

named_theorems monad_defs \<open>definitions of the monadic combinators\<close>
named_theorems wp \<open>weakest-precondition rules for handlers\<close>

section \<open>Errors and results\<close>

datatype error =
    NotFound string
  | AlreadyExists string
  | Conflict string
  | Err string

fun Error :: "error \<Rightarrow> string" where
  "Error (NotFound m) = m"
| "Error (AlreadyExists m) = m"
| "Error (Conflict m) = m"
| "Error (Err m) = m"

fun IsNotFound :: "error \<Rightarrow> bool" where
  "IsNotFound (NotFound _) = True"
| "IsNotFound _ = False"

fun IsAlreadyExists :: "error \<Rightarrow> bool" where
  "IsAlreadyExists (AlreadyExists _) = True"
| "IsAlreadyExists _ = False"

fun IsConflict :: "error \<Rightarrow> bool" where
  "IsConflict (Conflict _) = True"
| "IsConflict _ = False"

datatype 'a res = Ok 'a | Fail error | Panic string

fun of_sum :: "error + 'a \<Rightarrow> 'a res" where
  "of_sum (Inl e) = Fail e"
| "of_sum (Inr x) = Ok x"

fun bind_res :: "'a res \<Rightarrow> ('a \<Rightarrow> 'b res) \<Rightarrow> 'b res" where
  "bind_res (Ok x) f = f x"
| "bind_res (Fail e) f = Fail e"
| "bind_res (Panic p) f = Panic p"

lemma of_sum_not_Panic [simp]: "of_sum r \<noteq> Panic p"
  by (cases r) auto

lemma of_sum_Ok_iff [simp]: "of_sum r = Ok x \<longleftrightarrow> r = Inr x"
  by (cases r) auto

lemma of_sum_Fail_iff [simp]: "of_sum r = Fail e \<longleftrightarrow> r = Inl e"
  by (cases r) auto

lemma bind_res_Ok_iff: "bind_res r f = Ok y \<longleftrightarrow> (\<exists>x. r = Ok x \<and> f x = Ok y)"
  by (cases r) auto

lemma bind_res_Fail_iff:
  "bind_res r f = Fail e \<longleftrightarrow> r = Fail e \<or> (\<exists>x. r = Ok x \<and> f x = Fail e)"
  by (cases r) auto

section \<open>The call monad\<close>

type_synonym ('s, 'a) M = "'s \<Rightarrow> 'a res \<times> 's"

definition returnM :: "'a \<Rightarrow> ('s, 'a) M" where
  "returnM x s = (Ok x, s)"

definition failM :: "error \<Rightarrow> ('s, 'a) M" where
  "failM e s = (Fail e, s)"

definition panicM :: "string \<Rightarrow> ('s, 'a) M" where
  "panicM p s = (Panic p, s)"

definition resM :: "'a res \<Rightarrow> ('s, 'a) M" where
  "resM r s = (r, s)"

text \<open>\<open>x, err := m; if err != nil { return err }; f x\<close>.\<close>

definition bindM :: "('s, 'a) M \<Rightarrow> ('a \<Rightarrow> ('s, 'b) M) \<Rightarrow> ('s, 'b) M" where
  "bindM m f s =
     (case m s of
        (Ok x, s') \<Rightarrow> f x s'
      | (Fail e, s') \<Rightarrow> (Fail e, s')
      | (Panic p, s') \<Rightarrow> (Panic p, s'))"

text \<open>\<open>x, err := m\<close> where the code goes on and looks at \<open>err\<close> itself.\<close>

definition tryM :: "('s, 'a) M \<Rightarrow> (error + 'a \<Rightarrow> ('s, 'b) M) \<Rightarrow> ('s, 'b) M" where
  "tryM m f s =
     (case m s of
        (Ok x, s') \<Rightarrow> f (Inr x) s'
      | (Fail e, s') \<Rightarrow> f (Inl e) s'
      | (Panic p, s') \<Rightarrow> (Panic p, s'))"

text \<open>A call of code outside this repository: it may fail, and it may change the world.\<close>

definition callM :: "('s \<Rightarrow> (error + 'a) \<times> 's) \<Rightarrow> ('s, 'a) M" where
  "callM c s = (let (r, s') = c s in (of_sum r, s'))"

lemmas [monad_defs] = returnM_def failM_def panicM_def resM_def bindM_def tryM_def callM_def

lemma bindM_returnM [simp]: "bindM (returnM x) f = f x"
  by (simp add: fun_eq_iff monad_defs)

lemma bindM_failM [simp]: "bindM (failM e) f = failM e"
  by (simp add: fun_eq_iff monad_defs)

lemma bindM_panicM [simp]: "bindM (panicM p) f = panicM p"
  by (simp add: fun_eq_iff monad_defs)

lemma tryM_returnM [simp]: "tryM (returnM x) f = f (Inr x)"
  by (simp add: fun_eq_iff monad_defs)

lemma tryM_failM [simp]: "tryM (failM e) f = f (Inl e)"
  by (simp add: fun_eq_iff monad_defs)

lemma bindM_assoc: "bindM (bindM m f) g = bindM m (\<lambda>x. bindM (f x) g)"
  by (auto simp: fun_eq_iff bindM_def split: prod.splits res.splits)

text \<open>A loop over a slice whose body may fail or panic.\<close>

fun forM :: "'a list \<Rightarrow> ('a \<Rightarrow> ('s, unit) M) \<Rightarrow> ('s, unit) M" where
  "forM [] f = returnM ()"
| "forM (x # xs) f = bindM (f x) (\<lambda>_. forM xs f)"

section \<open>Handlers: a mutable object next to the world\<close>

text \<open>
  A handler's state is a pair of the object it mutates in place and the world. \<open>liftW\<close> runs
  a call that does not touch the object, \<open>getV\<close> reads it and \<open>modV\<close> assigns to it.
\<close>

definition liftW :: "('w, 'a) M \<Rightarrow> ('v \<times> 'w, 'a) M" where
  "liftW m s = (let (r, w') = m (snd s) in (r, (fst s, w')))"

definition getV :: "('v \<times> 'w, 'v) M" where
  "getV s = (Ok (fst s), s)"

definition modV :: "('v \<Rightarrow> 'v) \<Rightarrow> ('v \<times> 'w, unit) M" where
  "modV g s = (Ok (), (g (fst s), snd s))"

lemmas [monad_defs] = liftW_def getV_def modV_def

text \<open>
  \<open>post v m Q\<close>: started on the object \<open>v\<close>, whatever the world does, the handler ends with a
  result and an object that satisfy \<open>Q\<close>. The calculus is demonic in the world: every answer
  of the cluster is considered.
\<close>

definition post :: "'v \<Rightarrow> ('v \<times> 'w, 'a) M \<Rightarrow> ('a res \<Rightarrow> 'v \<Rightarrow> bool) \<Rightarrow> bool" where
  "post v m Q \<longleftrightarrow> (\<forall>w. Q (fst (m (v, w))) (fst (snd (m (v, w)))))"

lemma postD: "post v m Q \<Longrightarrow> m (v, w) = (r, v', w') \<Longrightarrow> Q r v'"
  unfolding post_def by (metis fst_conv snd_conv)

lemma post_mono: "post v m Q \<Longrightarrow> (\<And>r v'. Q r v' \<Longrightarrow> Q' r v') \<Longrightarrow> post v m Q'"
  by (auto simp: post_def)

lemma post_conj: "post v m Q \<Longrightarrow> post v m Q' \<Longrightarrow> post v m (\<lambda>r v'. Q r v' \<and> Q' r v')"
  by (auto simp: post_def)

lemma post_returnM [wp]: "Q (Ok x) v \<Longrightarrow> post v (returnM x) Q"
  by (simp add: post_def returnM_def)

lemma post_failM [wp]: "Q (Fail e) v \<Longrightarrow> post v (failM e) Q"
  by (simp add: post_def failM_def)

lemma post_panicM [wp]: "Q (Panic p) v \<Longrightarrow> post v (panicM p) Q"
  by (simp add: post_def panicM_def)

lemma post_modV [wp]: "Q (Ok ()) (g v) \<Longrightarrow> post v (modV g) Q"
  by (simp add: post_def modV_def)

lemma post_getV_bind [wp]: "post v (f v) Q \<Longrightarrow> post v (bindM getV f) Q"
  by (simp add: post_def bindM_def getV_def)

lemma post_modV_bind [wp]: "post (g v) (f ()) Q \<Longrightarrow> post v (bindM (modV g) f) Q"
  by (simp add: post_def bindM_def modV_def)

lemma post_liftW [wp]: "(\<And>r. Q r v) \<Longrightarrow> post v (liftW m) Q"
  by (simp add: post_def liftW_def split: prod.splits)

lemma post_liftW_bind [wp]:
  assumes "\<And>x. post v (f x) Q" and "\<And>e. Q (Fail e) v" and "\<And>p. Q (Panic p) v"
  shows "post v (bindM (liftW m) f) Q"
proof -
  have "Q (fst (bindM (liftW m) f (v, w))) (fst (snd (bindM (liftW m) f (v, w))))" for w
  proof (cases "m w")
    case (Pair r w')
    then show ?thesis
      using assms by (cases r) (auto simp: bindM_def liftW_def post_def)
  qed
  then show ?thesis by (simp add: post_def)
qed

lemma post_liftW_try [wp]:
  assumes "\<And>r. post v (f r) Q" and "\<And>p. Q (Panic p) v"
  shows "post v (tryM (liftW m) f) Q"
proof -
  have "Q (fst (tryM (liftW m) f (v, w))) (fst (snd (tryM (liftW m) f (v, w))))" for w
  proof (cases "m w")
    case (Pair r w')
    then show ?thesis
      using assms by (cases r) (auto simp: tryM_def liftW_def post_def)
  qed
  then show ?thesis by (simp add: post_def)
qed

lemma post_bind:
  assumes "post v m (\<lambda>r v'. case r of Ok x \<Rightarrow> post v' (f x) Q | Fail e \<Rightarrow> Q (Fail e) v' | Panic p \<Rightarrow> Q (Panic p) v')"
  shows "post v (bindM m f) Q"
proof -
  have "Q (fst (bindM m f (v, w))) (fst (snd (bindM m f (v, w))))" for w
  proof -
    obtain r v' w' where m: "m (v, w) = (r, v', w')" by (metis prod_cases3)
    from postD [OF assms m] show ?thesis
      by (cases r) (auto simp: bindM_def m post_def)
  qed
  then show ?thesis by (simp add: post_def)
qed

lemma post_if [wp]:
  "(b \<Longrightarrow> post v m Q) \<Longrightarrow> (\<not> b \<Longrightarrow> post v n Q) \<Longrightarrow> post v (if b then m else n) Q"
  by simp

text \<open>
  The rules below push a continuation into the branches of what comes before it, so that a
  handler's proof follows its control flow and every leaf is an assignment, a return or a call.
\<close>

lemma bindM_tryM: "bindM (tryM m g) f = tryM m (\<lambda>x. bindM (g x) f)"
  by (auto simp: fun_eq_iff bindM_def tryM_def split: prod.splits res.splits)

lemma post_bind_assoc [wp]: "post v (bindM m (\<lambda>x. bindM (g x) f)) Q \<Longrightarrow> post v (bindM (bindM m g) f) Q"
  by (simp add: bindM_assoc)

lemma post_bind_try [wp]: "post v (tryM m (\<lambda>x. bindM (g x) f)) Q \<Longrightarrow> post v (bindM (tryM m g) f) Q"
  by (simp add: bindM_tryM)

lemma post_bind_return [wp]: "post v (f x) Q \<Longrightarrow> post v (bindM (returnM x) f) Q"
  by simp

lemma post_bind_fail [wp]: "Q (Fail e) v \<Longrightarrow> post v (bindM (failM e) f) Q"
  by (simp add: post_failM)

lemma post_bind_panic [wp]: "Q (Panic p) v \<Longrightarrow> post v (bindM (panicM p) f) Q"
  by (simp add: post_panicM)

lemma post_bind_if [wp]:
  "(b \<Longrightarrow> post v (bindM m f) Q) \<Longrightarrow> (\<not> b \<Longrightarrow> post v (bindM n f) Q) \<Longrightarrow> post v (bindM (if b then m else n) f) Q"
  by simp

lemma post_option [wp]:
  "(x = None \<Longrightarrow> post v m Q) \<Longrightarrow> (\<And>y. x = Some y \<Longrightarrow> post v (n y) Q) \<Longrightarrow>
     post v (case x of None \<Rightarrow> m | Some y \<Rightarrow> n y) Q"
  by (cases x) simp_all

lemma post_bind_option [wp]:
  "(x = None \<Longrightarrow> post v (bindM m f) Q) \<Longrightarrow> (\<And>y. x = Some y \<Longrightarrow> post v (bindM (n y) f) Q) \<Longrightarrow>
     post v (bindM (case x of None \<Rightarrow> m | Some y \<Rightarrow> n y) f) Q"
  by (cases x) simp_all

lemma post_sum [wp]:
  "(\<And>e. x = Inl e \<Longrightarrow> post v (m e) Q) \<Longrightarrow> (\<And>y. x = Inr y \<Longrightarrow> post v (n y) Q) \<Longrightarrow>
     post v (case x of Inl e \<Rightarrow> m e | Inr y \<Rightarrow> n y) Q"
  by (cases x) simp_all

lemma post_bind_sum [wp]:
  "(\<And>e. x = Inl e \<Longrightarrow> post v (bindM (m e) f) Q) \<Longrightarrow> (\<And>y. x = Inr y \<Longrightarrow> post v (bindM (n y) f) Q) \<Longrightarrow>
     post v (bindM (case x of Inl e \<Rightarrow> m e | Inr y \<Rightarrow> n y) f) Q"
  by (cases x) simp_all

lemma post_prod [wp]: "(\<And>a b. x = (a, b) \<Longrightarrow> post v (m a b) Q) \<Longrightarrow> post v (case x of (a, b) \<Rightarrow> m a b) Q"
  by (cases x) simp_all

lemma post_Let [wp]: "post v (m x) Q \<Longrightarrow> post v (Let x m) Q"
  by simp

lemma post_bind_Let [wp]: "post v (bindM (m x) f) Q \<Longrightarrow> post v (bindM (Let x m) f) Q"
  by simp

section \<open>Calls that do not panic, calls that do not fail\<close>

named_theorems np \<open>absence of panics\<close>

definition noPanic :: "('s, 'a) M \<Rightarrow> bool" where
  "noPanic m \<longleftrightarrow> (\<forall>s p. fst (m s) \<noteq> Panic p)"

definition succeeds :: "('s, 'a) M \<Rightarrow> bool" where
  "succeeds m \<longleftrightarrow> (\<forall>s. \<exists>x. fst (m s) = Ok x)"

lemma noPanic_returnM [np]: "noPanic (returnM x)"
  by (simp add: noPanic_def returnM_def)

lemma noPanic_failM [np]: "noPanic (failM e)"
  by (simp add: noPanic_def failM_def)

lemma noPanic_callM [np]: "noPanic (callM c)"
  by (simp add: noPanic_def callM_def split: prod.split)

lemma noPanic_resM [np]: "(\<And>p. r \<noteq> Panic p) \<Longrightarrow> noPanic (resM r)"
  by (simp add: noPanic_def resM_def)

lemma noPanic_bindM [np]:
  assumes "noPanic m" and "\<And>x. noPanic (f x)"
  shows "noPanic (bindM m f)"
proof -
  have "fst (bindM m f s) \<noteq> Panic p" for s p
  proof (cases "m s")
    case (Pair r s')
    with assms show ?thesis by (cases r) (auto simp: noPanic_def bindM_def, metis fst_conv)
  qed
  then show ?thesis by (simp add: noPanic_def)
qed

lemma noPanic_tryM [np]:
  assumes "noPanic m" and "\<And>x. noPanic (f x)"
  shows "noPanic (tryM m f)"
proof -
  have "fst (tryM m f s) \<noteq> Panic p" for s p
  proof (cases "m s")
    case (Pair r s')
    with assms show ?thesis by (cases r) (auto simp: noPanic_def tryM_def, metis fst_conv)
  qed
  then show ?thesis by (simp add: noPanic_def)
qed

lemma noPanic_if [np]: "noPanic m \<Longrightarrow> noPanic n \<Longrightarrow> noPanic (if b then m else n)"
  by simp

lemma noPanic_option [np]: "noPanic m \<Longrightarrow> (\<And>y. noPanic (n y)) \<Longrightarrow> noPanic (case x of None \<Rightarrow> m | Some y \<Rightarrow> n y)"
  by (cases x) simp_all

lemma noPanic_sum [np]: "(\<And>e. noPanic (m e)) \<Longrightarrow> (\<And>y. noPanic (n y)) \<Longrightarrow> noPanic (case x of Inl e \<Rightarrow> m e | Inr y \<Rightarrow> n y)"
  by (cases x) simp_all

lemma noPanic_prod [np]: "(\<And>a b. noPanic (m a b)) \<Longrightarrow> noPanic (case x of (a, b) \<Rightarrow> m a b)"
  by (cases x) simp_all

lemma noPanic_Let [np]: "noPanic (m x) \<Longrightarrow> noPanic (Let x m)"
  by simp

lemma succeeds_returnM [simp]: "succeeds (returnM x)"
  by (simp add: succeeds_def returnM_def)

lemma succeeds_tryM:
  assumes "noPanic m" and "\<And>x. succeeds (f x)"
  shows "succeeds (tryM m f)"
proof -
  have "\<exists>x. fst (tryM m f s) = Ok x" for s
  proof (cases "m s")
    case (Pair r s')
    with assms show ?thesis by (cases r) (auto simp: noPanic_def succeeds_def tryM_def, metis fst_conv)
  qed
  then show ?thesis by (simp add: succeeds_def)
qed

lemma succeeds_bindM:
  assumes "succeeds m" and "\<And>x. succeeds (f x)"
  shows "succeeds (bindM m f)"
proof -
  have "\<exists>x. fst (bindM m f s) = Ok x" for s
  proof -
    obtain x s' where "m s = (Ok x, s')" using assms(1) unfolding succeeds_def by (metis prod.collapse)
    with assms(2) show ?thesis by (simp add: bindM_def succeeds_def)
  qed
  then show ?thesis by (simp add: succeeds_def)
qed

lemma succeeds_noPanic: "succeeds m \<Longrightarrow> noPanic m"
  unfolding succeeds_def noPanic_def by (metis res.distinct(3))

text \<open>Stronger rules for calls of which this is known.\<close>

lemma post_liftW_bind_succeeds:
  assumes "succeeds m" and "\<And>x. post v (f x) Q"
  shows "post v (bindM (liftW m) f) Q"
proof -
  have "Q (fst (bindM (liftW m) f (v, w))) (fst (snd (bindM (liftW m) f (v, w))))" for w
  proof -
    obtain x w' where "m w = (Ok x, w')" using assms(1) unfolding succeeds_def by (metis prod.collapse)
    then show ?thesis using assms(2) by (simp add: bindM_def liftW_def post_def)
  qed
  then show ?thesis by (simp add: post_def)
qed

lemma post_liftW_try_noPanic:
  assumes "noPanic m" and "\<And>r. post v (f r) Q"
  shows "post v (tryM (liftW m) f) Q"
proof -
  have "Q (fst (tryM (liftW m) f (v, w))) (fst (snd (tryM (liftW m) f (v, w))))" for w
  proof (cases "m w")
    case (Pair r w')
    then show ?thesis
      using assms by (cases r) (auto simp: tryM_def liftW_def post_def noPanic_def, metis fst_conv)
  qed
  then show ?thesis by (simp add: post_def)
qed

lemma post_liftW_bind_noPanic:
  assumes "noPanic m" and "\<And>x. post v (f x) Q" and "\<And>e. Q (Fail e) v"
  shows "post v (bindM (liftW m) f) Q"
proof -
  have "Q (fst (bindM (liftW m) f (v, w))) (fst (snd (bindM (liftW m) f (v, w))))" for w
  proof (cases "m w")
    case (Pair r w')
    then show ?thesis
      using assms by (cases r) (auto simp: bindM_def liftW_def post_def noPanic_def, metis fst_conv)
  qed
  then show ?thesis by (simp add: post_def)
qed

section \<open>What a successful call returns\<close>

named_theorems ens \<open>rules for results of successful calls\<close>

definition ensures :: "('s, 'a) M \<Rightarrow> ('a \<Rightarrow> bool) \<Rightarrow> bool" where
  "ensures m P \<longleftrightarrow> (\<forall>s x s'. m s = (Ok x, s') \<longrightarrow> P x)"

lemma ensuresD: "ensures m P \<Longrightarrow> m s = (Ok x, s') \<Longrightarrow> P x"
  unfolding ensures_def by blast

lemma ensures_returnM [ens]: "P x \<Longrightarrow> ensures (returnM x) P"
  by (simp add: ensures_def returnM_def)

lemma ensures_failM [ens]: "ensures (failM e) P"
  by (simp add: ensures_def failM_def)

lemma ensures_panicM [ens]: "ensures (panicM p) P"
  by (simp add: ensures_def panicM_def)

lemma ensures_bindM [ens]:
  "(\<And>x s s'. m s = (Ok x, s') \<Longrightarrow> ensures (f x) P) \<Longrightarrow> ensures (bindM m f) P"
  by (fastforce simp: ensures_def bindM_def split: prod.splits res.splits)

lemma ensures_if [ens]: "(b \<Longrightarrow> ensures m P) \<Longrightarrow> (\<not> b \<Longrightarrow> ensures n P) \<Longrightarrow> ensures (if b then m else n) P"
  by simp

lemma ensures_option [ens]:
  "(x = None \<Longrightarrow> ensures m P) \<Longrightarrow> (\<And>y. x = Some y \<Longrightarrow> ensures (n y) P) \<Longrightarrow>
     ensures (case x of None \<Rightarrow> m | Some y \<Rightarrow> n y) P"
  by (cases x) simp_all

lemma ensures_sum [ens]:
  "(\<And>e. x = Inl e \<Longrightarrow> ensures (m e) P) \<Longrightarrow> (\<And>y. x = Inr y \<Longrightarrow> ensures (n y) P) \<Longrightarrow>
     ensures (case x of Inl e \<Rightarrow> m e | Inr y \<Rightarrow> n y) P"
  by (cases x) simp_all

lemma ensures_Let [ens]: "ensures (m x) P \<Longrightarrow> ensures (Let x m) P"
  by simp

section \<open>Slices\<close>

text \<open>\<open>for _, x := range xs { if p(x) { return x } }\<close>: the first element that satisfies a test.\<close>

lemma list_all_True [simp]: "list_all (\<lambda>_. True) xs"
  by (simp add: list_all_iff)

lemma find_append: "find p (xs @ ys) = (case find p xs of None \<Rightarrow> find p ys | Some x \<Rightarrow> Some x)"
  by (induction xs) auto

lemma find_SomeD: "find p xs = Some x \<Longrightarrow> x \<in> set xs \<and> p x"
  by (auto simp: find_Some_iff)

text \<open>
  The contract of the \<open>Add\<dots>\<close> operations of the Maven project, of its exclusions and of
  \<open>StringSliceUniqueAdd\<close>: an element is appended unless one with the same key is there.
\<close>

locale unique_add =
  fixes key :: "'a \<Rightarrow> 'k"
    and add :: "'a \<Rightarrow> 'a list \<Rightarrow> 'a list"
  assumes add_present: "key x \<in> key ` set xs \<Longrightarrow> add x xs = xs"
    and add_absent: "key x \<notin> key ` set xs \<Longrightarrow> add x xs = xs @ [x]"
begin

lemma add_distinct: "distinct (map key xs) \<Longrightarrow> distinct (map key (add x xs))"
  by (cases "key x \<in> key ` set xs") (simp_all add: add_present add_absent)

lemma add_keys: "key ` set (add x xs) = insert (key x) (key ` set xs)"
  by (cases "key x \<in> key ` set xs") (auto simp: add_present add_absent)

lemma add_idem: "add x (add x xs) = add x xs"
  by (rule add_present) (simp add: add_keys)

lemma add_prefix: "\<exists>ys. add x xs = xs @ ys"
  by (cases "key x \<in> key ` set xs") (simp_all add: add_present add_absent)

lemma add_all_distinct: "distinct (map key xs) \<Longrightarrow> distinct (map key (fold add ys xs))"
  by (induction ys arbitrary: xs) (simp_all add: add_distinct)

lemma add_all_keys: "key ` set (fold add ys xs) = key ` set xs \<union> key ` set ys"
  by (induction ys arbitrary: xs) (auto simp: add_keys)

lemma add_all_prefix: "\<exists>zs. fold add ys xs = xs @ zs"
proof (induction ys arbitrary: xs)
  case (Cons y ys)
  obtain zs where "add y xs = xs @ zs" using add_prefix by blast
  moreover obtain zs' where "fold add ys (add y xs) = add y xs @ zs'" using Cons.IH by blast
  ultimately show ?case by simp
qed simp

text \<open>What is in the list stays the first element of its key.\<close>

lemma add_all_find:
  assumes "find (\<lambda>z. key z = k) xs = Some x"
  shows "find (\<lambda>z. key z = k) (fold add ys xs) = Some x"
proof -
  obtain zs where "fold add ys xs = xs @ zs" using add_all_prefix by blast
  with assms show ?thesis by (simp add: find_append)
qed

text \<open>An element added to a list is found as the first one of its key in the old list and the additions.\<close>

lemma add_all_find_append: "find (\<lambda>z. key z = k) (fold add ys xs) = find (\<lambda>z. key z = k) (xs @ ys)"
proof (induction ys arbitrary: xs)
  case (Cons y ys)
  show ?case
  proof (cases "key y \<in> key ` set xs")
    case True
    then have "find (\<lambda>z. key z = k) (xs @ y # ys) = find (\<lambda>z. key z = k) (xs @ ys)"
    proof (cases "find (\<lambda>z. key z = k) xs")
      case None
      with True have "key y \<noteq> k" by (auto simp: find_None_iff)
      with None show ?thesis by (simp add: find_append)
    qed (simp add: find_append)
    with True Cons.IH show ?thesis by (simp add: add_present)
  next
    case False
    with Cons.IH show ?thesis by (simp add: add_absent)
  qed
qed simp

lemma add_all_first:
  assumes "y \<in> set ys"
  shows "\<exists>x. find (\<lambda>z. key z = key y) (fold add ys xs) = Some x \<and> find (\<lambda>z. key z = key y) (xs @ ys) = Some x"
proof -
  have "find (\<lambda>z. key z = key y) (xs @ ys) \<noteq> None" using assms by (auto simp: find_None_iff)
  then show ?thesis by (auto simp: add_all_find_append)
qed

end

end
