(* ===== verification/Go_Strings.thy ===== *)
theory Go_Strings
  imports Prelude "HOL-Library.Sublist" "HOL-Library.Char_ord"
begin

text \<open>
  The parts of Go's \<open>strings\<close>, \<open>strconv\<close> and \<open>unicode\<close> packages the operator calls. A Go
  string is a list of bytes (\<open>char\<close>). Case mapping is the ASCII one: identifiers, property
  names, Maven coordinates and DDL keywords are ASCII, and bytes outside ASCII are left as
  they are. \<open>strings.Contains\<close>, \<open>HasPrefix\<close> and \<open>HasSuffix\<close> are \<open>sublist\<close>, \<open>prefix\<close> and
  \<open>suffix\<close> of HOL-Library.
\<close>

section \<open>Characters and case\<close>

definition IsUpper :: "char \<Rightarrow> bool" where
  "IsUpper c \<longleftrightarrow> CHR ''A'' \<le> c \<and> c \<le> CHR ''Z''"

definition IsLower :: "char \<Rightarrow> bool" where
  "IsLower c \<longleftrightarrow> CHR ''a'' \<le> c \<and> c \<le> CHR ''z''"

definition IsDigit :: "char \<Rightarrow> bool" where
  "IsDigit c \<longleftrightarrow> CHR ''0'' \<le> c \<and> c \<le> CHR ''9''"

definition toLowerC :: "char \<Rightarrow> char" where
  "toLowerC c = (if IsUpper c then char_of (of_char c + 32 :: nat) else c)"

definition toUpperC :: "char \<Rightarrow> char" where
  "toUpperC c = (if IsLower c then char_of (of_char c - 32 :: nat) else c)"

definition ToLower :: "string \<Rightarrow> string" where
  "ToLower s = map toLowerC s"

definition ToUpper :: "string \<Rightarrow> string" where
  "ToUpper s = map toUpperC s"

definition EqualFold :: "string \<Rightarrow> string \<Rightarrow> bool" where
  "EqualFold s t \<longleftrightarrow> ToLower s = ToLower t"

section \<open>Splitting, joining, replacing\<close>

text \<open>\<open>strings.Split(s, sep)\<close> with a one-byte separator: always at least one piece.\<close>

fun Split :: "string \<Rightarrow> char \<Rightarrow> string list" where
  "Split [] sep = [[]]"
| "Split (c # s) sep =
     (if c = sep then [] # Split s sep
      else (case Split s sep of [] \<Rightarrow> [[c]] | p # ps \<Rightarrow> (c # p) # ps))"

fun Join :: "string list \<Rightarrow> string \<Rightarrow> string" where
  "Join [] sep = []"
| "Join [p] sep = p"
| "Join (p # q # ps) sep = p @ sep @ Join (q # ps) sep"

text \<open>\<open>strings.Trim(s, " ")\<close>.\<close>

definition TrimSpaces :: "string \<Rightarrow> string" where
  "TrimSpaces s = rev (dropWhile (\<lambda>c. c = CHR '' '') (rev (dropWhile (\<lambda>c. c = CHR '' '') s)))"

text \<open>\<open>strings.ReplaceAll(s, old, new)\<close> with a one-byte \<open>old\<close>.\<close>

definition ReplaceAll :: "string \<Rightarrow> char \<Rightarrow> string \<Rightarrow> string" where
  "ReplaceAll s old new = concat (map (\<lambda>c. if c = old then new else [c]) s)"

definition Count :: "string \<Rightarrow> char \<Rightarrow> nat" where
  "Count s c = length (filter (\<lambda>x. x = c) s)"

text \<open>\<open>strings.Index(s, c)\<close>: \<open>None\<close> stands for -1.\<close>

fun Index :: "string \<Rightarrow> char \<Rightarrow> nat option" where
  "Index [] c = None"
| "Index (x # s) c = (if x = c then Some 0 else map_option Suc (Index s c))"

text \<open>\<open>strings.Index(s, sub)\<close> with a longer needle.\<close>

fun IndexSub :: "string \<Rightarrow> string \<Rightarrow> nat option" where
  "IndexSub [] sub = (if sub = [] then Some 0 else None)"
| "IndexSub (x # s) sub = (if prefix sub (x # s) then Some 0 else map_option Suc (IndexSub s sub))"

section \<open>strconv\<close>

definition maxInt64 :: int where
  "maxInt64 = 2 ^ 63 - 1"

definition minInt64 :: int where
  "minInt64 = - (2 ^ 63)"

definition in_int64 :: "int \<Rightarrow> bool" where
  "in_int64 i \<longleftrightarrow> minInt64 \<le> i \<and> i \<le> maxInt64"

text \<open>Two's complement wrap-around of a 64-bit \<open>int\<close>.\<close>

definition wrap64 :: "int \<Rightarrow> int" where
  "wrap64 i = (i + 2 ^ 63) mod 2 ^ 64 - 2 ^ 63"

definition digitVal :: "char \<Rightarrow> int" where
  "digitVal c = int (of_char c) - 48"

fun digitsVal :: "int \<Rightarrow> string \<Rightarrow> int" where
  "digitsVal acc [] = acc"
| "digitsVal acc (c # s) = digitsVal (10 * acc + digitVal c) s"

definition signed_value :: "string \<Rightarrow> (bool \<times> string)" where
  "signed_value s =
     (case s of [] \<Rightarrow> (False, [])
      | c # t \<Rightarrow> if c = CHR ''-'' then (True, t) else if c = CHR ''+'' then (False, t) else (False, s))"

text \<open>
  \<open>strconv.Atoi\<close>: an optional sign and at least one decimal digit, in the range of \<open>int\<close>.
  On an error it returns 0 (a syntax error) or the nearest bound (a range error) next to it;
  callers that drop the error see that number.
\<close>

definition Atoi :: "string \<Rightarrow> (int \<times> error option)" where
  "Atoi s =
     (let (neg, ds) = signed_value s in
      if ds = [] \<or> \<not> list_all IsDigit ds then (0, Some (Err (''strconv.Atoi: parsing '' @ s @ '': invalid syntax'')))
      else (let n = (if neg then - digitsVal 0 ds else digitsVal 0 ds) in
            if n < minInt64 then (minInt64, Some (Err (''strconv.Atoi: parsing '' @ s @ '': value out of range'')))
            else if maxInt64 < n then (maxInt64, Some (Err (''strconv.Atoi: parsing '' @ s @ '': value out of range'')))
            else (n, None)))"

definition digitChar :: "nat \<Rightarrow> char" where
  "digitChar n = char_of (48 + n)"

fun natDigits :: "nat \<Rightarrow> string" where
  "natDigits n = (if n < 10 then [digitChar n] else natDigits (n div 10) @ [digitChar (n mod 10)])"

declare natDigits.simps [simp del]

definition Itoa :: "int \<Rightarrow> string" where
  "Itoa i = (if i < 0 then CHR ''-'' # natDigits (nat (- i)) else natDigits (nat i))"

definition ParseBool :: "string \<Rightarrow> (bool \<times> error option)" where
  "ParseBool s =
     (if s \<in> set [''1'', ''t'', ''T'', ''TRUE'', ''true'', ''True''] then (True, None)
      else if s \<in> set [''0'', ''f'', ''F'', ''FALSE'', ''false'', ''False''] then (False, None)
      else (False, Some (Err (''strconv.ParseBool: parsing '' @ s @ '': invalid syntax''))))"

section \<open>Lemmas on case\<close>

lemma of_char_le_iff: "(c :: char) \<le> d \<longleftrightarrow> (of_char c :: nat) \<le> of_char d"
  by (simp add: less_eq_char_def)

lemmas char_class_defs = IsUpper_def IsLower_def IsDigit_def of_char_le_iff

lemma IsUpper_range: "IsUpper c \<longleftrightarrow> 65 \<le> (of_char c :: nat) \<and> (of_char c :: nat) \<le> 90"
  by (simp add: char_class_defs)

lemma IsLower_range: "IsLower c \<longleftrightarrow> 97 \<le> (of_char c :: nat) \<and> (of_char c :: nat) \<le> 122"
  by (simp add: char_class_defs)

lemma IsDigit_range: "IsDigit c \<longleftrightarrow> 48 \<le> (of_char c :: nat) \<and> (of_char c :: nat) \<le> 57"
  by (simp add: char_class_defs)

lemmas char_ranges = IsUpper_range IsLower_range IsDigit_range

lemma of_char_char_of_nat [simp]: "n < 256 \<Longrightarrow> (of_char (char_of n) :: nat) = n"
  by simp

lemma toLowerC_not_upper [simp]: "\<not> IsUpper (toLowerC c)"
  by (simp add: toLowerC_def char_ranges)

lemma toUpperC_not_lower [simp]: "\<not> IsLower (toUpperC c)"
  by (auto simp: toUpperC_def char_ranges mod_less)

lemma toLowerC_idem [simp]: "toLowerC (toLowerC c) = toLowerC c"
  using toLowerC_not_upper [of c] by (simp add: toLowerC_def [of "toLowerC c"])

lemma toUpperC_idem [simp]: "toUpperC (toUpperC c) = toUpperC c"
  using toUpperC_not_lower [of c] by (simp add: toUpperC_def [of "toUpperC c"])

lemma toUpperC_toLowerC [simp]: "toUpperC (toLowerC c) = toUpperC c"
proof (cases "IsUpper c")
  case True
  then have "IsLower (toLowerC c)" and "\<not> IsLower c"
    by (simp_all add: toLowerC_def char_ranges)
  with True show ?thesis
    by (simp add: toUpperC_def toLowerC_def char_ranges)
next
  case False
  then show ?thesis by (simp add: toLowerC_def)
qed

lemma toUpperC_code: "IsLower c \<Longrightarrow> (of_char (toUpperC c) :: nat) = of_char c - 32"
proof -
  assume c: "IsLower c"
  then have "(of_char c - 32) mod 256 = (of_char c - 32 :: nat)"
    unfolding char_ranges by (intro mod_less) linarith
  with c show ?thesis by (simp add: toUpperC_def)
qed

lemma toUpperC_upper: "IsLower c \<Longrightarrow> IsUpper (toUpperC c)"
  by (auto simp: IsUpper_range IsLower_range toUpperC_code)

lemma toLowerC_toUpperC [simp]: "toLowerC (toUpperC c) = toLowerC c"
proof (cases "IsLower c")
  case True
  then have "\<not> IsUpper c" by (simp add: char_ranges)
  moreover have "toLowerC (toUpperC c) = char_of ((of_char c - 32) + (32 :: nat))"
    using True toUpperC_upper [OF True] by (simp add: toLowerC_def toUpperC_code)
  ultimately show ?thesis using True by (simp add: toLowerC_def IsLower_range)
next
  case False
  then show ?thesis by (simp add: toUpperC_def)
qed

lemma toLowerC_other: "\<not> IsUpper c \<Longrightarrow> toLowerC c = c"
  by (simp add: toLowerC_def)

lemma toUpperC_other: "\<not> IsLower c \<Longrightarrow> toUpperC c = c"
  by (simp add: toUpperC_def)

lemma ToLower_idem [simp]: "ToLower (ToLower s) = ToLower s"
  by (simp add: ToLower_def)

lemma ToUpper_ToLower [simp]: "ToUpper (ToLower s) = ToUpper s"
  by (simp add: ToUpper_def ToLower_def)

lemma ToLower_ToUpper [simp]: "ToLower (ToUpper s) = ToLower s"
  by (simp add: ToUpper_def ToLower_def)

lemma ToLower_append [simp]: "ToLower (s @ t) = ToLower s @ ToLower t"
  by (simp add: ToLower_def)

lemma ToUpper_append [simp]: "ToUpper (s @ t) = ToUpper s @ ToUpper t"
  by (simp add: ToUpper_def)

lemma ToLower_Nil [simp]: "ToLower [] = []"
  by (simp add: ToLower_def)

lemma length_ToLower [simp]: "length (ToLower s) = length s"
  by (simp add: ToLower_def)

lemma EqualFold_refl [simp]: "EqualFold s s"
  by (simp add: EqualFold_def)

lemma EqualFold_sym: "EqualFold s t \<longleftrightarrow> EqualFold t s"
  by (auto simp: EqualFold_def)

section \<open>Lemmas on splitting and joining\<close>

lemma Split_nonempty [simp]: "Split s sep \<noteq> []"
  by (induction s) (auto split: list.split)

lemma Split_no_sep: "p \<in> set (Split s sep) \<Longrightarrow> sep \<notin> set p"
proof (induction s arbitrary: p)
  case Nil
  then show ?case by simp
next
  case (Cons c s)
  obtain q qs where "Split s sep = q # qs" by (meson Split_nonempty neq_Nil_conv)
  with Cons show ?case by (auto split: if_splits)
qed

lemma Join_Cons: "ps \<noteq> [] \<Longrightarrow> Join (p # ps) sep = p @ sep @ Join ps sep"
  by (cases ps) auto

lemma Join_Split: "Join (Split s sep) [sep] = s"
proof (induction s)
  case Nil
  then show ?case by simp
next
  case (Cons c s)
  obtain q qs where "Split s sep = q # qs" by (meson Split_nonempty neq_Nil_conv)
  with Cons show ?case by (cases qs) auto
qed

lemma length_Split: "length (Split s sep) = Suc (Count s sep)"
  by (induction s) (auto simp: Count_def split: list.split)

lemma Split_append_sep: "sep \<notin> set p \<Longrightarrow> Split (p @ sep # s) sep = p # Split s sep"
  by (induction p) auto

lemma Split_no_occ: "sep \<notin> set p \<Longrightarrow> Split p sep = [p]"
  by (induction p) auto

lemma Index_None_iff: "Index s c = None \<longleftrightarrow> c \<notin> set s"
  by (induction s) auto

lemma Index_append: "c \<notin> set p \<Longrightarrow> Index (p @ c # s) c = Some (length p)"
  by (induction p) auto

lemma ReplaceAll_no_occ: "old \<notin> set new \<Longrightarrow> old \<notin> set (ReplaceAll s old new)"
  by (auto simp: ReplaceAll_def split: if_splits)

lemma ReplaceAll_set: "set (ReplaceAll s old new) \<subseteq> (set s - {old}) \<union> set new"
  by (auto simp: ReplaceAll_def split: if_splits)

section \<open>Lemmas on numbers\<close>

lemma wrap64_id: "in_int64 i \<Longrightarrow> wrap64 i = i"
  by (simp add: wrap64_def in_int64_def minInt64_def maxInt64_def)

lemma wrap64_in_int64: "in_int64 (wrap64 i)"
proof -
  have "0 \<le> (i + 2 ^ 63) mod 2 ^ 64" and "(i + 2 ^ 63) mod 2 ^ 64 < (2 :: int) ^ 64"
    by simp_all
  then show ?thesis by (simp add: wrap64_def in_int64_def minInt64_def maxInt64_def)
qed

lemma digitChar_digit: "n < 10 \<Longrightarrow> IsDigit (digitChar n)"
  by (simp add: digitChar_def char_ranges)

lemma digitVal_digitChar: "n < 10 \<Longrightarrow> digitVal (digitChar n) = int n"
  by (simp add: digitVal_def digitChar_def)

lemma natDigits_digits: "list_all IsDigit (natDigits n)"
proof (induction n rule: natDigits.induct)
  case (1 n)
  then show ?case
    by (subst natDigits.simps) (simp add: digitChar_digit)
qed

lemma natDigits_nonempty [simp]: "natDigits n \<noteq> []"
  by (subst natDigits.simps) simp

lemma digitsVal_append: "digitsVal acc (s @ [c]) = 10 * digitsVal acc s + digitVal c"
  by (induction s arbitrary: acc) auto

lemma digitsVal_natDigits: "digitsVal 0 (natDigits n) = int n"
proof (induction n rule: natDigits.induct)
  case (1 n)
  show ?case
  proof (cases "n < 10")
    case True
    then show ?thesis by (subst natDigits.simps) (simp add: digitVal_digitChar)
  next
    case False
    then have "digitsVal 0 (natDigits n) = 10 * int (n div 10) + int (n mod 10)"
      by (subst natDigits.simps) (simp add: digitsVal_append digitVal_digitChar 1)
    also have "\<dots> = int n" by (metis mult_div_mod_eq of_nat_add of_nat_mult of_nat_numeral)
    finally show ?thesis .
  qed
qed

lemma natDigits_hd: "\<exists>c s. natDigits n = c # s \<and> IsDigit c"
  using natDigits_digits [of n] natDigits_nonempty [of n] by (cases "natDigits n") auto

text \<open>\<open>Atoi\<close> reads back what \<open>Itoa\<close> prints.\<close>

lemma Atoi_Itoa:
  assumes "in_int64 i"
  shows "Atoi (Itoa i) = (i, None)"
proof (cases "i < 0")
  case True
  with assms show ?thesis
    by (simp add: Atoi_def Itoa_def signed_value_def natDigits_digits digitsVal_natDigits in_int64_def)
next
  case False
  obtain c s where cs: "natDigits (nat i) = c # s" "IsDigit c"
    using natDigits_hd by blast
  then have "c \<noteq> CHR ''-''" "c \<noteq> CHR ''+''"
    by (auto simp: char_ranges)
  then have "signed_value (Itoa i) = (False, natDigits (nat i))"
    using False cs by (simp add: signed_value_def Itoa_def)
  with False assms show ?thesis
    by (simp add: Atoi_def natDigits_digits digitsVal_natDigits in_int64_def)
qed

lemma Atoi_in_int64: "in_int64 (fst (Atoi s))"
  by (simp add: Atoi_def in_int64_def minInt64_def maxInt64_def Let_def split: prod.split)

end
