(* ===== verification/Sha256.thy ===== *)
theory Sha256
  imports Go_Strings "HOL-Library.Word"
begin

text \<open>
  The two standard-library encodings behind the operator's digests: \<open>crypto/sha256\<close> (FIPS 180-4)
  on byte strings, and \<open>base64.RawURLEncoding\<close> with its decoder.
\<close>

unbundle bit_operations_syntax

section \<open>SHA-256\<close>

type_synonym w32 = "32 word"

text \<open>
  The round constants are the first 32 bits of the fractional parts of the cube roots of the first 64
  primes, and the initial state those of the square roots of the first eight; both are checked below.
\<close>

definition sha_K :: "w32 list" where
  "sha_K =
    [1116352408, 1899447441, 3049323471, 3921009573, 961987163, 1508970993, 2453635748, 2870763221,
     3624381080, 310598401, 607225278, 1426881987, 1925078388, 2162078206, 2614888103, 3248222580,
     3835390401, 4022224774, 264347078, 604807628, 770255983, 1249150122, 1555081692, 1996064986,
     2554220882, 2821834349, 2952996808, 3210313671, 3336571891, 3584528711, 113926993, 338241895,
     666307205, 773529912, 1294757372, 1396182291, 1695183700, 1986661051, 2177026350, 2456956037,
     2730485921, 2820302411, 3259730800, 3345764771, 3516065817, 3600352804, 4094571909, 275423344,
     430227734, 506948616, 659060556, 883997877, 958139571, 1322822218, 1537002063, 1747873779,
     1955562222, 2024104815, 2227730452, 2361852424, 2428436474, 2756734187, 3204031479, 3329325298]"

datatype hash_state = HS w32 w32 w32 w32 w32 w32 w32 w32

definition sha_H0 :: hash_state where
  "sha_H0 = HS 1779033703 3144134277 1013904242 2773480762 1359893119 2600822924 528734635 1541459225"

definition first_primes :: "int list" where
  "first_primes =
    [2, 3, 5, 7, 11, 13, 17, 19, 23, 29, 31, 37, 41, 43, 47, 53,
     59, 61, 67, 71, 73, 79, 83, 89, 97, 101, 103, 107, 109, 113, 127, 131,
     137, 139, 149, 151, 157, 163, 167, 173, 179, 181, 191, 193, 197, 199, 211, 223,
     227, 229, 233, 239, 241, 251, 257, 263, 269, 271, 277, 281, 283, 293, 307, 311]"

text \<open>\<open>k\<close> is the first 32 bits after the binary point of the \<open>n\<close>-th root of \<open>p\<close>.\<close>

definition root_bits :: "nat \<Rightarrow> w32 \<Rightarrow> int \<Rightarrow> bool" where
  "root_bits n k p \<longleftrightarrow> list_ex (\<lambda>c. (c * 2 ^ 32 + uint k) ^ n \<le> p * 2 ^ (32 * n) \<and>
     p * 2 ^ (32 * n) < (c * 2 ^ 32 + uint k + 1) ^ n) [1, 2, 3, 4, 5, 6]"

lemma sha_K_roots: "list_all2 (root_bits 3) sha_K first_primes"
  by code_simp

lemma sha_H0_roots:
  "case sha_H0 of HS a b c d e f g h \<Rightarrow> list_all2 (root_bits 2) [a, b, c, d, e, f, g, h] (take 8 first_primes)"
  by code_simp

definition rotr :: "nat \<Rightarrow> w32 \<Rightarrow> w32" where
  "rotr n x = drop_bit n x OR push_bit (32 - n) x"

text \<open>One entry of the message schedule, and the schedule of 64 words.\<close>

definition sched_next :: "w32 list \<Rightarrow> w32" where
  "sched_next ws =
     (let n = length ws;
          v1 = ws ! (n - 2);
          v2 = ws ! (n - 15) in
      (rotr 17 v1 XOR rotr 19 v1 XOR drop_bit 10 v1) + ws ! (n - 7) +
      (rotr 7 v2 XOR rotr 18 v2 XOR drop_bit 3 v2) + ws ! (n - 16))"

fun schedule :: "nat \<Rightarrow> w32 list \<Rightarrow> w32 list" where
  "schedule 0 ws = ws"
| "schedule (Suc n) ws = schedule n (ws @ [sched_next ws])"

fun sha_round :: "hash_state \<Rightarrow> w32 \<times> w32 \<Rightarrow> hash_state" where
  "sha_round (HS a b c d e f g h) (k, w) =
     (let t1 = h + (rotr 6 e XOR rotr 11 e XOR rotr 25 e) + ((e AND f) XOR (NOT e AND g)) + k + w;
          t2 = (rotr 2 a XOR rotr 13 a XOR rotr 22 a) + ((a AND b) XOR (a AND c) XOR (b AND c)) in
      HS (t1 + t2) a b c (d + t1) e f g)"

fun hs_add :: "hash_state \<Rightarrow> hash_state \<Rightarrow> hash_state" where
  "hs_add (HS a b c d e f g h) (HS a' b' c' d' e' f' g' h') =
     HS (a + a') (b + b') (c + c') (d + d') (e + e') (f + f') (g + g') (h + h')"

definition sha_block :: "hash_state \<Rightarrow> w32 list \<Rightarrow> hash_state" where
  "sha_block s ws = hs_add s (foldl sha_round s (zip sha_K (schedule 48 ws)))"

text \<open>Padding to a multiple of 64 bytes, with the length in bits in the last eight.\<close>

definition be_bytes :: "nat \<Rightarrow> nat \<Rightarrow> nat list" where
  "be_bytes k n = map (\<lambda>i. n div 256 ^ (k - Suc i) mod 256) [0..<k]"

definition pad :: "nat list \<Rightarrow> nat list" where
  "pad bs =
     (let n = length bs in
      bs @ [128] @ replicate ((119 - n mod 64) mod 64) 0 @ be_bytes 8 (8 * n))"

fun be_words :: "nat list \<Rightarrow> w32 list" where
  "be_words (a # b # c # d # bs) = of_nat (((a * 256 + b) * 256 + c) * 256 + d) # be_words bs"
| "be_words _ = []"

fun sha_blocks :: "nat \<Rightarrow> hash_state \<Rightarrow> w32 list \<Rightarrow> hash_state" where
  "sha_blocks 0 s ws = s"
| "sha_blocks (Suc n) s ws = sha_blocks n (sha_block s (take 16 ws)) (drop 16 ws)"

fun hs_bytes :: "hash_state \<Rightarrow> nat list" where
  "hs_bytes (HS a b c d e f g h) = concat (map (\<lambda>x. be_bytes 4 (unat x)) [a, b, c, d, e, f, g, h])"

definition sha256 :: "string \<Rightarrow> nat list" where
  "sha256 s =
     (let ws = be_words (pad (map of_char s)) in
      hs_bytes (sha_blocks (length ws div 16) sha_H0 ws))"

section \<open>Base64\<close>

definition b64_alphabet :: string where
  "b64_alphabet = ''ABCDEFGHIJKLMNOPQRSTUVWXYZabcdefghijklmnopqrstuvwxyz0123456789-_''"

fun sextets :: "nat list \<Rightarrow> nat list" where
  "sextets [] = []"
| "sextets [a] = [a div 4, (a mod 4) * 16]"
| "sextets [a, b] = [a div 4, (a mod 4) * 16 + b div 16, (b mod 16) * 4]"
| "sextets (a # b # c # bs) =
     a div 4 # ((a mod 4) * 16 + b div 16) # ((b mod 16) * 4 + c div 64) # (c mod 64) # sextets bs"

definition RawURLEncoding :: "nat list \<Rightarrow> string" where
  "RawURLEncoding bs = map (\<lambda>i. b64_alphabet ! i) (sextets bs)"

fun octets :: "nat list \<Rightarrow> nat list" where
  "octets (p # q # r # t # ss) =
     (p * 4 + q div 16) # ((q mod 16) * 16 + r div 4) # ((r mod 4) * 64 + t) # octets ss"
| "octets [p, q, r] = [p * 4 + q div 16, (q mod 16) * 16 + r div 4]"
| "octets [p, q] = [p * 4 + q div 16]"
| "octets _ = []"

definition RawURLDecoding :: "string \<Rightarrow> nat list" where
  "RawURLDecoding s = octets (map (\<lambda>c. the (Index b64_alphabet c)) s)"

section \<open>Lemmas\<close>

lemma octet_parts:
  fixes b c :: nat
  assumes "b < 256"
  shows "b div 16 div 16 = 0" "b div 16 mod 16 = b div 16" "b div 64 div 4 = 0" "b div 64 mod 4 = b div 64"
  using assms by (simp_all add: div_mult2_eq [symmetric] less_mult_imp_div_less)

lemma octets_sextets: "list_all (\<lambda>b. b < 256) bs \<Longrightarrow> octets (sextets bs) = bs"
  by (induction bs rule: sextets.induct) (simp_all add: octet_parts)

lemma sextet_bounds:
  fixes a b c :: nat
  assumes "a < 256" "b < 256" "c < 256"
  shows "a div 4 < 64" "(a mod 4) * 16 < 64" "(a mod 4) * 16 + b div 16 < 64" "(b mod 16) * 4 < 64"
    "(b mod 16) * 4 + c div 64 < 64" "c mod 64 < 64"
proof -
  have "a mod 4 < 4" "b mod 16 < 16" "b div 16 < 16" "c div 64 < 4"
    using assms by (simp_all add: less_mult_imp_div_less)
  then show "(a mod 4) * 16 < 64" "(a mod 4) * 16 + b div 16 < 64" "(b mod 16) * 4 < 64"
    "(b mod 16) * 4 + c div 64 < 64" by linarith+
  show "a div 4 < 64" "c mod 64 < 64" using assms by (simp_all add: less_mult_imp_div_less)
qed

lemma sextets_bound: "list_all (\<lambda>b. b < 256) bs \<Longrightarrow> list_all (\<lambda>i. i < 64) (sextets bs)"
proof (induction bs rule: sextets.induct)
  case (2 a)
  then show ?case using sextet_bounds [of a 0 0] by simp
next
  case (3 a b)
  then show ?case using sextet_bounds [of a b 0] by simp
next
  case (4 a b c bs)
  then show ?case using sextet_bounds [of a b c] by simp
qed simp

lemma length_sextets: "length (sextets bs) = (4 * length bs + 2) div 3"
  by (induction bs rule: sextets.induct) simp_all

lemma length_b64_alphabet: "length b64_alphabet = 64"
  by code_simp

lemma Index_alphabet_all: "list_all (\<lambda>i. Index b64_alphabet (b64_alphabet ! i) = Some i) [0..<64]"
  by code_simp

lemma Index_alphabet: "i < 64 \<Longrightarrow> Index b64_alphabet (b64_alphabet ! i) = Some i"
  using Index_alphabet_all by (simp add: list_all_iff del: upt_Suc)

lemma RawURL_roundtrip: "list_all (\<lambda>b. b < 256) bs \<Longrightarrow> RawURLDecoding (RawURLEncoding bs) = bs"
proof -
  assume bs: "list_all (\<lambda>b. b < 256) bs"
  have "map (\<lambda>c. the (Index b64_alphabet c)) (RawURLEncoding bs) = sextets bs"
    using sextets_bound [OF bs] by (auto simp: RawURLEncoding_def Index_alphabet list_all_iff intro!: map_idI)
  with bs show ?thesis by (simp add: RawURLDecoding_def octets_sextets)
qed

lemma RawURLEncoding_set: "list_all (\<lambda>b. b < 256) bs \<Longrightarrow> set (RawURLEncoding bs) \<subseteq> set b64_alphabet"
  using sextets_bound [of bs] by (auto simp: RawURLEncoding_def list_all_iff length_b64_alphabet)

lemma length_RawURLEncoding: "length (RawURLEncoding bs) = (4 * length bs + 2) div 3"
  by (simp add: RawURLEncoding_def length_sextets)

lemma length_be_bytes [simp]: "length (be_bytes k n) = k"
  by (simp add: be_bytes_def)

lemma be_bytes_bound: "list_all (\<lambda>b. b < 256) (be_bytes k n)"
  by (simp add: be_bytes_def list_all_iff)

lemma length_hs_bytes [simp]: "length (hs_bytes s) = 32"
  by (cases s) simp

lemma hs_bytes_bound: "list_all (\<lambda>b. b < 256) (hs_bytes s)"
  by (cases s) (simp add: be_bytes_bound)

lemma length_sha256: "length (sha256 s) = 32"
  by (simp add: sha256_def Let_def)

lemma sha256_bytes: "list_all (\<lambda>b. b < 256) (sha256 s)"
  by (simp add: sha256_def Let_def hs_bytes_bound)

text \<open>The padded message is a whole number of 64-byte blocks.\<close>

lemma pad_zeros: "(119 - n mod 64) mod 64 = (if n mod 64 \<le> 55 then 55 - n mod 64 else 119 - n mod (64 :: nat))"
proof (cases "n mod 64 \<le> 55")
  case True
  then have "119 - n mod 64 = (55 - n mod 64) + 64" by simp
  with True show ?thesis by (simp only: mod_add_self2) simp
next
  case False
  then have "119 - n mod 64 < 64" by simp
  with False show ?thesis by simp
qed

lemma length_pad: "64 dvd length (pad bs)"
proof -
  define q r where "q = length bs div 64" and "r = length bs mod 64"
  then have n: "length bs = 64 * q + r" and r: "r < 64" by simp_all
  have "length (pad bs) = 64 * q + r + 1 + (119 - r) mod 64 + 8"
    using n r by (simp add: pad_def Let_def r_def)
  also have "\<dots> = 64 * (q + (if r \<le> 55 then 1 else 2))"
    using r pad_zeros [of r] by auto
  finally show ?thesis by simp
qed

end
