(* ===== verification/Types.thy ===== *)
theory Types
  imports Go_Strings
begin

text \<open>
  The data the operator works on: the Kubernetes types it reads and writes, restricted to the
  fields its code uses, and the custom resource \<open>VirtualDatabase\<close> of
  \<open>pkg/apis/teiid/v1alpha1/virtualdatabase_types.go\<close>.

  A nil pointer is \<open>None\<close>. A Go map is the list of its entries in the order in which the
  runtime happens to range over it; its keys are distinct.
\<close>

type_synonym 'v gomap = "(string \<times> 'v) list"

section \<open>Kubernetes core types\<close>

text \<open>
  The selectors of environment variables have all the fields of the Kubernetes API, since \<open>reflect.DeepEqual\<close> compares them.
  \<open>ConfigMapKeySelector\<close> and \<open>SecretKeySelector\<close> have the same fields; a quantity is its canonical text.
\<close>

record ObjectFieldSelector =
  fs_APIVersion :: string
  FieldPath :: string

record ResourceFieldSelector =
  ContainerName :: string
  Resource :: string
  Divisor :: string

record KeySelector =
  sel_Name :: string
  sel_Key :: string
  sel_Optional :: "bool option"

record EnvVarSource =
  FieldRef :: "ObjectFieldSelector option"
  ResourceFieldRef :: "ResourceFieldSelector option"
  ConfigMapKeyRef :: "KeySelector option"
  SecretKeyRef :: "KeySelector option"

record EnvVar =
  ev_Name :: string
  ev_Value :: string
  ValueFrom :: "EnvVarSource option"

record OwnerReference =
  owner_Name :: string
  owner_UID :: string

record ObjectMeta =
  Name :: string
  Namespace :: string
  Labels :: "string gomap"
  Annotations :: "string gomap option"
  ResourceVersion :: string
  UID :: string
  Generation :: int
  OwnerReferences :: "OwnerReference list"

record ResourceRequirements =
  Limits :: "string gomap"
  Requests :: "string gomap"

definition objectMeta :: "string \<Rightarrow> string \<Rightarrow> ObjectMeta" where
  "objectMeta nam ns =
     \<lparr>Name = nam, Namespace = ns, Labels = [], Annotations = None, ResourceVersion = [],
      UID = [], Generation = 0, OwnerReferences = []\<rparr>"

definition plainEnv :: "string \<Rightarrow> string \<Rightarrow> EnvVar" where
  "plainEnv n v = \<lparr>ev_Name = n, ev_Value = v, ValueFrom = None\<rparr>"

definition fieldRefSource :: "string \<Rightarrow> EnvVarSource" where
  "fieldRefSource path =
     \<lparr>FieldRef = Some \<lparr>fs_APIVersion = [], FieldPath = path\<rparr>, ResourceFieldRef = None, ConfigMapKeyRef = None, SecretKeyRef = None\<rparr>"

definition secretRefSource :: "string \<Rightarrow> string \<Rightarrow> EnvVarSource" where
  "secretRefSource nam key =
     \<lparr>FieldRef = None, ResourceFieldRef = None, ConfigMapKeyRef = None,
      SecretKeyRef = Some \<lparr>sel_Name = nam, sel_Key = key, sel_Optional = None\<rparr>\<rparr>"

section \<open>The custom resource\<close>

datatype ExposeType =
    LoadBalancer
  | NodePort
  | Route
  | ExposeVia3scale
  | OtherExpose string

record DataSourceObject =
  ds_Name :: string
  ds_Type :: string
  Properties :: "EnvVar list"

record Source =
  src_Version :: string
  DDL :: string
  Maven :: string
  OpenAPI :: string
  Dependencies :: "string list"
  MavenRepositories :: "string gomap"

record VirtualDatabaseBuildObject =
  build_Env :: "EnvVar list"
  build_Source :: Source

record ValueSource =
  vs_ConfigMapKeyRef :: "KeySelector option"
  vs_SecretKeyRef :: "KeySelector option"

record VirtualDatabaseSpec =
  Replicas :: "int option"
  spec_Env :: "EnvVar list"
  Resources :: ResourceRequirements
  Build :: VirtualDatabaseBuildObject
  Jaeger :: string
  DataSources :: "DataSourceObject list"
  Expose :: "ExposeType list"

text \<open>
  \<open>ReconcilerPhase\<close> is a string type in Go with these constants; any other string is kept
  apart as \<open>PhaseOther\<close>.
\<close>

datatype ReconcilerPhase =
    ReconcilerPhaseInitial
  | ReconcilerPhaseCreateCacheStore
  | ReconcilerPhaseS2IReady
  | ReconcilerPhaseBuilderImage
  | ReconcilerPhaseBuilderImageFinished
  | ReconcilerPhaseBuilderImageFailed
  | ReconcilerPhaseServiceImage
  | ReconcilerPhaseServiceImageFinished
  | ReconcilerPhaseServiceImageFailed
  | ReconcilerPhaseServiceCreated
  | ReconcilerPhaseKeystoreCreated
  | ReconcilerPhaseDeploying
  | ReconcilerPhaseRunning
  | ReconcilerPhaseError
  | ReconcilerPhaseDeleting
  | PhaseOther string

record VirtualDatabaseStatus =
  Phase :: ReconcilerPhase
  Digest :: string
  ConfigDigest :: string
  Failure :: string
  status_Route :: string
  Version :: string
  CacheStore :: string

record VirtualDatabase =
  vdb_Meta :: ObjectMeta
  Spec :: VirtualDatabaseSpec
  Status :: VirtualDatabaseStatus

text \<open>The zero value \<open>&v1alpha1.VirtualDatabase{}\<close>.\<close>

definition emptySource :: Source where
  "emptySource = \<lparr>src_Version = [], DDL = [], Maven = [], OpenAPI = [], Dependencies = [], MavenRepositories = []\<rparr>"

definition emptySpec :: VirtualDatabaseSpec where
  "emptySpec = \<lparr>Replicas = None, spec_Env = [], Resources = \<lparr>Limits = [], Requests = []\<rparr>,
     Build = \<lparr>build_Env = [], build_Source = emptySource\<rparr>, Jaeger = [], DataSources = [], Expose = []\<rparr>"

definition emptyStatus :: VirtualDatabaseStatus where
  "emptyStatus = \<lparr>Phase = ReconcilerPhaseInitial, Digest = [], ConfigDigest = [], Failure = [],
     status_Route = [], Version = [], CacheStore = []\<rparr>"

definition emptyVdb :: VirtualDatabase where
  "emptyVdb = \<lparr>vdb_Meta = objectMeta [] [], Spec = emptySpec, Status = emptyStatus\<rparr>"

section \<open>Accessors and assignments\<close>

abbreviation vdb_Source :: "VirtualDatabase \<Rightarrow> Source" where
  "vdb_Source v \<equiv> build_Source (Build (Spec v))"

abbreviation vdb_Name :: "VirtualDatabase \<Rightarrow> string" where
  "vdb_Name v \<equiv> Name (vdb_Meta v)"

abbreviation vdb_Namespace :: "VirtualDatabase \<Rightarrow> string" where
  "vdb_Namespace v \<equiv> Namespace (vdb_Meta v)"

abbreviation vdb_Phase :: "VirtualDatabase \<Rightarrow> ReconcilerPhase" where
  "vdb_Phase v \<equiv> Phase (Status v)"

definition setStatus :: "(VirtualDatabaseStatus \<Rightarrow> VirtualDatabaseStatus) \<Rightarrow> VirtualDatabase \<Rightarrow> VirtualDatabase" where
  "setStatus f v = v\<lparr>Status := f (Status v)\<rparr>"

definition setPhase :: "ReconcilerPhase \<Rightarrow> VirtualDatabase \<Rightarrow> VirtualDatabase" where
  "setPhase p = setStatus (\<lambda>s. s\<lparr>Phase := p\<rparr>)"

definition setFailure :: "string \<Rightarrow> VirtualDatabase \<Rightarrow> VirtualDatabase" where
  "setFailure m = setStatus (\<lambda>s. s\<lparr>Failure := m\<rparr>)"

definition setDigest :: "string \<Rightarrow> VirtualDatabase \<Rightarrow> VirtualDatabase" where
  "setDigest d = setStatus (\<lambda>s. s\<lparr>Digest := d\<rparr>)"

definition setConfigDigest :: "string \<Rightarrow> VirtualDatabase \<Rightarrow> VirtualDatabase" where
  "setConfigDigest d = setStatus (\<lambda>s. s\<lparr>ConfigDigest := d\<rparr>)"

definition setVersion :: "string \<Rightarrow> VirtualDatabase \<Rightarrow> VirtualDatabase" where
  "setVersion d = setStatus (\<lambda>s. s\<lparr>Version := d\<rparr>)"

definition setRoute :: "string \<Rightarrow> VirtualDatabase \<Rightarrow> VirtualDatabase" where
  "setRoute d = setStatus (\<lambda>s. s\<lparr>status_Route := d\<rparr>)"

definition setCacheStore :: "string \<Rightarrow> VirtualDatabase \<Rightarrow> VirtualDatabase" where
  "setCacheStore d = setStatus (\<lambda>s. s\<lparr>CacheStore := d\<rparr>)"

definition setReplicas :: "int option \<Rightarrow> VirtualDatabase \<Rightarrow> VirtualDatabase" where
  "setReplicas n v = v\<lparr>Spec := (Spec v)\<lparr>Replicas := n\<rparr>\<rparr>"

named_theorems vdb_set \<open>assignments to a \<open>VirtualDatabase\<close>\<close>

lemmas [vdb_set] = setStatus_def setPhase_def setFailure_def setDigest_def setConfigDigest_def
  setVersion_def setRoute_def setCacheStore_def setReplicas_def

text \<open>A virtual database with other dependencies, and one with other DDL.\<close>

abbreviation withDeps :: "string list \<Rightarrow> VirtualDatabase \<Rightarrow> VirtualDatabase" where
  "withDeps ds v \<equiv> v\<lparr>Spec := (Spec v)\<lparr>Build := (Build (Spec v))\<lparr>build_Source := (vdb_Source v)\<lparr>Dependencies := ds\<rparr>\<rparr>\<rparr>\<rparr>"

abbreviation withDDL :: "string \<Rightarrow> VirtualDatabase \<Rightarrow> VirtualDatabase" where
  "withDDL d v \<equiv> v\<lparr>Spec := (Spec v)\<lparr>Build := (Build (Spec v))\<lparr>build_Source := (vdb_Source v)\<lparr>DDL := d\<rparr>\<rparr>\<rparr>\<rparr>"

section \<open>The phase constants as strings\<close>

fun phase_string :: "ReconcilerPhase \<Rightarrow> string" where
  "phase_string ReconcilerPhaseInitial = []"
| "phase_string ReconcilerPhaseCreateCacheStore = ''Creating Cache Store''"
| "phase_string ReconcilerPhaseS2IReady = ''Ready For S2I''"
| "phase_string ReconcilerPhaseBuilderImage = ''Building Base Builder Image''"
| "phase_string ReconcilerPhaseBuilderImageFinished = ''Builder Image Finished''"
| "phase_string ReconcilerPhaseBuilderImageFailed = ''Builder Image Failed''"
| "phase_string ReconcilerPhaseServiceImage = ''Building Service Image''"
| "phase_string ReconcilerPhaseServiceImageFinished = ''Service Image Finished''"
| "phase_string ReconcilerPhaseServiceImageFailed = ''Service Image Failed''"
| "phase_string ReconcilerPhaseServiceCreated = ''Service Created''"
| "phase_string ReconcilerPhaseKeystoreCreated = ''Keystore Created''"
| "phase_string ReconcilerPhaseDeploying = ''Deploying''"
| "phase_string ReconcilerPhaseRunning = ''Running''"
| "phase_string ReconcilerPhaseError = ''Error''"
| "phase_string ReconcilerPhaseDeleting = ''Deleting''"
| "phase_string (PhaseOther s) = s"

definition phase_constants :: "ReconcilerPhase list" where
  "phase_constants =
     [ReconcilerPhaseInitial, ReconcilerPhaseCreateCacheStore, ReconcilerPhaseS2IReady,
      ReconcilerPhaseBuilderImage, ReconcilerPhaseBuilderImageFinished,
      ReconcilerPhaseBuilderImageFailed, ReconcilerPhaseServiceImage,
      ReconcilerPhaseServiceImageFinished, ReconcilerPhaseServiceImageFailed,
      ReconcilerPhaseServiceCreated, ReconcilerPhaseKeystoreCreated, ReconcilerPhaseDeploying,
      ReconcilerPhaseRunning, ReconcilerPhaseError, ReconcilerPhaseDeleting]"

text \<open>The phase a stored string stands for.\<close>

definition phase_of_string :: "string \<Rightarrow> ReconcilerPhase" where
  "phase_of_string s = (case find (\<lambda>p. phase_string p = s) phase_constants of Some p \<Rightarrow> p | None \<Rightarrow> PhaseOther s)"

lemma phase_string_of_string: "phase_string (phase_of_string s) = s"
  by (auto simp: phase_of_string_def split: option.split dest: find_SomeD)

lemma phase_strings_distinct: "distinct (map phase_string phase_constants)"
  by code_simp

lemma phase_string_inj: "inj_on phase_string (set phase_constants)"
  using phase_strings_distinct by (simp add: distinct_map)

lemma phase_of_string_constant:
  assumes "p \<in> set phase_constants"
  shows "phase_of_string (phase_string p) = p"
proof -
  from assms have "find (\<lambda>q. phase_string q = phase_string p) phase_constants \<noteq> None"
    by (auto simp: find_None_iff)
  then obtain q where q: "find (\<lambda>q. phase_string q = phase_string p) phase_constants = Some q"
    by blast
  then have "q \<in> set phase_constants" and "phase_string q = phase_string p"
    by (auto dest: find_SomeD)
  with assms have "q = p" by (simp add: inj_on_eq_iff [OF phase_string_inj])
  with q show ?thesis by (simp add: phase_of_string_def)
qed

end
