(* ===== verification/Objects.thy ===== *)
theory Objects
  imports Types
begin

text \<open>
  The Kubernetes, OpenShift, Prometheus and Infinispan objects the actions create and read, with
  the fields the operator's code sets or looks at. A field that Go keeps as a pointer is an
  option; \<open>int32\<close> and \<open>int64\<close> fields hold literals or values copied from one object to another.
\<close>

section \<open>Core objects\<close>

record ObjectReference =
  ref_Kind :: string
  ref_Name :: string
  ref_Namespace :: string

record Secret =
  sec_Meta :: ObjectMeta
  sec_Type :: string
  sec_Data :: "string gomap"
  StringData :: "string gomap"

record ConfigMap =
  cm_Meta :: ObjectMeta
  cm_Data :: "string gomap"

record ServicePort =
  sp_Name :: string
  sp_Protocol :: string
  Port :: int
  sp_TargetPort :: int

record Service =
  svc_Meta :: ObjectMeta
  svc_Selector :: "string gomap"
  svc_Type :: string
  svc_Ports :: "ServicePort list"
  SessionAffinity :: string
  AffinityTimeout :: "int option"

record Route =
  route_Meta :: ObjectMeta
  route_TargetPort :: int
  route_To :: ObjectReference
  Termination :: string
  Host :: string

section \<open>Deployments\<close>

record ContainerPort =
  cp_Name :: string
  ContainerPort :: int
  cp_Protocol :: string

record Probe =
  TimeoutSeconds :: int
  PeriodSeconds :: int
  SuccessThreshold :: int
  FailureThreshold :: int
  InitialDelaySeconds :: int
  HTTPGetPath :: string
  HTTPGetPort :: int

record VolumeMount =
  vm_Name :: string
  ReadOnly :: bool
  MountPath :: string

record Volume =
  vol_Name :: string
  SecretName :: string

record Container =
  c_Name :: string
  Env :: "EnvVar list"
  c_Resources :: ResourceRequirements
  Image :: string
  ImagePullPolicy :: string
  c_Ports :: "ContainerPort list"
  LivenessProbe :: "Probe option"
  ReadinessProbe :: "Probe option"
  WorkingDir :: string
  VolumeMounts :: "VolumeMount list"

record PodTemplateSpec =
  pod_Meta :: ObjectMeta
  Containers :: "Container list"
  Volumes :: "Volume list"

record DeploymentCondition =
  cond_Type :: string
  cond_Status :: string

record Deployment =
  dc_Meta :: ObjectMeta
  dc_Replicas :: "int option"
  dc_Selector :: "string gomap"
  Strategy :: string
  Template :: PodTemplateSpec
  Conditions :: "DeploymentCondition list"
  ObservedGeneration :: int

section \<open>Builds and images\<close>

record SourceBuildStrategy =
  From :: ObjectReference
  Incremental :: "bool option"
  ForcePull :: bool
  strategy_Env :: "EnvVar list"

record BuildConfig =
  bc_Meta :: ObjectMeta
  OutputTo :: "ObjectReference option"
  SourceType :: string
  Binary :: bool
  StrategyType :: string
  SourceStrategy :: "SourceBuildStrategy option"
  LastVersion :: int

datatype BuildPhase =
    BuildPhaseNew
  | BuildPhasePending
  | BuildPhaseRunning
  | BuildPhaseComplete
  | BuildPhaseFailed
  | BuildPhaseError
  | BuildPhaseCancelled
  | BuildPhaseOther string

record Build =
  build_Meta :: ObjectMeta
  build_Phase :: BuildPhase

record TagReference =
  tag_Name :: string
  tag_From :: "ObjectReference option"

record ImageStream =
  is_Meta :: ObjectMeta
  Tags :: "TagReference list"
  LookupLocal :: bool

section \<open>Monitoring, caching and the console\<close>

record ServiceMonitor =
  sm_Meta :: ObjectMeta
  sm_Selector :: "string gomap"
  Endpoints :: "string list"

record Prometheus =
  prom_Meta :: ObjectMeta
  ServiceMonitorSelector :: "string gomap option"

record Infinispan =
  ispn_Meta :: ObjectMeta
  ispn_Replicas :: int
  EndpointSecretName :: string
  ServiceType :: string

record ConsoleLink =
  link_Meta :: ObjectMeta
  Text :: string
  Href :: string
  Location :: string
  Namespaces :: "string list"

section \<open>Zero values\<close>

text \<open>\<open>appsv1.Deployment{}\<close>, \<open>oroutev1.Route{}\<close> and \<open>obuildv1.Build{}\<close>.\<close>

definition emptyPodTemplate :: PodTemplateSpec where
  "emptyPodTemplate = \<lparr>pod_Meta = objectMeta [] [], Containers = [], Volumes = []\<rparr>"

definition emptyDeployment :: Deployment where
  "emptyDeployment =
     \<lparr>dc_Meta = objectMeta [] [], dc_Replicas = None, dc_Selector = [], Strategy = [],
      Template = emptyPodTemplate, Conditions = [], ObservedGeneration = 0\<rparr>"

definition emptyRoute :: Objects.Route where
  "emptyRoute =
     \<lparr>route_Meta = objectMeta [] [], route_TargetPort = 0,
      route_To = \<lparr>ref_Kind = [], ref_Name = [], ref_Namespace = []\<rparr>, Termination = [], Host = []\<rparr>"

definition emptyBuild :: Build where
  "emptyBuild = \<lparr>build_Meta = objectMeta [] [], build_Phase = BuildPhaseOther []\<rparr>"

text \<open>A lookup in a Go map yields the zero value of a missing key.\<close>

definition mapGet :: "string gomap \<Rightarrow> string \<Rightarrow> string" where
  "mapGet m k = (case map_of m k of None \<Rightarrow> [] | Some v \<Rightarrow> v)"

definition annotation :: "ObjectMeta \<Rightarrow> string \<Rightarrow> string" where
  "annotation m k = (case Annotations m of None \<Rightarrow> [] | Some a \<Rightarrow> mapGet a k)"

end
