(* ===== verification/Conf.thy ===== *)
theory Conf
  imports Types "HOL-Library.AList"
begin

text \<open>
  \<open>pkg/util/conf\<close> and \<open>pkg/controller/virtualdatabase/constants\<close>: the operator's configuration
  file, its overrides from the process environment, and the constants and defaults the actions
  take from it. Reading a file, decoding YAML and the path \<open>runtime.Caller\<close> reports are
  parameters.
\<close>

section \<open>Configuration\<close>

record BuildImage =
  Registry :: string
  ImagePrefix :: string
  ImageName :: string
  Tag :: string

record Configuration =
  TeiidSpringBootVersion :: string
  TeiidVersion :: string
  SpringBootVersion :: string
  conf_MavenRepositories :: "string gomap"
  Productized :: bool
  EarlyAccess :: bool
  conf_BuildImage :: BuildImage
  MatchLabels :: "string gomap option"
  conf_Labels :: "string gomap"

record ConnectionFactory =
  cf_Name :: string
  DriverNames :: "string list"
  TranslatorName :: string
  Dialect :: string
  SpringBootPropertyPrefix :: string
  JdbcSource :: bool

definition emptyBuildImage :: BuildImage where
  "emptyBuildImage = \<lparr>Registry = [], ImagePrefix = [], ImageName = [], Tag = []\<rparr>"

definition emptyConfiguration :: Configuration where
  "emptyConfiguration =
     \<lparr>TeiidSpringBootVersion = [], TeiidVersion = [], SpringBootVersion = [], conf_MavenRepositories = [],
      Productized = False, EarlyAccess = False, conf_BuildImage = emptyBuildImage, MatchLabels = None,
      conf_Labels = []\<rparr>"

text \<open>
  \<open>parseImage\<close> indexes the third path element and slices it at its first colon: a string with
  fewer elements, or without a colon there, panics.
\<close>

definition parseImage :: "string \<Rightarrow> BuildImage res" where
  "parseImage str =
     (let parts = Split str CHR ''/'' in
      if length parts < 3 then Panic ''index out of range''
      else (case Index (parts ! 2) CHR '':'' of
              None \<Rightarrow> Panic ''slice bounds out of range''
            | Some idx \<Rightarrow>
                Ok \<lparr>Registry = parts ! 0, ImagePrefix = parts ! 1, ImageName = take idx (parts ! 2),
                     Tag = drop (Suc idx) (parts ! 2)\<rparr>))"

definition envOr :: "(string \<Rightarrow> string option) \<Rightarrow> string \<Rightarrow> string" where
  "envOr osenv k = (case osenv k of None \<Rightarrow> [] | Some v \<Rightarrow> v)"

text \<open>The overrides at the end of \<open>GetConfiguration\<close>: writing to a nil label map panics.\<close>

definition overrideConfiguration :: "(string \<Rightarrow> string option) \<Rightarrow> Configuration \<Rightarrow> Configuration res" where
  "overrideConfiguration osenv c =
     bind_res
       (if envOr osenv ''PROMETHEUS_MONITOR_LABEL_KEY'' \<noteq> [] \<and> envOr osenv ''PROMETHEUS_MONITOR_LABEL_VALUE'' \<noteq> []
        then (case MatchLabels c of
                None \<Rightarrow> Panic ''assignment to entry in nil map''
              | Some m \<Rightarrow> Ok (c\<lparr>MatchLabels := Some (AList.update (envOr osenv ''PROMETHEUS_MONITOR_LABEL_KEY'')
                                                      (envOr osenv ''PROMETHEUS_MONITOR_LABEL_VALUE'') m)\<rparr>))
        else Ok c)
       (\<lambda>c. if envOr osenv ''BUILD_IMAGE'' \<noteq> []
            then bind_res (parseImage (envOr osenv ''BUILD_IMAGE'')) (\<lambda>bi. Ok (c\<lparr>conf_BuildImage := bi\<rparr>))
            else Ok c)"

definition GetConfiguration ::
  "(string \<Rightarrow> string option) \<Rightarrow> (string \<Rightarrow> error + string) \<Rightarrow> string \<Rightarrow> (string \<Rightarrow> Configuration) \<Rightarrow> Configuration res" where
  "GetConfiguration osenv readFile filename unmarshal =
     (case readFile ''/conf/config.yaml'' of
        Inr yaml \<Rightarrow> overrideConfiguration osenv (unmarshal yaml)
      | Inl _ \<Rightarrow>
          (case IndexSub filename ''/pkg/'' of
             Some idx \<Rightarrow>
               if \<not> prefix ''teiid-operator'' filename
               then (case readFile (take idx filename @ ''/build/conf/config.yaml'') of
                       Inl _ \<Rightarrow> Ok emptyConfiguration
                     | Inr yaml \<Rightarrow> overrideConfiguration osenv (unmarshal yaml))
               else Ok emptyConfiguration
           | None \<Rightarrow> Ok emptyConfiguration))"

definition GetConnectionFactories ::
  "(string \<Rightarrow> error + string) \<Rightarrow> string \<Rightarrow> (string \<Rightarrow> ConnectionFactory gomap) \<Rightarrow> ConnectionFactory gomap" where
  "GetConnectionFactories readFile filename unmarshal =
     (case readFile ''/conf/connection_factories.json'' of
        Inr json \<Rightarrow> unmarshal json
      | Inl _ \<Rightarrow>
          (case IndexSub filename ''/pkg/'' of
             Some idx \<Rightarrow>
               if \<not> prefix ''teiid-operator'' filename
               then (case readFile (take idx filename @ ''/build/conf/connection_factories.json'') of
                       Inl _ \<Rightarrow> []
                     | Inr json \<Rightarrow> unmarshal json)
               else []
           | None \<Rightarrow> []))"

section \<open>Constants\<close>

definition operatorVersion :: string where
  "operatorVersion = ''0.3.0''"

definition BuilderImageTargetName :: string where
  "BuilderImageTargetName = ''virtualdatabase-builder''"

definition KeystoreLocation :: string where
  "KeystoreLocation = ''/etc/tls/private''"

definition KeystorePassword :: string where
  "KeystorePassword = ''changeit''"

definition KeystoreName :: string where
  "KeystoreName = ''keystore.pkcs12''"

definition TruststoreName :: string where
  "TruststoreName = ''truststore.pkcs12''"

text \<open>The repositories of the resource, or the configured ones when it names none.\<close>

definition GetMavenRepositories :: "Configuration \<Rightarrow> VirtualDatabase \<Rightarrow> string gomap" where
  "GetMavenRepositories Config vdb =
     (if length (MavenRepositories (vdb_Source vdb)) \<noteq> 0 then MavenRepositories (vdb_Source vdb)
      else if length (conf_MavenRepositories Config) \<noteq> 0 then conf_MavenRepositories Config
      else [])"

text \<open>
  \<open>GetComputingResources\<close> compares the address of a struct field with nil. An address of a field
  is never nil, so the branch with the defaults is dead; \<open>addressIsNil\<close> stands for the test.
\<close>

definition addressIsNil :: "'a \<Rightarrow> bool" where
  "addressIsNil x = False"

definition defaultResources :: ResourceRequirements where
  "defaultResources =
     \<lparr>Limits = [(''memory'', ''512Mi''), (''cpu'', ''1.0'')],
      Requests = [(''memory'', ''256Mi''), (''cpu'', ''0.2'')]\<rparr>"

definition GetComputingResources :: "VirtualDatabase \<Rightarrow> ResourceRequirements" where
  "GetComputingResources vdb =
     (if addressIsNil (Resources (Spec vdb)) then defaultResources else Resources (Spec vdb))"

section \<open>Lemmas\<close>

text \<open>The default requirements are never used.\<close>

lemma GetComputingResources_eq [simp]: "GetComputingResources vdb = Resources (Spec vdb)"
  by (simp add: GetComputingResources_def addressIsNil_def)

lemma Split_three:
  "\<lbrakk>sep \<notin> set a; sep \<notin> set b; sep \<notin> set c\<rbrakk> \<Longrightarrow> Split (a @ sep # b @ sep # c) sep = [a, b, c]"
  by (simp add: Split_append_sep Split_no_occ)

section \<open>Properties\<close>

text \<open>
  An image reference \<open>registry/prefix/name:tag\<close> in \<open>BUILD_IMAGE\<close> is taken apart into exactly
  these four parts, the tag being everything behind the first colon of the name.
\<close>

theorem parseImage_parts:
  assumes "CHR ''/'' \<notin> set reg" "CHR ''/'' \<notin> set pre" "CHR ''/'' \<notin> set nam" "CHR ''/'' \<notin> set tag"
    and "CHR '':'' \<notin> set nam"
  shows "parseImage (reg @ ''/'' @ pre @ ''/'' @ nam @ '':'' @ tag) =
    Ok \<lparr>Registry = reg, ImagePrefix = pre, ImageName = nam, Tag = tag\<rparr>"
proof -
  have "Split (reg @ CHR ''/'' # pre @ CHR ''/'' # (nam @ CHR '':'' # tag)) CHR ''/'' =
      [reg, pre, nam @ CHR '':'' # tag]"
    using assms by (intro Split_three) auto
  then show ?thesis
    using assms(5) by (simp add: parseImage_def Index_append)
qed

theorem parseImage_parts_witness:
  "parseImage (''registry.access.redhat.com'' @ ''/'' @ ''ubi8'' @ ''/'' @ ''openjdk-11'' @ '':'' @ ''1.3'') =
     Ok \<lparr>Registry = ''registry.access.redhat.com'', ImagePrefix = ''ubi8'', ImageName = ''openjdk-11'', Tag = ''1.3''\<rparr>"
  by (rule parseImage_parts) simp_all

text \<open>
  A build image without a registry and a prefix, or without a tag in its third element,
  makes the configuration loader panic instead of reporting an error.
\<close>

theorem parseImage_panics_iff:
  "(\<exists>p. parseImage str = Panic p) \<longleftrightarrow>
     Count str CHR ''/'' < 2 \<or> CHR '':'' \<notin> set (Split str CHR ''/'' ! 2)"
  by (auto simp: parseImage_def Let_def length_Split Index_None_iff [symmetric] split: option.split)

end
