(* ===== verification/Regexp.thy ===== *)
theory Regexp
  imports Go_Strings
begin

text \<open>
  Go's \<open>regexp\<close> package, as far as the operator uses it: leftmost-first matching with
  numbered capture groups, \<open>Match\<close>, \<open>FindStringSubmatch\<close> and \<open>FindAllString\<close>.

  A matcher state holds the position, the rest of the input and the captures so far.
  \<open>matches r x\<close> lists the states in which a match of \<open>r\<close> from \<open>x\<close> can end, the preferred
  one first (Perl's priorities, which Go's leftmost-first semantics fixes): an alternative
  prefers its left branch, a star prefers one more round. \<open>iter\<close> unrolls a star at most once
  per remaining byte, which is enough because each round has to consume input
  (\<open>iter_fuel\<close>).
\<close>

section \<open>Syntax and matcher\<close>

datatype rx =
    Eps
  | CS "char \<Rightarrow> bool"
  | Seq rx rx
  | Alt rx rx
  | Star rx
  | Grp nat rx
  | Bol
  | Eol

type_synonym caps = "nat \<Rightarrow> string option"

datatype mstate = St (mpos: nat) (rest: string) (caps_of: caps)

fun step_char :: "(char \<Rightarrow> bool) \<Rightarrow> mstate \<Rightarrow> mstate list" where
  "step_char p (St i [] c) = []"
| "step_char p (St i (a # s) c) = (if p a then [St (Suc i) s c] else [])"

fun iter :: "nat \<Rightarrow> (mstate \<Rightarrow> mstate list) \<Rightarrow> mstate \<Rightarrow> mstate list" where
  "iter 0 f x = [x]"
| "iter (Suc n) f x =
     concat (map (iter n f) (filter (\<lambda>y. length (rest y) < length (rest x)) (f x))) @ [x]"

definition capture :: "nat \<Rightarrow> mstate \<Rightarrow> mstate \<Rightarrow> mstate" where
  "capture n x y =
     St (mpos y) (rest y) ((caps_of y)(n := Some (take (length (rest x) - length (rest y)) (rest x))))"

primrec matches :: "rx \<Rightarrow> mstate \<Rightarrow> mstate list" where
  "matches Eps x = [x]"
| "matches (CS p) x = step_char p x"
| "matches (Seq r q) x = concat (map (matches q) (matches r x))"
| "matches (Alt r q) x = matches r x @ matches q x"
| "matches (Star r) x = iter (length (rest x)) (matches r) x"
| "matches (Grp n r) x = map (capture n x) (matches r x)"
| "matches Bol x = (if mpos x = 0 then [x] else [])"
| "matches Eol x = (if rest x = [] then [x] else [])"

section \<open>Derived syntax\<close>

definition Plus :: "rx \<Rightarrow> rx" where
  "Plus r = Seq r (Star r)"

text \<open>\<open>r?\<close> prefers to match, \<open>r??\<close> prefers not to.\<close>

definition Opt :: "rx \<Rightarrow> rx" where
  "Opt r = Alt r Eps"

definition LazyOpt :: "rx \<Rightarrow> rx" where
  "LazyOpt r = Alt Eps r"

fun seqs :: "rx list \<Rightarrow> rx" where
  "seqs [] = Eps"
| "seqs [r] = r"
| "seqs (r # q # rs) = Seq r (seqs (q # rs))"

definition ch :: "char \<Rightarrow> rx" where
  "ch c = CS (\<lambda>x. x = c)"

definition lit :: "string \<Rightarrow> rx" where
  "lit s = seqs (map ch s)"

text \<open>A literal under the flag \<open>(?i)\<close>.\<close>

definition lit_i :: "string \<Rightarrow> rx" where
  "lit_i s = seqs (map (\<lambda>c. CS (\<lambda>x. toUpperC x = toUpperC c)) s)"

definition isWord :: "char \<Rightarrow> bool" where
  "isWord c \<longleftrightarrow> IsUpper c \<or> IsLower c \<or> IsDigit c \<or> c = CHR ''_''"

definition isSpace :: "char \<Rightarrow> bool" where
  "isSpace c \<longleftrightarrow> c \<in> set [CHR '' '', CHR 0x09, CHR 0x0A, CHR 0x0C, CHR 0x0D]"

text \<open>The dot: any byte but a newline.\<close>

definition dot :: rx where
  "dot = CS (\<lambda>c. c \<noteq> CHR 0x0A)"

definition none_of :: "string \<Rightarrow> rx" where
  "none_of s = CS (\<lambda>c. c \<notin> set s)"

section \<open>The entry points\<close>

text \<open>The leftmost match: its text, the input after it and its captures.\<close>

fun search :: "rx \<Rightarrow> nat \<Rightarrow> string \<Rightarrow> (string \<times> mstate) option" where
  "search r i [] =
     (case matches r (St i [] Map.empty) of y # _ \<Rightarrow> Some ([], y) | [] \<Rightarrow> None)"
| "search r i (a # s) =
     (case matches r (St i (a # s) Map.empty) of
        y # _ \<Rightarrow> Some (take (length (a # s) - length (rest y)) (a # s), y)
      | [] \<Rightarrow> search r (Suc i) s)"

definition Match :: "rx \<Rightarrow> string \<Rightarrow> bool" where
  "Match r s \<longleftrightarrow> search r 0 s \<noteq> None"

text \<open>
  \<open>FindStringSubmatch\<close>: \<open>None\<close> is Go's \<open>nil\<close>; otherwise the texts of the groups, the empty
  string for a group that took no part. Group 0 is the whole match.
\<close>

definition FindStringSubmatch :: "rx \<Rightarrow> string \<Rightarrow> (nat \<Rightarrow> string) option" where
  "FindStringSubmatch r s =
     (case search r 0 s of
        None \<Rightarrow> None
      | Some (t, y) \<Rightarrow> Some (\<lambda>n. if n = 0 then t else (case caps_of y n of None \<Rightarrow> [] | Some u \<Rightarrow> u)))"

text \<open>
  \<open>FindAllString(s, -1)\<close> for a pattern that never matches the empty string: the matches from
  left to right, each search starting behind the match before it.
\<close>

fun findAllFrom :: "nat \<Rightarrow> rx \<Rightarrow> nat \<Rightarrow> string \<Rightarrow> string list" where
  "findAllFrom 0 r i s = []"
| "findAllFrom (Suc k) r i s =
     (case search r i s of
        None \<Rightarrow> []
      | Some (t, y) \<Rightarrow> t # findAllFrom k r (mpos y) (rest y))"

definition FindAllString :: "rx \<Rightarrow> string \<Rightarrow> string list" where
  "FindAllString r s = findAllFrom (Suc (length s)) r 0 s"

section \<open>A match consumes a prefix of its input\<close>

definition consumes :: "mstate \<Rightarrow> mstate \<Rightarrow> bool" where
  "consumes x y \<longleftrightarrow> (\<exists>t. rest x = t @ rest y \<and> mpos y = mpos x + length t)"

lemma consumes_refl [simp]: "consumes x x"
  by (simp add: consumes_def)

lemma consumes_trans: "consumes x y \<Longrightarrow> consumes y z \<Longrightarrow> consumes x z"
  by (force simp: consumes_def)

lemma consumes_length: "consumes x y \<Longrightarrow> length (rest y) \<le> length (rest x)"
  by (auto simp: consumes_def)

lemma consumes_set: "consumes x y \<Longrightarrow> set (rest y) \<subseteq> set (rest x)"
  by (auto simp: consumes_def)

lemma step_char_iff:
  "y \<in> set (step_char p x) \<longleftrightarrow> (\<exists>a s. rest x = a # s \<and> p a \<and> y = St (Suc (mpos x)) s (caps_of x))"
  by (induction p x rule: step_char.induct) auto

lemma iter_consumes:
  assumes "\<And>x y. y \<in> set (f x) \<Longrightarrow> consumes x y"
  shows "y \<in> set (iter n f x) \<Longrightarrow> consumes x y"
proof (induction n arbitrary: x)
  case 0
  then show ?case by simp
next
  case (Suc n)
  then show ?case by (auto dest: assms intro: consumes_trans)
qed

lemma matches_consumes: "y \<in> set (matches r x) \<Longrightarrow> consumes x y"
proof (induction r arbitrary: x y)
  case (CS p)
  then show ?case by (auto simp: step_char_iff consumes_def)
next
  case (Seq r q)
  then obtain z where "z \<in> set (matches r x)" "y \<in> set (matches q z)" by auto
  with Seq.IH show ?case by (blast intro: consumes_trans)
next
  case (Star r)
  then show ?case by (auto intro: iter_consumes)
next
  case (Grp n r)
  then show ?case by (auto simp: capture_def consumes_def)
qed (auto split: if_splits)

lemma iter_fuel:
  assumes "length (rest x) \<le> n" and "length (rest x) \<le> k"
  shows "iter n f x = iter k f x"
  using assms
proof (induction n arbitrary: k x)
  case 0
  then show ?case by (cases k) auto
next
  case (Suc n)
  show ?case
  proof (cases k)
    case 0
    with Suc.prems show ?thesis by auto
  next
    case (Suc k')
    have "iter n f y = iter k' f y" if "y \<in> set (filter (\<lambda>y. length (rest y) < length (rest x)) (f x))" for y
      using that Suc.prems \<open>k = Suc k'\<close> by (intro Suc.IH) auto
    then have "map (iter n f) (filter (\<lambda>y. length (rest y) < length (rest x)) (f x)) =
        map (iter k' f) (filter (\<lambda>y. length (rest y) < length (rest x)) (f x))"
      by (intro map_cong) auto
    with Suc show ?thesis by (simp only: iter.simps)
  qed
qed

text \<open>The unrolling equation of a star.\<close>

lemma matches_Star:
  "matches (Star r) x =
     concat (map (matches (Star r)) (filter (\<lambda>y. length (rest y) < length (rest x)) (matches r x))) @ [x]"
proof (cases "length (rest x)")
  case 0
  then show ?thesis by simp
next
  case (Suc n)
  have "iter n (matches r) y = matches (Star r) y"
    if "y \<in> set (filter (\<lambda>y. length (rest y) < length (rest x)) (matches r x))" for y
    using that Suc by (auto intro: iter_fuel)
  then have "map (iter n (matches r)) (filter (\<lambda>y. length (rest y) < length (rest x)) (matches r x)) =
      map (matches (Star r)) (filter (\<lambda>y. length (rest y) < length (rest x)) (matches r x))"
    by (intro map_cong) auto
  with Suc show ?thesis by (simp only: matches.simps(5) iter.simps)
qed

section \<open>The declarative meaning\<close>

text \<open>\<open>Matches r x y\<close>: the expression can take the input from state \<open>x\<close> to state \<open>y\<close>.\<close>

inductive Matches :: "rx \<Rightarrow> mstate \<Rightarrow> mstate \<Rightarrow> bool" where
  M_Eps: "Matches Eps x x"
| M_CS: "p a \<Longrightarrow> Matches (CS p) (St i (a # s) c) (St (Suc i) s c)"
| M_Seq: "Matches r x y \<Longrightarrow> Matches q y z \<Longrightarrow> Matches (Seq r q) x z"
| M_AltL: "Matches r x y \<Longrightarrow> Matches (Alt r q) x y"
| M_AltR: "Matches q x y \<Longrightarrow> Matches (Alt r q) x y"
| M_Star0: "Matches (Star r) x x"
| M_StarS: "Matches r x y \<Longrightarrow> length (rest y) < length (rest x) \<Longrightarrow> Matches (Star r) y z \<Longrightarrow>
     Matches (Star r) x z"
| M_Grp: "Matches r x y \<Longrightarrow> Matches (Grp n r) x (capture n x y)"
| M_Bol: "mpos x = 0 \<Longrightarrow> Matches Bol x x"
| M_Eol: "rest x = [] \<Longrightarrow> Matches Eol x x"

inductive_cases Matches_EpsE: "Matches Eps x y"
inductive_cases Matches_CSE: "Matches (CS p) x y"
inductive_cases Matches_SeqE: "Matches (Seq r q) x y"
inductive_cases Matches_AltE: "Matches (Alt r q) x y"
inductive_cases Matches_StarE: "Matches (Star r) x y"
inductive_cases Matches_GrpE: "Matches (Grp n r) x y"

lemma Matches_imp_matches: "Matches r x y \<Longrightarrow> y \<in> set (matches r x)"
proof (induction rule: Matches.induct)
  case (M_StarS r x y z)
  then have "z \<in> set (concat (map (matches (Star r))
      (filter (\<lambda>y. length (rest y) < length (rest x)) (matches r x))))"
    by auto
  then show ?case by (subst matches_Star) simp
next
  case (M_Star0 r x)
  show ?case by (subst matches_Star) simp
qed auto

lemma iter_imp_Matches:
  assumes "\<And>x y. y \<in> set (matches r x) \<Longrightarrow> Matches r x y"
  shows "y \<in> set (iter n (matches r) x) \<Longrightarrow> Matches (Star r) x y"
proof (induction n arbitrary: x)
  case 0
  then show ?case by (simp add: M_Star0)
next
  case (Suc n)
  then show ?case by (auto intro: M_Star0 M_StarS assms)
qed

lemma matches_imp_Matches: "y \<in> set (matches r x) \<Longrightarrow> Matches r x y"
proof (induction r arbitrary: x y)
  case (CS p)
  then show ?case by (cases x) (auto simp: step_char_iff intro: M_CS)
next
  case (Star r)
  then show ?case by (auto intro: iter_imp_Matches)
next
  case (Seq r q)
  then obtain z where "z \<in> set (matches r x)" "y \<in> set (matches q z)" by auto
  with Seq.IH show ?case by (blast intro: M_Seq)
qed (auto intro: Matches.intros split: if_splits)

text \<open>The matcher computes exactly the declarative relation.\<close>

lemma matches_iff_Matches: "y \<in> set (matches r x) \<longleftrightarrow> Matches r x y"
  using Matches_imp_matches matches_imp_Matches by blast

section \<open>The preferred match\<close>

text \<open>\<open>leads r x y\<close>: the first choice of \<open>r\<close> at \<open>x\<close> ends in \<open>y\<close>.\<close>

definition leads :: "rx \<Rightarrow> mstate \<Rightarrow> mstate \<Rightarrow> bool" where
  "leads r x y \<longleftrightarrow> (\<exists>ys. matches r x = y # ys)"

lemma leads_det: "leads r x y \<Longrightarrow> leads r x z \<Longrightarrow> y = z"
  by (auto simp: leads_def)

lemma leads_Eps [simp]: "leads Eps x x"
  by (simp add: leads_def)

lemma leads_CS: "p a \<Longrightarrow> leads (CS p) (St i (a # s) c) (St (Suc i) s c)"
  by (simp add: leads_def)

lemma leads_Seq: "leads r x y \<Longrightarrow> leads q y z \<Longrightarrow> leads (Seq r q) x z"
  by (auto simp: leads_def)

lemma leads_AltL: "leads r x y \<Longrightarrow> leads (Alt r q) x y"
  by (auto simp: leads_def)

lemma leads_AltR: "matches r x = [] \<Longrightarrow> leads q x y \<Longrightarrow> leads (Alt r q) x y"
  by (auto simp: leads_def)

lemma leads_Grp: "leads r x y \<Longrightarrow> leads (Grp n r) x (capture n x y)"
  by (auto simp: leads_def)

lemma leads_Star_stop: "matches r x = [] \<Longrightarrow> leads (Star r) x x"
  using matches_Star [of r x] by (simp add: leads_def)

lemma leads_Star_step:
  assumes "leads r x y" and "length (rest y) < length (rest x)" and "leads (Star r) y z"
  shows "leads (Star r) x z"
proof -
  obtain ys zs where "matches r x = y # ys" and "matches (Star r) y = z # zs"
    using assms by (auto simp: leads_def)
  then have "matches (Star r) x = z # zs @ concat (map (matches (Star r))
      (filter (\<lambda>y. length (rest y) < length (rest x)) ys)) @ [x]"
    using assms(2) by (subst matches_Star) simp
  then show ?thesis by (auto simp: leads_def)
qed

lemma leads_Opt: "leads r x y \<Longrightarrow> leads (Opt r) x y"
  by (simp add: Opt_def leads_AltL)

lemma leads_Opt_skip: "matches r x = [] \<Longrightarrow> leads (Opt r) x x"
  by (simp add: Opt_def leads_AltR)

text \<open>A greedy class takes the longest run of its characters.\<close>

lemma leads_Star_CS:
  "leads (Star (CS p)) (St i s c) (St (i + length (takeWhile p s)) (dropWhile p s) c)"
proof (induction s arbitrary: i)
  case Nil
  have "matches (CS p) (St i [] c) = []" by simp
  then show ?case using leads_Star_stop [of "CS p" "(St i [] c)"] by simp
next
  case (Cons a s)
  show ?case
  proof (cases "p a")
    case True
    have "leads (Star (CS p)) (St (Suc i) s c) (St (Suc i + length (takeWhile p s)) (dropWhile p s) c)"
      by (rule Cons.IH)
    with True have "leads (Star (CS p)) (St i (a # s) c) (St (Suc i + length (takeWhile p s)) (dropWhile p s) c)"
      by (intro leads_Star_step [OF leads_CS]) auto
    with True show ?thesis by simp
  next
    case False
    then have "matches (CS p) (St i (a # s) c) = []" by simp
    then show ?thesis using False leads_Star_stop [of "CS p" "(St i (a # s) c)"] by simp
  qed
qed

text \<open>A run of class characters that the class cannot extend.\<close>

lemma leads_Star_run:
  assumes "list_all p t" and "u = [] \<or> \<not> p (hd u)"
  shows "leads (Star (CS p)) (St i (t @ u) c) (St (i + length t) u c)"
proof -
  have "takeWhile p (t @ u) = t" and "dropWhile p (t @ u) = u"
    using assms by (cases u; simp add: list_all_iff takeWhile_append2 dropWhile_append2)+
  then show ?thesis using leads_Star_CS [of p i "t @ u" c] by simp
qed

lemma leads_Plus_run:
  assumes "t \<noteq> []" and "list_all p t" and "u = [] \<or> \<not> p (hd u)"
  shows "leads (Plus (CS p)) (St i (t @ u) c) (St (i + length t) u c)"
proof -
  obtain a t' where t: "t = a # t'" using assms(1) by (cases t) auto
  have "leads (CS p) (St i (a # t' @ u) c) (St (Suc i) (t' @ u) c)"
    using assms(2) t by (intro leads_CS) simp
  moreover have "leads (Star (CS p)) (St (Suc i) (t' @ u) c) (St (Suc i + length t') u c)"
    using assms t by (intro leads_Star_run) auto
  ultimately show ?thesis unfolding Plus_def using t by (auto intro: leads_Seq)
qed

lemma leads_ch: "leads (ch a) (St i (a # s) c) (St (Suc i) s c)"
  by (simp add: ch_def leads_CS)

lemma matches_ch_other: "s = [] \<or> hd s \<noteq> a \<Longrightarrow> matches (ch a) (St i s c) = []"
  by (cases s) (auto simp: ch_def)

lemma capture_text: "capture n (St i (t @ u) c) (St j u c') = (St j u (c'(n := Some t)))"
  by (simp add: capture_def)

text \<open>A capture of a run.\<close>

lemma leads_Grp_text:
  assumes "leads r (St i (t @ u) c) (St j u c')"
  shows "leads (Grp n r) (St i (t @ u) c) (St j u (c'(n := Some t)))"
  using leads_Grp [OF assms, of n] by (simp add: capture_text)

lemma search_leads:
  assumes "leads r (St i s Map.empty) y"
  shows "search r i s = Some (take (length s - length (rest y)) s, y)"
  using assms by (cases s) (auto simp: leads_def)

lemma all_le_Suc: "(\<forall>k \<le> length (a # s). P k) \<longleftrightarrow> P 0 \<and> (\<forall>k \<le> length s. P (Suc k))"
  by (simp add: All_less_Suc2 less_Suc_eq_le [symmetric])

lemma search_None_iff:
  "search r i s = None \<longleftrightarrow> (\<forall>k \<le> length s. matches r (St (i + k) (drop k s) Map.empty) = [])"
proof (induction r i s rule: search.induct)
  case (1 r i)
  then show ?case by (auto split: list.split)
next
  case (2 r i a s)
  show ?case
  proof (cases "matches r (St i (a # s) Map.empty)")
    case Nil
    have "(\<forall>k \<le> length (a # s). matches r (St (i + k) (drop k (a # s)) Map.empty) = []) \<longleftrightarrow>
        (\<forall>k \<le> length s. matches r (St (Suc i + k) (drop k s) Map.empty) = [])"
      using Nil by (simp only: all_le_Suc) simp
    with 2 Nil show ?thesis by simp
  next
    case (Cons y ys)
    then show ?thesis by auto
  qed
qed

lemma search_SomeD:
  assumes "search r i s = Some (t, y)"
  shows "\<exists>u. s = u @ t @ rest y \<and> leads r (St (i + length u) (t @ rest y) Map.empty) y \<and>
    mpos y = i + length u + length t"
  using assms
proof (induction r i s rule: search.induct)
  case (1 r i)
  then obtain ys where m: "matches r (St i [] Map.empty) = y # ys" and t: "t = []"
    by (auto split: list.splits)
  then have "consumes (St i [] Map.empty) y" by (intro matches_consumes [of y r]) simp
  then have "rest y = []" and "mpos y = i" by (auto simp: consumes_def)
  with m t show ?case by (auto simp: leads_def)
next
  case (2 r i a s)
  show ?case
  proof (cases "matches r (St i (a # s) Map.empty)")
    case Nil
    then obtain u where "s = u @ t @ rest y" "leads r (St (Suc i + length u) (t @ rest y) Map.empty) y"
        "mpos y = Suc i + length u + length t"
      using 2 by auto
    then show ?thesis by (intro exI [of _ "a # u"]) simp
  next
    case (Cons z zs)
    with "2.prems" have z: "y = z" "t = take (length (a # s) - length (rest z)) (a # s)" by auto
    from Cons have "consumes (St i (a # s) Map.empty) z" by (intro matches_consumes [of z r]) simp
    then obtain v where v: "a # s = v @ rest z" "mpos z = i + length v" by (auto simp: consumes_def)
    with z have "t = v" by (metis append_eq_conv_conj diff_add_inverse2 length_append)
    with v z Cons show ?thesis by (intro exI [of _ "[]"]) (auto simp: leads_def)
  qed
qed

section \<open>Backtracking into a greedy class\<close>

lemma matches_Star_CS:
  "matches (Star (CS p)) (St i s c) =
     map (\<lambda>n. St (i + n) (drop n s) c) (rev [0..<Suc (length (takeWhile p s))])"
proof (induction s arbitrary: i)
  case Nil
  show ?case by (subst matches_Star) simp
next
  case (Cons a s)
  show ?case
  proof (cases "p a")
    case True
    have "matches (Star (CS p)) (St i (a # s) c) = matches (Star (CS p)) (St (Suc i) s c) @ [St i (a # s) c]"
      using True by (subst matches_Star) simp
    also have "\<dots> = map (\<lambda>n. St (i + n) (drop n (a # s)) c) (rev (map Suc [0..<Suc (length (takeWhile p s))]) @ [0])"
      by (simp only: Cons.IH) (simp add: rev_map comp_def del: upt_Suc)
    also have "rev (map Suc [0..<Suc (length (takeWhile p s))]) @ [0] = rev [0..<Suc (length (takeWhile p (a # s)))]"
      using True by (simp add: map_Suc_upt upt_conv_Cons del: upt_Suc)
    finally show ?thesis .
  next
    case False
    then show ?thesis by (subst matches_Star) simp
  qed
qed

text \<open>
  A greedy class followed by \<open>q\<close> gives back characters until \<open>q\<close> matches: its preferred
  match ends the class at the last place \<open>k\<close> where \<open>q\<close> succeeds.
\<close>

lemma concat_map_first:
  assumes "f x = z # zs" and "\<And>y. y \<in> set ys \<Longrightarrow> f y = []"
  shows "\<exists>zs'. concat (map f (ys @ x # xs)) = z # zs'"
proof -
  have "concat (map f ys) = []" using assms(2) by (induction ys) auto
  then have "concat (map f (ys @ x # xs)) = z # zs @ concat (map f xs)"
    using assms(1) by (simp only: map_append concat_append list.map concat.simps append.simps)
  then show ?thesis by blast
qed

lemma leads_Seq_candidates:
  assumes cand: "matches r x = map g (rev [0..<Suc N])"
    and k: "k \<le> N"
    and last: "\<And>n. k < n \<Longrightarrow> n \<le> N \<Longrightarrow> matches q (g n) = []"
    and q: "leads q (g k) y"
  shows "leads (Seq r q) x y"
proof -
  obtain zs where zs: "matches q (g k) = y # zs" using q by (auto simp: leads_def)
  have order: "rev [0..<Suc N] = rev [Suc k..<Suc N] @ k # rev [0..<k]"
    using k by (metis (no_types) le_SucI le_imp_less_Suc rev.simps(2) rev_append append.assoc
        append_Cons append_Nil upt_add_eq_append upt_conv_Cons zero_order(1) add_diff_inverse_nat
        not_less le_add_diff_inverse)
  have "\<exists>zs'. concat (map (\<lambda>n. matches q (g n)) (rev [Suc k..<Suc N] @ k # rev [0..<k])) = y # zs'"
    using zs last by (intro concat_map_first) auto
  then show ?thesis
    by (simp add: leads_def cand comp_def order del: upt_Suc)
qed

lemmas leads_Star_CS_Seq = leads_Seq_candidates [OF matches_Star_CS]

text \<open>The candidates of a captured \<open>[..].*\<close> when the whole rest of the line can be taken.\<close>

lemma matches_Grp_CS_Star:
  assumes "p a" and "list_all q s"
  shows "matches (Grp m (Seq (CS p) (Star (CS q)))) (St i (a # s) c) =
     map (\<lambda>n. St (Suc i + n) (drop n s) (c(m := Some (a # take n s)))) (rev [0..<Suc (length s)])"
proof -
  have all: "takeWhile q s = s" using assms(2) by (simp add: list_all_iff)
  show ?thesis using assms(1)
    by (auto simp: all matches_Star_CS capture_def comp_def simp del: upt_Suc matches.simps(5)
        intro!: map_cong)
qed

lemma matches_Grp_Star:
  assumes "list_all q s"
  shows "matches (Grp m (Star (CS q))) (St i s c) =
     map (\<lambda>n. St (i + n) (drop n s) (c(m := Some (take n s)))) (rev [0..<Suc (length s)])"
proof -
  have all: "takeWhile q s = s" using assms by (simp add: list_all_iff)
  show ?thesis
    by (auto simp: all matches_Star_CS capture_def comp_def simp del: upt_Suc matches.simps(5)
        intro!: map_cong)
qed

section \<open>Characters a match cannot do without\<close>

primrec forces :: "char \<Rightarrow> rx \<Rightarrow> bool" where
  "forces a Eps = False"
| "forces a (CS p) = (\<forall>x. p x \<longrightarrow> x = a)"
| "forces a (Seq r q) = (forces a r \<or> forces a q)"
| "forces a (Alt r q) = (forces a r \<and> forces a q)"
| "forces a (Star r) = False"
| "forces a (Grp n r) = forces a r"
| "forces a Bol = False"
| "forces a Eol = False"

lemma forces_matches: "forces a r \<Longrightarrow> a \<notin> set (rest x) \<Longrightarrow> matches r x = []"
proof (induction r arbitrary: x)
  case (CS p)
  then show ?case by (cases x; cases "rest x") auto
next
  case (Seq r q)
  show ?case
  proof (cases "forces a r")
    case True
    with Seq show ?thesis by simp
  next
    case False
    with Seq.prems have "forces a q" by simp
    then have "matches q y = []" if "y \<in> set (matches r x)" for y
      using that Seq.prems(2) Seq.IH(2) consumes_set [OF matches_consumes [OF that]] by blast
    then show ?thesis by simp
  qed
qed auto

lemma forces_search: "forces a r \<Longrightarrow> a \<notin> set s \<Longrightarrow> search r i s = None"
  by (auto simp: search_None_iff intro!: forces_matches dest: in_set_dropD)

lemma forces_ch [simp]: "forces a (ch b) \<longleftrightarrow> a = b"
  by (auto simp: ch_def)

lemma leads_lit: "leads (lit t) (St i (t @ s) c) (St (i + length t) s c)"
proof (induction t arbitrary: i)
  case Nil
  then show ?case by (simp add: lit_def)
next
  case (Cons a t)
  show ?case
  proof (cases t)
    case Nil
    then show ?thesis by (simp add: lit_def leads_ch)
  next
    case (Cons b u)
    have "leads (lit t) (St (Suc i) (t @ s) c) (St (Suc i + length t) s c)" by (rule Cons.IH)
    with Cons show ?thesis by (auto simp: lit_def intro: leads_Seq leads_ch)
  qed
qed

section \<open>Anchored names\<close>

text \<open>\<open>^[p]{1}[q]*$\<close>, the shape of the name checks of the operator.\<close>

definition namePattern :: "(char \<Rightarrow> bool) \<Rightarrow> (char \<Rightarrow> bool) \<Rightarrow> rx" where
  "namePattern p q = seqs [Bol, CS p, Star (CS q), Eol]"

lemma star_to_end:
  "concat (map (matches Eol) (matches (Star (CS q)) (St i s c))) = [] \<longleftrightarrow> \<not> list_all q s"
proof -
  have "concat (map (matches Eol) (matches (Star (CS q)) (St i s c))) = [] \<longleftrightarrow>
      (\<forall>n \<le> length (takeWhile q s). n < length s)"
    by (simp only: matches_Star_CS concat_eq_Nil_conv set_map set_rev set_upt ball_simps(9) matches.simps(8)
        mstate.sel drop_eq_Nil atLeastLessThan_iff list.map_comp)
      (force simp: not_le less_Suc_eq_le)
  also have "\<dots> \<longleftrightarrow> length (takeWhile q s) < length s" by (meson le_less_trans order_refl)
  also have "\<dots> \<longleftrightarrow> takeWhile q s \<noteq> s"
    by (metis length_takeWhile_le nat_less_le takeWhile_eq_take take_all)
  also have "\<dots> \<longleftrightarrow> \<not> list_all q s"
    by (metis (no_types) list_all_iff takeWhile_eq_all_conv)
  finally show ?thesis .
qed

lemma Match_namePattern:
  "Match (namePattern p q) s \<longleftrightarrow> (\<exists>c t. s = c # t \<and> p c \<and> list_all q t)"
proof -
  have "matches (namePattern p q) (St (0 + k) (drop k s) Map.empty) = [] \<longleftrightarrow>
      k \<noteq> 0 \<or> \<not> (\<exists>c t. s = c # t \<and> p c \<and> list_all q t)" for k
    using star_to_end [of q "Suc 0" "tl s" Map.empty]
    by (cases s) (auto simp: namePattern_def simp del: matches.simps(5))
  then show ?thesis by (auto simp: Match_def search_None_iff)
qed

section \<open>Captures\<close>

text \<open>The bodies of the groups with a number, and what a match can leave in that capture.\<close>

primrec rx_groups :: "nat \<Rightarrow> rx \<Rightarrow> rx list" where
  "rx_groups n Eps = []"
| "rx_groups n (CS p) = []"
| "rx_groups n (Seq r q) = rx_groups n r @ rx_groups n q"
| "rx_groups n (Alt r q) = rx_groups n r @ rx_groups n q"
| "rx_groups n (Star r) = rx_groups n r"
| "rx_groups n (Grp m r) = (if m = n then [r] else []) @ rx_groups n r"
| "rx_groups n Bol = []"
| "rx_groups n Eol = []"

definition text_of :: "rx \<Rightarrow> string \<Rightarrow> bool" where
  "text_of r t \<longleftrightarrow> (\<exists>x y. Matches r x y \<and> rest x = t @ rest y)"

lemma Matches_consumes: "Matches r x y \<Longrightarrow> consumes x y"
  using Matches_imp_matches matches_consumes by blast

lemma Matches_caps:
  "Matches r x y \<Longrightarrow>
     caps_of y n = caps_of x n \<or> (\<exists>q t. q \<in> set (rx_groups n r) \<and> text_of q t \<and> caps_of y n = Some t)"
proof (induction rule: Matches.induct)
  case (M_Grp r x y m)
  obtain t where t: "rest x = t @ rest y"
    using Matches_consumes [OF M_Grp.hyps] by (auto simp: consumes_def)
  show ?case
  proof (cases "m = n")
    case True
    have "text_of r t" using M_Grp.hyps t by (auto simp: text_of_def)
    with True t show ?thesis by (intro disjI2 exI [of _ r] exI [of _ t]) (simp add: capture_def)
  next
    case False
    with M_Grp.IH show ?thesis by (auto simp: capture_def)
  qed
qed auto

lemma FindStringSubmatch_text:
  assumes "FindStringSubmatch r s = Some m" and "n \<noteq> 0"
  shows "m n = [] \<or> (\<exists>q \<in> set (rx_groups n r). text_of q (m n))"
proof -
  obtain t y where "search r 0 s = Some (t, y)" and m: "m n = (case caps_of y n of None \<Rightarrow> [] | Some u \<Rightarrow> u)"
    using assms by (auto simp: FindStringSubmatch_def split: option.splits)
  from search_SomeD [OF this(1)] obtain x where "leads r x y" and "caps_of x n = None" by force
  then have "Matches r x y" by (auto simp: leads_def simp flip: matches_iff_Matches)
  from Matches_caps [OF this, of n] \<open>caps_of x n = None\<close> m show ?thesis by auto
qed

section \<open>All matches\<close>

text \<open>Texts found one behind the other in a string.\<close>

fun in_order :: "string list \<Rightarrow> string \<Rightarrow> bool" where
  "in_order [] s \<longleftrightarrow> True"
| "in_order (t # ts) s \<longleftrightarrow> (\<exists>u v. s = u @ t @ v \<and> in_order ts v)"

lemma findAllFrom_in_order: "in_order (findAllFrom k r i s) s"
proof (induction k r i s rule: findAllFrom.induct)
  case (2 k r i s)
  show ?case
  proof (cases "search r i s")
    case (Some p)
    then obtain t y where p: "search r i s = Some (t, y)" by (cases p) auto
    from search_SomeD [OF p] obtain u where "s = u @ t @ rest y" by blast
    moreover have "in_order (findAllFrom k r (mpos y) (rest y)) (rest y)" using 2 p by simp
    ultimately show ?thesis using p by auto
  qed simp
qed simp

lemma findAllFrom_text: "t \<in> set (findAllFrom k r i s) \<Longrightarrow> text_of r t"
proof (induction k r i s rule: findAllFrom.induct)
  case (2 k r i s)
  have "text_of r t'" if "search r i s = Some (t', y)" for t' y
  proof -
    from search_SomeD [OF that] obtain j where "leads r (St j (t' @ rest y) Map.empty) y" by blast
    then have "Matches r (St j (t' @ rest y) Map.empty) y"
      by (auto simp: leads_def simp flip: matches_iff_Matches)
    then show ?thesis unfolding text_of_def by (metis mstate.sel(2))
  qed
  with 2 show ?case by (cases "search r i s") auto
qed simp

lemma text_of_CS: "text_of (CS p) t \<longleftrightarrow> (\<exists>a. t = [a] \<and> p a)"
proof
  show "text_of (CS p) t \<Longrightarrow> \<exists>a. t = [a] \<and> p a"
    by (auto simp: text_of_def elim!: Matches_CSE)
  show "\<exists>a. t = [a] \<and> p a \<Longrightarrow> text_of (CS p) t"
    unfolding text_of_def by (metis M_CS append_Cons append_Nil mstate.sel(2))
qed

lemma text_of_SeqD: "text_of (Seq r q) t \<Longrightarrow> \<exists>u v. t = u @ v \<and> text_of r u \<and> text_of q v"
proof -
  assume "text_of (Seq r q) t"
  then obtain x y z where m: "Matches r x y" "Matches q y z" and t: "rest x = t @ rest z"
    by (auto simp: text_of_def elim: Matches_SeqE)
  obtain u v where "rest x = u @ rest y" "rest y = v @ rest z"
    using m [THEN Matches_consumes] by (auto simp: consumes_def)
  with m t show ?thesis unfolding text_of_def by (metis append_assoc append_same_eq)
qed

lemma text_of_AltD: "text_of (Alt r q) t \<Longrightarrow> text_of r t \<or> text_of q t"
  by (auto simp: text_of_def elim!: Matches_AltE)

end
