(* ===== verification/Maven.thy ===== *)
theory Maven
  imports Regexp Conf
begin

text \<open>
  \<open>pkg/util/maven\<close>: the data of a Maven project and of a settings file
  (\<open>maven_project_types.go\<close>), the operations that build them (\<open>maven_project.go\<close>,
  \<open>maven_settings.go\<close>), and the coordinate parser and artifact naming of \<open>maven.go\<close>.
  Operations with a pointer receiver return the new project.
\<close>

section \<open>Project types\<close>

record Exclusion =
  ex_GroupID :: string
  ex_ArtifactID :: string

record Parent =
  par_GroupID :: string
  par_ArtifactID :: string
  par_Version :: string

record Dependency =
  GroupID :: string
  ArtifactID :: string
  dep_Version :: string
  dep_Type :: string
  Classifier :: string
  Scope :: string
  Exclusions :: "Exclusion list option"

record RepositoryPolicy =
  Enabled :: bool
  UpdatePolicy :: string
  ChecksumPolicy :: string

record Repository =
  repo_ID :: string
  repo_Name :: string
  URL :: string
  Snapshots :: RepositoryPolicy
  Releases :: RepositoryPolicy

record ArtifactItem =
  ai_GroupID :: string
  ai_ArtifactID :: string
  ai_Version :: string
  ai_Type :: string
  DestinationFileName :: string

record PluginConfiguration =
  ArtifactItems :: "ArtifactItem list"
  OutputDirectory :: string
  VdbFile :: string
  MaterializationEnable :: bool
  VdbVersion :: string
  MaterializationType :: string

record Execution =
  exec_ID :: string
  exec_Phase :: string
  Goals :: "string list"
  exec_Configuration :: PluginConfiguration

record Plugin =
  plug_GroupID :: string
  plug_ArtifactID :: string
  plug_Version :: string
  Executions :: "Execution list"
  plug_Dependencies :: "Dependency list"

record ProjectBuild =
  DefaultGoal :: string
  Plugins :: "Plugin list"

record Project =
  XMLName :: string
  XMLNs :: string
  XMLNsXsi :: string
  XsiSchemaLocation :: string
  ModelVersion :: string
  p_GroupID :: string
  p_ArtifactID :: string
  p_Version :: string
  Packaging :: string
  p_Parent :: Parent
  p_Properties :: "string gomap"
  DependencyManagement :: "Dependency list"
  p_Dependencies :: "Dependency list"
  Repositories :: "Repository list"
  PluginRepositories :: "Repository list"
  p_Build :: ProjectBuild

record Activation =
  ActiveByDefault :: bool
  act_Property :: "(string \<times> string) option"

record Profile =
  prof_ID :: string
  prof_Activation :: Activation
  prof_Properties :: "string gomap"
  prof_Repositories :: "Repository list"
  prof_PluginRepositories :: "Repository list"

record Settings =
  set_XMLName :: string
  set_XMLNs :: string
  set_XMLNsXsi :: string
  set_XsiSchemaLocation :: string
  LocalRepository :: string
  Profiles :: "Profile list"

record SnapshotVersion =
  Extension :: string
  sv_Value :: string
  Updated :: string

record Snapshot =
  snap_Timestamp :: string
  snap_BuildNumber :: string

record Versioning =
  ver_Snapshot :: Snapshot
  LastUpdated :: string
  SnapshotVersions :: "SnapshotVersion list"

record Metadata =
  meta_GroupID :: string
  meta_ArtifactID :: string
  meta_Version :: string
  meta_Versioning :: Versioning

section \<open>Building a project\<close>

definition emptyPolicy :: RepositoryPolicy where
  "emptyPolicy = \<lparr>Enabled = False, UpdatePolicy = [], ChecksumPolicy = []\<rparr>"

definition emptyPluginConfiguration :: PluginConfiguration where
  "emptyPluginConfiguration =
     \<lparr>ArtifactItems = [], OutputDirectory = [], VdbFile = [], MaterializationEnable = False, VdbVersion = [],
      MaterializationType = []\<rparr>"

text \<open>\<open>maven.Dependency{GroupID: g, ArtifactID: a, Version: v}\<close>.\<close>

definition gavDependency :: "string \<Rightarrow> string \<Rightarrow> string \<Rightarrow> Dependency" where
  "gavDependency g a v =
     \<lparr>GroupID = g, ArtifactID = a, dep_Version = v, dep_Type = [], Classifier = [], Scope = [], Exclusions = None\<rparr>"

abbreviation dep_key :: "Dependency \<Rightarrow> string \<times> string" where
  "dep_key d \<equiv> (GroupID d, ArtifactID d)"

abbreviation repo_key :: "Repository \<Rightarrow> string \<times> string" where
  "repo_key r \<equiv> (repo_ID r, URL r)"

abbreviation ex_key :: "Exclusion \<Rightarrow> string \<times> string" where
  "ex_key e \<equiv> (ex_ArtifactID e, ex_GroupID e)"

fun lookupDep :: "Dependency list \<Rightarrow> Dependency \<Rightarrow> Dependency option" where
  "lookupDep [] dep = None"
| "lookupDep (d # ds) dep =
     (if GroupID d = GroupID dep \<and> ArtifactID d = ArtifactID dep then Some d else lookupDep ds dep)"

definition LookupDependency :: "Project \<Rightarrow> Dependency \<Rightarrow> Dependency option" where
  "LookupDependency p dep = lookupDep (p_Dependencies p) dep"

fun replaceDep :: "Dependency list \<Rightarrow> Dependency \<Rightarrow> Dependency list" where
  "replaceDep [] dep = []"
| "replaceDep (d # ds) dep =
     (if GroupID d = GroupID dep \<and> ArtifactID d = ArtifactID dep then dep # ds else d # replaceDep ds dep)"

definition ReplaceDependency :: "Dependency \<Rightarrow> Project \<Rightarrow> Project" where
  "ReplaceDependency dep p = p\<lparr>p_Dependencies := replaceDep (p_Dependencies p) dep\<rparr>"

definition addDep :: "Dependency \<Rightarrow> Dependency list \<Rightarrow> Dependency list" where
  "addDep dep ds =
     (if list_ex (\<lambda>d. GroupID d = GroupID dep \<and> ArtifactID d = ArtifactID dep) ds then ds else ds @ [dep])"

definition AddDependency :: "Dependency \<Rightarrow> Project \<Rightarrow> Project" where
  "AddDependency dep p = p\<lparr>p_Dependencies := addDep dep (p_Dependencies p)\<rparr>"

definition AddBuildPlugin :: "Plugin \<Rightarrow> Project \<Rightarrow> Project" where
  "AddBuildPlugin plugin p = p\<lparr>p_Build := (p_Build p)\<lparr>Plugins := Plugins (p_Build p) @ [plugin]\<rparr>\<rparr>"

definition PrependBuildPlugin :: "Plugin \<Rightarrow> Project \<Rightarrow> Project" where
  "PrependBuildPlugin plugin p = p\<lparr>p_Build := (p_Build p)\<lparr>Plugins := Plugins (p_Build p) @ [plugin]\<rparr>\<rparr>"

definition addRepo :: "Repository \<Rightarrow> Repository list \<Rightarrow> Repository list" where
  "addRepo repo rs = (if list_ex (\<lambda>r. repo_ID r = repo_ID repo \<and> URL r = URL repo) rs then rs else rs @ [repo])"

definition AddRepository :: "Repository \<Rightarrow> Project \<Rightarrow> Project" where
  "AddRepository repo p = p\<lparr>Repositories := addRepo repo (Repositories p)\<rparr>"

definition AddPluginRepository :: "Repository \<Rightarrow> Project \<Rightarrow> Project" where
  "AddPluginRepository repo p = p\<lparr>PluginRepositories := addRepo repo (PluginRepositories p)\<rparr>"

definition AddDependencies :: "Dependency list \<Rightarrow> Project \<Rightarrow> Project" where
  "AddDependencies deps p = fold AddDependency deps p"

definition NewDependency :: "string \<Rightarrow> string \<Rightarrow> string \<Rightarrow> Dependency" where
  "NewDependency groupID artifactID version =
     \<lparr>GroupID = groupID, ArtifactID = artifactID, dep_Version = version, dep_Type = ''jar'', Classifier = [],
      Scope = [], Exclusions = None\<rparr>"

definition AddDependencyGAV :: "string \<Rightarrow> string \<Rightarrow> string \<Rightarrow> Project \<Rightarrow> Project" where
  "AddDependencyGAV groupID artifactID version p = AddDependency (NewDependency groupID artifactID version) p"

section \<open>Coordinates\<close>

text \<open>\<open>[^: ]\<close>, the characters of a coordinate part.\<close>

definition gavChar :: "char \<Rightarrow> bool" where
  "gavChar c \<longleftrightarrow> c \<notin> set '': ''"

text \<open>\<open>([^: ]+):([^: ]+)(:([^: ]*)(:([^: ]+))?)?(:([^: ]+))?\<close>.\<close>

definition gavRex :: rx where
  "gavRex =
     seqs [Grp 1 (Plus (CS gavChar)), ch CHR '':'', Grp 2 (Plus (CS gavChar)),
       Opt (Grp 3 (Seq (ch CHR '':'') (Seq (Grp 4 (Star (CS gavChar)))
         (Opt (Grp 5 (Seq (ch CHR '':'') (Grp 6 (Plus (CS gavChar))))))))),
       Opt (Grp 7 (Seq (ch CHR '':'') (Grp 8 (Plus (CS gavChar)))))]"

definition ParseGAV :: "string \<Rightarrow> error + Dependency" where
  "ParseGAV gav =
     (case FindStringSubmatch gavRex gav of
        None \<Rightarrow> Inl (Err ''GAV must match <groupId>:<artifactId>[:<packagingType>[:<classifier>]]:(<version>|'?')'')
      | Some res \<Rightarrow>
          (let dep = \<lparr>GroupID = res 1, ArtifactID = res 2, dep_Version = [], dep_Type = ''jar'', Classifier = [],
                      Scope = [], Exclusions = None\<rparr>;
               cnt = Count gav CHR '':'' in
           Inr (if cnt = 2 then dep\<lparr>dep_Version := res 4\<rparr>
                else if cnt = 3 then dep\<lparr>dep_Type := res 4, dep_Version := res 6\<rparr>
                else dep\<lparr>dep_Type := res 4, Classifier := res 6, dep_Version := res 8\<rparr>)))"

definition AddEncodedDependencyGAV :: "string \<Rightarrow> Project \<Rightarrow> Project" where
  "AddEncodedDependencyGAV gav p = (case ParseGAV gav of Inr d \<Rightarrow> AddDependency d p | Inl _ \<Rightarrow> p)"

section \<open>Exclusions\<close>

definition addExclusion :: "Exclusion \<Rightarrow> Exclusion list \<Rightarrow> Exclusion list" where
  "addExclusion exclusion es =
     (if list_ex (\<lambda>e. ex_ArtifactID e = ex_ArtifactID exclusion \<and> ex_GroupID e = ex_GroupID exclusion) es
      then es else es @ [exclusion])"

definition AddDependencyExclusion :: "Dependency \<Rightarrow> Exclusion \<Rightarrow> Project \<Rightarrow> Project" where
  "AddDependencyExclusion dep exclusion p =
     (case LookupDependency p dep of
        None \<Rightarrow> p
      | Some t \<Rightarrow>
          (let es = (case Exclusions t of None \<Rightarrow> [] | Some es \<Rightarrow> es) in
           ReplaceDependency (t\<lparr>Exclusions := Some (addExclusion exclusion es)\<rparr>) p))"

definition AddDependencyExclusions :: "Dependency \<Rightarrow> Exclusion list \<Rightarrow> Project \<Rightarrow> Project" where
  "AddDependencyExclusions dep exclusions p = fold (AddDependencyExclusion dep) exclusions p"

section \<open>Repositories and settings\<close>

definition repoAttribute :: "string \<Rightarrow> Repository \<Rightarrow> Repository" where
  "repoAttribute attribute r =
     (if attribute = ''snapshots'' then r\<lparr>Snapshots := (Snapshots r)\<lparr>Enabled := True\<rparr>\<rparr>
      else if attribute = ''noreleases'' then r\<lparr>Releases := (Releases r)\<lparr>Enabled := False\<rparr>\<rparr>
      else if prefix ''id='' attribute then r\<lparr>repo_ID := drop 3 attribute\<rparr>
      else r)"

definition NewRepository :: "string \<Rightarrow> Repository" where
  "NewRepository repo =
     (let r = \<lparr>repo_ID = [], repo_Name = [], URL = repo,
               Snapshots = \<lparr>Enabled = False, UpdatePolicy = [], ChecksumPolicy = ''fail''\<rparr>,
               Releases = \<lparr>Enabled = True, UpdatePolicy = [], ChecksumPolicy = ''fail''\<rparr>\<rparr> in
      case Index repo CHR ''@'' of
        None \<Rightarrow> r
      | Some idx \<Rightarrow> fold repoAttribute (Split (drop (Suc idx) repo) CHR ''@'') (r\<lparr>URL := take idx repo\<rparr>))"

definition NewSettings :: Settings where
  "NewSettings =
     \<lparr>set_XMLName = ''settings'', set_XMLNs = ''http://maven.apache.org/SETTINGS/1.0.0'',
      set_XMLNsXsi = ''http://www.w3.org/2001/XMLSchema-instance'',
      set_XsiSchemaLocation = ''http://maven.apache.org/SETTINGS/1.0.0 https://maven.apache.org/xsd/settings-1.0.0.xsd'',
      LocalRepository = [], Profiles = []\<rparr>"

definition NewDefaultSettings :: "Repository list \<Rightarrow> Settings" where
  "NewDefaultSettings repositories =
     NewSettings\<lparr>Profiles :=
       [\<lparr>prof_ID = ''maven-settings'', prof_Activation = \<lparr>ActiveByDefault = True, act_Property = None\<rparr>,
         prof_Properties = [], prof_Repositories = repositories, prof_PluginRepositories = repositories\<rparr>]\<rparr>"

section \<open>Artifact names\<close>

definition fileName :: "Dependency \<Rightarrow> string \<Rightarrow> string" where
  "fileName a versionTimestamped =
     (let ext = (if dep_Type a \<noteq> [] then dep_Type a else ''jar'') in
      if Classifier a \<noteq> []
      then (if versionTimestamped \<noteq> []
            then ArtifactID a @ ''-'' @ versionTimestamped @ ''-'' @ Classifier a @ ''.'' @ ext
            else ArtifactID a @ ''-'' @ dep_Version a @ ''-'' @ Classifier a @ ''.'' @ ext)
      else if versionTimestamped \<noteq> []
      then ArtifactID a @ ''-'' @ versionTimestamped @ ''.'' @ ext
      else ArtifactID a @ ''-'' @ dep_Version a @ ''.'' @ ext)"

text \<open>The path of an artifact inside a repository and its URL.\<close>

definition artifactName :: "Dependency \<Rightarrow> string \<Rightarrow> string" where
  "artifactName d versionTimestamped =
     Join (Split (GroupID d) CHR ''.'' @ [ArtifactID d, dep_Version d]) ''/'' @ ''/'' @ fileName d versionTimestamped"

definition artifactUrl :: "string \<Rightarrow> string \<Rightarrow> string" where
  "artifactUrl repo artifact = (if suffix ''/'' repo then repo @ artifact else repo @ ''/'' @ artifact)"

definition metadataUrl :: "Dependency \<Rightarrow> string \<Rightarrow> string" where
  "metadataUrl a repo =
     (if suffix ''/'' repo then repo else repo @ ''/'') @ ReplaceAll (GroupID a) CHR ''.'' ''/'' @ ''/'' @
       ArtifactID a @ ''/'' @ dep_Version a @ ''/maven-metadata.xml''"

text \<open>The snapshot version of the artifact's type.\<close>

definition snapshotValue :: "Dependency \<Rightarrow> Metadata \<Rightarrow> string option" where
  "snapshotValue a m = map_option sv_Value (find (\<lambda>sv. Extension sv = dep_Type a) (SnapshotVersions (meta_Versioning m)))"

section \<open>Interpretations\<close>

lemma list_ex_key: "list_ex (\<lambda>y. key y = k) xs \<longleftrightarrow> k \<in> key ` set xs"
  by (auto simp: list_ex_iff)

lemma addDep_key: "addDep d ds = (if dep_key d \<in> dep_key ` set ds then ds else ds @ [d])"
  unfolding list_ex_key [symmetric] addDep_def by (simp cong: list_ex_cong)

lemma addRepo_key: "addRepo d ds = (if repo_key d \<in> repo_key ` set ds then ds else ds @ [d])"
  unfolding list_ex_key [symmetric] addRepo_def by (simp cong: list_ex_cong)

lemma addExclusion_key: "addExclusion d ds = (if ex_key d \<in> ex_key ` set ds then ds else ds @ [d])"
  unfolding list_ex_key [symmetric] addExclusion_def by (simp cong: list_ex_cong)

interpretation dep_list: unique_add dep_key addDep
  by unfold_locales (simp_all add: addDep_key)

interpretation repo_list: unique_add repo_key addRepo
  by unfold_locales (simp_all add: addRepo_key)

interpretation exclusion_list: unique_add ex_key addExclusion
  by unfold_locales (simp_all add: addExclusion_key)

section \<open>Lemmas on projects\<close>

lemma AddDependencies_deps: "p_Dependencies (AddDependencies deps p) = fold addDep deps (p_Dependencies p)"
  unfolding AddDependencies_def by (induction deps arbitrary: p) (simp_all add: AddDependency_def)

lemma AddDependencies_frame:
  "Repositories (AddDependencies deps p) = Repositories p"
  "PluginRepositories (AddDependencies deps p) = PluginRepositories p"
  "p_Build (AddDependencies deps p) = p_Build p"
  unfolding AddDependencies_def by (induction deps arbitrary: p) (simp_all add: AddDependency_def)

lemma AddDependencies_append: "AddDependencies (ds @ es) p = AddDependencies es (AddDependencies ds p)"
  by (simp add: AddDependencies_def)

lemma lookupDep_find: "lookupDep ds dep = find (\<lambda>d. dep_key d = dep_key dep) ds"
  by (induction ds) auto

lemma LookupDependency_added:
  "LookupDependency (AddDependencies deps p) dep =
     find (\<lambda>d. dep_key d = dep_key dep) (fold addDep deps (p_Dependencies p))"
  by (simp add: LookupDependency_def lookupDep_find AddDependencies_deps)

section \<open>Lemmas on coordinates\<close>

definition gavPart :: "string \<Rightarrow> bool" where
  "gavPart s \<longleftrightarrow> s \<noteq> [] \<and> list_all gavChar s"

lemma leads_part:
  assumes "gavPart t" and "u = [] \<or> hd u = CHR '':''"
  shows "leads (Grp n (Plus (CS gavChar))) (St i (t @ u) c) (St (i + length t) u (c(n := Some t)))"
  by (rule leads_Grp_text, rule leads_Plus_run) (use assms in \<open>auto simp: gavPart_def gavChar_def\<close>)

lemma leads_part_star:
  assumes "gavPart t" and "u = [] \<or> hd u = CHR '':''"
  shows "leads (Grp n (Star (CS gavChar))) (St i (t @ u) c) (St (i + length t) u (c(n := Some t)))"
  by (rule leads_Grp_text, rule leads_Star_run) (use assms in \<open>auto simp: gavPart_def gavChar_def\<close>)

lemma no_more_part: "matches (Grp n (Seq (ch CHR '':'') r)) (St i [] c) = []"
  by (simp add: ch_def)

lemma gavPart_no_colon: "gavPart s \<Longrightarrow> CHR '':'' \<notin> set s"
  by (auto simp: gavPart_def gavChar_def list_all_iff)

lemma Count_append [simp]: "Count (s @ t) c = Count s c + Count t c"
  by (simp add: Count_def)

lemma Count_Cons [simp]: "Count (x # t) c = (if x = c then Suc (Count t c) else Count t c)"
  by (simp add: Count_def)

lemma Count_0: "c \<notin> set s \<Longrightarrow> Count s c = 0"
  by (auto simp: Count_def filter_empty_conv)

lemma Count_part [simp]: "gavPart s \<Longrightarrow> Count s CHR '':'' = 0"
  by (simp add: Count_0 gavPart_no_colon)

text \<open>The third and the following groups, for one, two and three further parts.\<close>

abbreviation gavTail :: rx where
  "gavTail \<equiv> Opt (Grp 3 (Seq (ch CHR '':'') (Seq (Grp 4 (Star (CS gavChar)))
         (Opt (Grp 5 (Seq (ch CHR '':'') (Grp 6 (Plus (CS gavChar)))))))))"

lemma leads_tail1:
  assumes "gavPart v"
  shows "leads gavTail (St i (CHR '':'' # v) c) (St (i + Suc (length v)) [] (c(4 := Some v, 3 := Some (CHR '':'' # v))))"
proof -
  have "leads (Seq (ch CHR '':'') (Seq (Grp 4 (Star (CS gavChar)))
      (Opt (Grp 5 (Seq (ch CHR '':'') (Grp 6 (Plus (CS gavChar))))))))
      (St i (CHR '':'' # v) c) (St (Suc i + length v) [] (c(4 := Some v)))"
    using leads_part_star [OF assms, of "[]" 4 "Suc i" c]
    by (intro leads_Seq [OF leads_ch] leads_Seq [OF _ leads_Opt_skip] no_more_part) simp
  from leads_Opt [OF leads_Grp [OF this, of 3]] show ?thesis
    by (simp add: capture_def)
qed

lemma leads_tail2:
  assumes "gavPart t" and "gavPart v" and "u = [] \<or> hd u = CHR '':''"
  shows "leads gavTail (St i (CHR '':'' # t @ CHR '':'' # v @ u) c)
    (St (i + Suc (length t + Suc (length v))) u
      (c(4 := Some t, 6 := Some v, 5 := Some (CHR '':'' # v), 3 := Some (CHR '':'' # t @ CHR '':'' # v))))"
proof -
  have 6: "leads (Opt (Grp 5 (Seq (ch CHR '':'') (Grp 6 (Plus (CS gavChar))))))
      (St j (CHR '':'' # v @ u) d) (St (Suc j + length v) u (d(6 := Some v, 5 := Some (CHR '':'' # v))))" for j d
  proof -
    have "leads (Seq (ch CHR '':'') (Grp 6 (Plus (CS gavChar)))) (St j ((CHR '':'' # v) @ u) d)
        (St (Suc j + length v) u (d(6 := Some v)))"
      using leads_part [OF assms(2,3), of 6 "Suc j" d] by (simp add: leads_Seq [OF leads_ch])
    from leads_Opt [OF leads_Grp_text [OF this, of 5]] show ?thesis by simp
  qed
  have "leads (Seq (ch CHR '':'') (Seq (Grp 4 (Star (CS gavChar)))
      (Opt (Grp 5 (Seq (ch CHR '':'') (Grp 6 (Plus (CS gavChar))))))))
      (St i ((CHR '':'' # t @ CHR '':'' # v) @ u) c)
      (St (Suc (Suc i + length t) + length v) u (c(4 := Some t, 6 := Some v, 5 := Some (CHR '':'' # v))))"
    using leads_Seq [OF leads_ch leads_Seq [OF leads_part_star [OF assms(1)] 6]] by simp
  from leads_Opt [OF leads_Grp_text [OF this, of 3]] show ?thesis by (simp add: add.assoc)
qed

lemma leads_gav:
  assumes "gavPart g" and "gavPart a" and "hd u = CHR '':''"
    and tail: "leads (Seq gavTail (Opt (Grp 7 (Seq (ch CHR '':'') (Grp 8 (Plus (CS gavChar)))))))
      (St (length g + Suc (length a)) u (Map.empty(1 := Some g, 2 := Some a))) y"
  shows "FindStringSubmatch gavRex (g @ CHR '':'' # a @ u) =
    Some (\<lambda>n. if n = 0 then take (length (g @ CHR '':'' # a @ u) - length (rest y)) (g @ CHR '':'' # a @ u)
      else (case caps_of y n of None \<Rightarrow> [] | Some t \<Rightarrow> t))"
proof -
  have "leads gavRex (St 0 (g @ CHR '':'' # a @ u) Map.empty) y"
    unfolding gavRex_def seqs.simps
  proof (rule leads_Seq)
    show "leads (Grp 1 (Plus (CS gavChar))) (St 0 (g @ CHR '':'' # a @ u) Map.empty)
        (St (0 + length g) (CHR '':'' # a @ u) (Map.empty(1 := Some g)))"
      using assms(1) by (intro leads_part) auto
    show "leads (Seq (ch CHR '':'') (Seq (Grp 2 (Plus (CS gavChar)))
        (Seq gavTail (Opt (Grp 7 (Seq (ch CHR '':'') (Grp 8 (Plus (CS gavChar)))))))))
        (St (0 + length g) (CHR '':'' # a @ u) (Map.empty(1 := Some g))) y"
      using leads_part [OF assms(2), of u 2 "Suc (length g)" "Map.empty(1 := Some g)"] assms(3) tail
      by (intro leads_Seq [OF leads_ch] leads_Seq [OF _ tail]) simp
  qed
  from search_leads [OF this] show ?thesis
    by (simp add: FindStringSubmatch_def del: take_append) (rule ext, simp)
qed

section \<open>Properties\<close>

text \<open>
  A coordinate \<open>group:artifact:version\<close> of parts without colons and blanks is read back as
  a jar of that group, artifact and version.
\<close>

theorem ParseGAV_gav:
  assumes "gavPart g" "gavPart a" "gavPart v"
  shows "ParseGAV (g @ '':'' @ a @ '':'' @ v) = Inr (NewDependency g a v)"
proof -
  have "leads (Seq gavTail (Opt (Grp 7 (Seq (ch CHR '':'') (Grp 8 (Plus (CS gavChar)))))))
      (St (length g + Suc (length a)) (CHR '':'' # v) (Map.empty(1 := Some g, 2 := Some a)))
      (St (length g + Suc (length a) + Suc (length v)) []
        (Map.empty(1 := Some g, 2 := Some a, 4 := Some v, 3 := Some (CHR '':'' # v))))"
    by (rule leads_Seq [OF leads_tail1 [OF assms(3)] leads_Opt_skip [OF no_more_part]])
  from leads_gav [OF assms(1,2) _ this] assms show ?thesis
    by (simp add: ParseGAV_def NewDependency_def)
qed

theorem ParseGAV_gav_witness:
  "ParseGAV (''org.teiid'' @ '':'' @ ''teiid-common-core'' @ '':'' @ ''12.3.1'') =
     Inr (NewDependency ''org.teiid'' ''teiid-common-core'' ''12.3.1'')"
  by (rule ParseGAV_gav) (simp_all add: gavPart_def gavChar_def)

text \<open>
  The longer forms \<open>group:artifact:type:version\<close> and \<open>group:artifact:type:classifier:version\<close>
  are read back into their parts too.
\<close>

theorem ParseGAV_typed:
  assumes "gavPart g" "gavPart a" "gavPart t" "gavPart k" "gavPart v"
  shows "ParseGAV (g @ '':'' @ a @ '':'' @ t @ '':'' @ v) = Inr ((NewDependency g a v)\<lparr>dep_Type := t\<rparr>) \<and>
    ParseGAV (g @ '':'' @ a @ '':'' @ t @ '':'' @ k @ '':'' @ v) =
      Inr ((NewDependency g a v)\<lparr>dep_Type := t, Classifier := k\<rparr>)"
proof
  have "leads (Seq gavTail (Opt (Grp 7 (Seq (ch CHR '':'') (Grp 8 (Plus (CS gavChar)))))))
      (St (length g + Suc (length a)) (CHR '':'' # t @ CHR '':'' # v @ []) (Map.empty(1 := Some g, 2 := Some a)))
      (St (length g + Suc (length a) + Suc (length t + Suc (length v))) []
        (Map.empty(1 := Some g, 2 := Some a, 4 := Some t, 6 := Some v, 5 := Some (CHR '':'' # v),
           3 := Some (CHR '':'' # t @ CHR '':'' # v))))"
    by (rule leads_Seq [OF leads_tail2 leads_Opt_skip [OF no_more_part]]) (use assms in auto)
  from leads_gav [OF assms(1,2) _ this] assms
  show "ParseGAV (g @ '':'' @ a @ '':'' @ t @ '':'' @ v) = Inr ((NewDependency g a v)\<lparr>dep_Type := t\<rparr>)"
    by (simp add: ParseGAV_def NewDependency_def)
next
  have 8: "leads (Opt (Grp 7 (Seq (ch CHR '':'') (Grp 8 (Plus (CS gavChar)))))) (St j (CHR '':'' # v) d)
      (St (j + Suc (length v)) [] (d(8 := Some v, 7 := Some (CHR '':'' # v))))" for j d
  proof -
    have "leads (Seq (ch CHR '':'') (Grp 8 (Plus (CS gavChar)))) (St j ((CHR '':'' # v) @ []) d)
        (St (j + Suc (length v)) [] (d(8 := Some v)))"
      using leads_part [OF assms(5), of "[]" 8 "Suc j" d] by (simp add: leads_Seq [OF leads_ch])
    from leads_Opt [OF leads_Grp_text [OF this, of 7]] show ?thesis by simp
  qed
  have "leads (Seq gavTail (Opt (Grp 7 (Seq (ch CHR '':'') (Grp 8 (Plus (CS gavChar)))))))
      (St (length g + Suc (length a)) (CHR '':'' # t @ CHR '':'' # k @ CHR '':'' # v)
        (Map.empty(1 := Some g, 2 := Some a)))
      (St (length g + Suc (length a) + Suc (length t + Suc (length k)) + Suc (length v)) []
        (Map.empty(1 := Some g, 2 := Some a, 4 := Some t, 6 := Some k, 5 := Some (CHR '':'' # k),
           3 := Some (CHR '':'' # t @ CHR '':'' # k), 8 := Some v, 7 := Some (CHR '':'' # v))))"
    by (rule leads_Seq [OF leads_tail2 8]) (use assms in auto)
  from leads_gav [OF assms(1,2) _ this] assms
  show "ParseGAV (g @ '':'' @ a @ '':'' @ t @ '':'' @ k @ '':'' @ v) =
      Inr ((NewDependency g a v)\<lparr>dep_Type := t, Classifier := k\<rparr>)"
    by (simp add: ParseGAV_def NewDependency_def)
qed

theorem ParseGAV_typed_witness:
  "ParseGAV (''org.acme'' @ '':'' @ ''shop'' @ '':'' @ ''vdb'' @ '':'' @ ''1.0'') =
     Inr ((NewDependency ''org.acme'' ''shop'' ''1.0'')\<lparr>dep_Type := ''vdb''\<rparr>) \<and>
   ParseGAV (''org.acme'' @ '':'' @ ''shop'' @ '':'' @ ''vdb'' @ '':'' @ ''prod'' @ '':'' @ ''1.0'') =
     Inr ((NewDependency ''org.acme'' ''shop'' ''1.0'')\<lparr>dep_Type := ''vdb'', Classifier := ''prod''\<rparr>)"
  by (rule ParseGAV_typed) (simp_all add: gavPart_def gavChar_def)

end
