(* ===== verification/Cluster.thy ===== *)
theory Cluster
  imports Objects Conf Maven "HOL-Library.Multiset"
begin

text \<open>
  What the operator's code calls outside itself. \<open>Host\<close> holds the process environment, the
  loaded configuration, and the services of the host: files, HTTP, random numbers, encoders and
  cryptography. \<open>Reconciler\<close> (\<open>ReconcileVirtualDatabase\<close> in Go) adds the API clients. Every
  field is a parameter of the model: the definitions take the record as an argument, and a
  property that needs more of a field than its type says so in its hypotheses.

  A call receives the world \<open>'w\<close> (the cluster, the disk, the random source, other clients'
  writes) and returns the next one, so two calls with the same arguments may answer differently.
\<close>

section \<open>API clients\<close>

text \<open>
  One kind of object: \<open>Get\<close> by namespace and name, \<open>List\<close> by namespace and an optional label
  selector, and the writes. A successful \<open>Create\<close> or \<open>Update\<close> returns the object the API server
  stored, which the Go clients decode into their argument; a failing \<open>Get\<close> leaves its target
  untouched.
\<close>

record ('w, 'o) resource_client =
  rGet :: "string \<Rightarrow> string \<Rightarrow> 'w \<Rightarrow> (error + 'o) \<times> 'w"
  rList :: "string \<Rightarrow> (string \<times> string) option \<Rightarrow> 'w \<Rightarrow> (error + 'o list) \<times> 'w"
  rCreate :: "'o \<Rightarrow> 'w \<Rightarrow> (error + 'o) \<times> 'w"
  rUpdate :: "'o \<Rightarrow> 'w \<Rightarrow> (error + 'o) \<times> 'w"
  rDelete :: "'o \<Rightarrow> 'w \<Rightarrow> (error + unit) \<times> 'w"

record ZipEntry =
  zip_Name :: string
  IsDir :: bool
  zip_Body :: string

record HttpResponse =
  StatusCode :: int
  StatusText :: string
  Body :: string

record 'w Host =
  osenv :: "string \<Rightarrow> string option"
  Config :: Configuration
  ConnectionFactories :: "ConnectionFactory gomap"
  rangeKeys :: "string list \<Rightarrow> 'w \<Rightarrow> string list \<times> 'w"
  randIntn :: "nat \<Rightarrow> 'w \<Rightarrow> nat \<times> 'w"
  randShuffle :: "string \<Rightarrow> 'w \<Rightarrow> string \<times> 'w"
  fileCreate :: "string \<Rightarrow> 'w \<Rightarrow> (error + unit) \<times> 'w"
  fileWrite :: "string \<Rightarrow> string \<Rightarrow> 'w \<Rightarrow> (error + unit) \<times> 'w"
  ReadFile :: "string \<Rightarrow> 'w \<Rightarrow> (error + string) \<times> 'w"
  MkdirAll :: "string \<Rightarrow> 'w \<Rightarrow> (error + unit) \<times> 'w"
  zipOpenReader :: "string \<Rightarrow> 'w \<Rightarrow> (error + ZipEntry list) \<times> 'w"
  zipEntryOpen :: "ZipEntry \<Rightarrow> 'w \<Rightarrow> (error + string) \<times> 'w"
  httpGet :: "string \<Rightarrow> 'w \<Rightarrow> (error + HttpResponse) \<times> 'w"
  xmlMetadata :: "string \<Rightarrow> error + Metadata"
  xmlProject :: "Project \<Rightarrow> error + string"
  xmlSettings :: "Settings \<Rightarrow> error + string"
  tarWrite :: "string gomap \<Rightarrow> error + string"
  pemDecode :: "string \<Rightarrow> string option \<times> string"
  ParseCertificate :: "string \<Rightarrow> error + string"
  ParsePKCS1PrivateKey :: "string \<Rightarrow> error + string"
  ParsePKCS8PrivateKey :: "string \<Rightarrow> error + string option"
  pkcs12Encode :: "string \<Rightarrow> string \<Rightarrow> string \<Rightarrow> 'w \<Rightarrow> (error + string) \<times> 'w"
  pkcs12EncodeTrustStore :: "string gomap \<Rightarrow> string \<Rightarrow> 'w \<Rightarrow> (error + string) \<times> 'w"

record 'w Reconciler = "'w Host" +
  vdbs :: "('w, VirtualDatabase) resource_client"
  secrets :: "('w, Secret) resource_client"
  configMaps :: "('w, ConfigMap) resource_client"
  services :: "('w, Service) resource_client"
  routes :: "('w, Objects.Route) resource_client"
  deployments :: "('w, Deployment) resource_client"
  buildConfigs :: "('w, BuildConfig) resource_client"
  builds :: "('w, Objects.Build) resource_client"
  imageStreams :: "('w, ImageStream) resource_client"
  imageStreamTags :: "('w, ImageStream) resource_client"
  serviceMonitors :: "('w, ServiceMonitor) resource_client"
  prometheuses :: "('w, Prometheus) resource_client"
  infinispans :: "('w, Infinispan) resource_client"
  consoleLinks :: "('w, ConsoleLink) resource_client"
  jaegers :: "('w, ObjectMeta) resource_client"
  instantiateBinary :: "string \<Rightarrow> string \<Rightarrow> string \<Rightarrow> 'w \<Rightarrow> (error + unit) \<times> 'w"
  instantiate :: "string \<Rightarrow> string \<Rightarrow> string \<Rightarrow> 'w \<Rightarrow> (error + unit) \<times> 'w"
  Discovery :: bool
  ServerGroups :: "'w \<Rightarrow> (error + string list) \<times> 'w"
  crdExists :: "string \<Rightarrow> 'w \<Rightarrow> (error + unit) \<times> 'w"
  setControllerReference :: "ObjectMeta \<Rightarrow> ObjectMeta \<Rightarrow> error + ObjectMeta"

section \<open>Calls\<close>

definition getM :: "('w, 'o) resource_client \<Rightarrow> string \<Rightarrow> string \<Rightarrow> ('w, 'o) M" where
  "getM c ns n = callM (rGet c ns n)"

definition listM :: "('w, 'o) resource_client \<Rightarrow> string \<Rightarrow> (string \<times> string) option \<Rightarrow> ('w, 'o list) M" where
  "listM c ns sel = callM (rList c ns sel)"

definition createM :: "('w, 'o) resource_client \<Rightarrow> 'o \<Rightarrow> ('w, 'o) M" where
  "createM c obj = callM (rCreate c obj)"

definition updateM :: "('w, 'o) resource_client \<Rightarrow> 'o \<Rightarrow> ('w, 'o) M" where
  "updateM c obj = callM (rUpdate c obj)"

definition deleteM :: "('w, 'o) resource_client \<Rightarrow> 'o \<Rightarrow> ('w, unit) M" where
  "deleteM c obj = callM (rDelete c obj)"

text \<open>
  \<open>for k, v := range m\<close>: Go visits the keys of a map in an order of its own choice, another one
  at every loop. \<open>rangeKeys\<close> is that choice.
\<close>

definition rangeM :: "('w, 'z) Host_scheme \<Rightarrow> 'v gomap \<Rightarrow> ('w, 'v gomap) M" where
  "rangeM r m w =
     (case rangeKeys r (map fst m) w of
        (ks, w') \<Rightarrow> (Ok (List.map_filter (\<lambda>k. map_option (\<lambda>v. (k, v)) (map_of m k)) ks), w'))"

text \<open>The order is a permutation of the keys.\<close>

definition range_permutes :: "('w, 'z) Host_scheme \<Rightarrow> bool" where
  "range_permutes r \<longleftrightarrow> (\<forall>ks w. mset (fst (rangeKeys r ks w)) = mset ks)"

lemmas [monad_defs] = getM_def listM_def createM_def updateM_def deleteM_def

lemma callM_not_Panic [simp]: "fst (callM c w) \<noteq> Panic p"
  by (simp add: callM_def split: prod.splits)

lemma rangeM_total: "\<exists>m' w'. rangeM r m w = (Ok m', w')"
  by (simp add: rangeM_def split: prod.splits)

lemma rangeM_mset:
  assumes "range_permutes r" and "distinct (map fst m)" and "rangeM r m w = (Ok m', w')"
  shows "mset m' = mset m"
proof -
  obtain ks where ks: "rangeKeys r (map fst m) w = (ks, w')" and
      m': "m' = List.map_filter (\<lambda>k. map_option (\<lambda>v. (k, v)) (map_of m k)) ks"
    using assms(3) by (auto simp: rangeM_def split: prod.splits)
  have perm: "mset ks = mset (map fst m)"
    using assms(1) ks unfolding range_permutes_def by (metis fst_conv)
  have "map_of m (fst x) = Some (snd x)" if "x \<in> set m" for x
    using that assms(2) by (simp add: map_of_is_SomeI)
  then have id: "map (\<lambda>k. (k, the (map_of m k))) (map fst m) = m"
    by (auto intro!: map_idI)
  have "List.map_filter (\<lambda>k. map_option (\<lambda>v. (k, v)) (map_of m k)) ks = map (\<lambda>k. (k, the (map_of m k))) ks"
    if "set ks \<subseteq> dom (map_of m)" for ks
    using that by (induction ks) (auto simp: map_filter_simps)
  then have "m' = map (\<lambda>k. (k, the (map_of m k))) ks"
    using mset_eq_setD [OF perm] by (simp add: m' dom_map_of_conv_image_fst)
  then have "mset m' = image_mset (\<lambda>k. (k, the (map_of m k))) (mset ks)" by simp
  also have "\<dots> = mset (map (\<lambda>k. (k, the (map_of m k))) (map fst m))"
    by (simp only: perm mset_map)
  finally show ?thesis by (simp only: id)
qed

lemma noPanic_client [np]:
  "noPanic (getM c ns n)" "noPanic (listM c ns sel)" "noPanic (createM c x)" "noPanic (updateM c x)"
  "noPanic (deleteM c x)"
  by (simp_all add: getM_def listM_def createM_def updateM_def deleteM_def noPanic_callM)

lemma succeeds_rangeM: "succeeds (rangeM r m)"
  unfolding succeeds_def using rangeM_total [of r m] by (metis fst_conv)

lemmas noPanic_rangeM [np] = succeeds_noPanic [OF succeeds_rangeM]

section \<open>An empty cluster\<close>

text \<open>
  A concrete instance of the parameters, used by the witnesses: a host without network and files
  whose encoders are the identity, and a cluster that stores nothing. Witnesses override the
  fields they are about.
\<close>

definition nothing :: "'a \<Rightarrow> 'w \<Rightarrow> (error + 'b) \<times> 'w" where
  "nothing x w = (Inl (NotFound ''not found''), w)"

definition emptyClient :: "('w, 'o) resource_client" where
  "emptyClient =
     \<lparr>rGet = (\<lambda>ns n w. (Inl (NotFound ''not found''), w)), rList = (\<lambda>ns sel w. (Inr [], w)),
      rCreate = (\<lambda>x w. (Inr x, w)), rUpdate = (\<lambda>x w. (Inr x, w)), rDelete = (\<lambda>x w. (Inr (), w))\<rparr>"

definition emptyCluster :: "'w Reconciler" where
  "emptyCluster =
     \<lparr>osenv = (\<lambda>k. None), Config = emptyConfiguration, ConnectionFactories = [],
      rangeKeys = (\<lambda>ks w. (ks, w)), randIntn = (\<lambda>n w. (0, w)), randShuffle = (\<lambda>s w. (s, w)),
      fileCreate = nothing, fileWrite = (\<lambda>p. nothing), ReadFile = nothing, MkdirAll = nothing,
      zipOpenReader = nothing, zipEntryOpen = nothing, httpGet = nothing,
      xmlMetadata = (\<lambda>x. Inl (Err ''EOF'')), xmlProject = (\<lambda>p. Inr ''<project/>''),
      xmlSettings = (\<lambda>p. Inr ''<settings/>''), tarWrite = (\<lambda>m. Inr (concat (map snd m))),
      pemDecode = (\<lambda>s. (None, s)), ParseCertificate = Inr, ParsePKCS1PrivateKey = Inr,
      ParsePKCS8PrivateKey = (\<lambda>s. Inr (Some s)), pkcs12Encode = (\<lambda>k c p w. (Inr (k @ c), w)),
      pkcs12EncodeTrustStore = (\<lambda>m p w. (Inr (concat (map snd m)), w)),
      vdbs = emptyClient, secrets = emptyClient, configMaps = emptyClient, services = emptyClient,
      routes = emptyClient, deployments = emptyClient, buildConfigs = emptyClient, builds = emptyClient,
      imageStreams = emptyClient, imageStreamTags = emptyClient, serviceMonitors = emptyClient,
      prometheuses = emptyClient, infinispans = emptyClient, consoleLinks = emptyClient, jaegers = emptyClient,
      instantiateBinary = (\<lambda>ns n t w. (Inr (), w)), instantiate = (\<lambda>ns n t w. (Inr (), w)),
      Discovery = True, ServerGroups = (\<lambda>w. (Inr [], w)), crdExists = nothing,
      setControllerReference = (\<lambda>owner m. Inr m)\<rparr>"

text \<open>A client that answers every \<open>Get\<close> with one object.\<close>

definition constClient :: "'o \<Rightarrow> ('w, 'o) resource_client" where
  "constClient x =
     \<lparr>rGet = (\<lambda>ns n w. (Inr x, w)), rList = (\<lambda>ns sel w. (Inr [x], w)),
      rCreate = (\<lambda>x w. (Inr x, w)), rUpdate = (\<lambda>x w. (Inr x, w)), rDelete = (\<lambda>x w. (Inr (), w))\<rparr>"

lemmas cluster_defs = emptyCluster_def emptyClient_def constClient_def nothing_def emptyConfiguration_def
  emptyBuildImage_def

end
