(* ===== verification/Kubernetes_Util.thy ===== *)
theory Kubernetes_Util
  imports Cluster
begin

text \<open>
  \<open>pkg/util/kubernetes\<close>: reading secrets, config maps and services, resolving references to
  their keys, the checks on environment properties, and the wrapper \<open>resource\<close> around the
  client. All of them are reads but for \<open>EnsureObject\<close>, \<open>CreateSecret\<close> and the wrapper's writes.
\<close>

section \<open>Reading\<close>

definition GetConfigMap :: "'w Reconciler \<Rightarrow> string \<Rightarrow> string \<Rightarrow> ('w, ConfigMap) M" where
  "GetConfigMap r name namespace = getM (configMaps r) namespace name"

definition HasConfigMap :: "'w Reconciler \<Rightarrow> string \<Rightarrow> string \<Rightarrow> ('w, bool) M" where
  "HasConfigMap r name namespace =
     tryM (getM (configMaps r) namespace name)
       (\<lambda>x. case x of Inl _ \<Rightarrow> returnM False | Inr _ \<Rightarrow> returnM True)"

definition HasSecret :: "'w Reconciler \<Rightarrow> string \<Rightarrow> string \<Rightarrow> ('w, bool) M" where
  "HasSecret r name namespace =
     tryM (getM (secrets r) namespace name)
       (\<lambda>x. case x of Inl _ \<Rightarrow> returnM False | Inr _ \<Rightarrow> returnM True)"

definition GetSecret :: "'w Reconciler \<Rightarrow> string \<Rightarrow> string \<Rightarrow> ('w, Secret) M" where
  "GetSecret r name namespace = getM (secrets r) namespace name"

definition GetService :: "'w Reconciler \<Rightarrow> string \<Rightarrow> string \<Rightarrow> ('w, Service) M" where
  "GetService r name namespace = getM (services r) namespace name"

definition GetSecretRefValue :: "'w Reconciler \<Rightarrow> string \<Rightarrow> KeySelector \<Rightarrow> ('w, string) M" where
  "GetSecretRefValue r namespace selector =
     bindM (GetSecret r (sel_Name selector) namespace) (\<lambda>secret.
       case map_of (sec_Data secret) (sel_Key selector) of
         Some data \<Rightarrow> returnM data
       | None \<Rightarrow> failM (Err (''key '' @ sel_Key selector @ '' not found in secret '' @ sel_Name selector)))"

definition GetConfigMapRefValue :: "'w Reconciler \<Rightarrow> string \<Rightarrow> KeySelector \<Rightarrow> ('w, string) M" where
  "GetConfigMapRefValue r namespace selector =
     bindM (GetConfigMap r (sel_Name selector) namespace) (\<lambda>cm.
       case map_of (cm_Data cm) (sel_Key selector) of
         Some data \<Rightarrow> returnM data
       | None \<Rightarrow> failM (Err (''key '' @ sel_Key selector @ '' not found in config map '' @ sel_Name selector)))"

definition ResolveValueSource :: "'w Reconciler \<Rightarrow> string \<Rightarrow> ValueSource \<Rightarrow> ('w, string) M" where
  "ResolveValueSource r namespace valueSource =
     (case (vs_ConfigMapKeyRef valueSource, vs_SecretKeyRef valueSource) of
        (Some _, Some _) \<Rightarrow> failM (Err ''value source has bot config map and secret configured'')
      | (Some c, None) \<Rightarrow> GetConfigMapRefValue r namespace c
      | (None, Some s) \<Rightarrow> GetSecretRefValue r namespace s
      | (None, None) \<Rightarrow> returnM [])"

section \<open>Creating\<close>

text \<open>
  \<open>EnsureObject(obj, err, client)\<close>: \<open>err\<close> is the outcome of an earlier \<open>Get\<close>. The result is the
  object as it stands in the caller's variable afterwards.
\<close>

definition EnsureObject :: "('w, 'o) resource_client \<Rightarrow> 'o \<Rightarrow> error option \<Rightarrow> ('w, 'o) M" where
  "EnsureObject c obj err =
     (case err of
        Some e \<Rightarrow> if IsNotFound e then createM c obj else failM e
      | None \<Rightarrow> returnM obj)"

definition CreateSecret ::
  "'w Reconciler \<Rightarrow> string \<Rightarrow> string \<Rightarrow> ObjectMeta option \<Rightarrow> string gomap \<Rightarrow> ('w, unit) M" where
  "CreateSecret r name namespace owner data =
     (let secret = \<lparr>sec_Meta = objectMeta name namespace, sec_Type = ''Opaque'', sec_Data = data, StringData = []\<rparr> in
      bindM (case owner of
               None \<Rightarrow> returnM secret
             | Some own \<Rightarrow>
                 (case setControllerReference r own (sec_Meta secret) of
                    Inl e \<Rightarrow> failM e
                  | Inr m \<Rightarrow> returnM (secret\<lparr>sec_Meta := m\<rparr>)))
        (\<lambda>secret. bindM (createM (secrets r) secret) (\<lambda>_. returnM ())))"

section \<open>Environment properties\<close>

fun EnvironmentPropertiesExists :: "'w Reconciler \<Rightarrow> string \<Rightarrow> EnvVar list \<Rightarrow> ('w, bool) M" where
  "EnvironmentPropertiesExists r namespace [] = returnM True"
| "EnvironmentPropertiesExists r namespace (env # envs) =
     (case ValueFrom env of
        None \<Rightarrow> EnvironmentPropertiesExists r namespace envs
      | Some f \<Rightarrow>
          (case ConfigMapKeyRef f of
             Some ref \<Rightarrow>
               tryM (GetConfigMapRefValue r namespace ref) (\<lambda>x. case x of
                 Inl _ \<Rightarrow> returnM False
               | Inr _ \<Rightarrow> EnvironmentPropertiesExists r namespace envs)
           | None \<Rightarrow>
               (case SecretKeyRef f of
                  Some ref \<Rightarrow>
                    tryM (GetSecretRefValue r namespace ref) (\<lambda>x. case x of
                      Inl _ \<Rightarrow> returnM False
                    | Inr _ \<Rightarrow> EnvironmentPropertiesExists r namespace envs)
                | None \<Rightarrow> returnM False)))"

text \<open>\<open>^[A-Z]{1}[A-Z0-9_]*$\<close>.\<close>

definition envNameRex :: rx where
  "envNameRex = namePattern IsUpper (\<lambda>c. IsUpper c \<or> IsDigit c \<or> c = CHR ''_'')"

fun ValidateEnvironmentPropertyNames :: "EnvVar list \<Rightarrow> error option" where
  "ValidateEnvironmentPropertyNames [] = None"
| "ValidateEnvironmentPropertyNames (env # envs) =
     (if \<not> Match envNameRex (ev_Name env)
      then Some (Err (''The environment property with name '' @ ev_Name env @
             '' does not confirm to naming rules. Can not contain any special characters/hyphens/periods''))
      else ValidateEnvironmentPropertyNames envs)"

definition RevisionOfConfigMapOrSecret :: "'w Reconciler \<Rightarrow> string \<Rightarrow> EnvVar \<Rightarrow> ('w, string) M" where
  "RevisionOfConfigMapOrSecret r namespace env =
     (if ev_Value env \<noteq> [] then returnM (ev_Value env)
      else case ValueFrom env of
        None \<Rightarrow> returnM (ev_Value env)
      | Some f \<Rightarrow>
          (case ConfigMapKeyRef f of
             Some ref \<Rightarrow> bindM (GetConfigMap r (sel_Name ref) namespace) (\<lambda>cm. returnM (ResourceVersion (cm_Meta cm)))
           | None \<Rightarrow>
               (case SecretKeyRef f of
                  Some ref \<Rightarrow> bindM (GetSecret r (sel_Name ref) namespace) (\<lambda>s. returnM (ResourceVersion (sec_Meta s)))
                | None \<Rightarrow> returnM [])))"

section \<open>Discovery\<close>

text \<open>\<open>strings.Contains\<close>.\<close>

definition Contains :: "string \<Rightarrow> string \<Rightarrow> bool" where
  "Contains s sub \<longleftrightarrow> IndexSub s sub \<noteq> None"

definition HasServerGroup :: "'w Reconciler \<Rightarrow> string \<Rightarrow> ('w, bool) M" where
  "HasServerGroup r groupName =
     (if Discovery r
      then tryM (callM (ServerGroups r)) (\<lambda>x. case x of
             Inl _ \<Rightarrow> returnM False
           | Inr groups \<Rightarrow> returnM (list_ex (\<lambda>g. Contains g groupName) groups))
      else returnM False)"

definition IsOpenshift :: "'w Reconciler \<Rightarrow> ('w, bool) M" where
  "IsOpenshift r = HasServerGroup r ''openshift.io''"

section \<open>The resource wrapper\<close>

text \<open>
  \<open>resource.go\<close>: \<open>meta\<close> is the object's \<open>GetName\<close>/\<open>GetNamespace\<close>. \<open>FetchWithKey\<close> returns whether
  the object exists together with the object read.
\<close>

definition FetchWithKey :: "('w, 'o) resource_client \<Rightarrow> string \<Rightarrow> string \<Rightarrow> 'o \<Rightarrow> ('w, bool \<times> 'o) M" where
  "FetchWithKey c namespace name obj =
     tryM (getM c namespace name) (\<lambda>res. case res of
       Inl e \<Rightarrow> if IsNotFound e then returnM (False, obj) else failM e
     | Inr x \<Rightarrow> returnM (True, x))"

definition Fetch :: "('w, 'o) resource_client \<Rightarrow> ('o \<Rightarrow> ObjectMeta) \<Rightarrow> 'o \<Rightarrow> ('w, bool \<times> 'o) M" where
  "Fetch c meta obj = FetchWithKey c (Namespace (meta obj)) (Name (meta obj)) obj"

definition resource_Create :: "('w, 'o) resource_client \<Rightarrow> 'o \<Rightarrow> ('w, unit) M" where
  "resource_Create c obj = bindM (createM c obj) (\<lambda>_. returnM ())"

definition resource_Update :: "('w, 'o) resource_client \<Rightarrow> 'o \<Rightarrow> ('w, unit) M" where
  "resource_Update c obj = bindM (updateM c obj) (\<lambda>_. returnM ())"

definition resource_Delete :: "('w, 'o) resource_client \<Rightarrow> 'o \<Rightarrow> ('w, unit) M" where
  "resource_Delete c obj = deleteM c obj"

definition ListWithNamespace :: "('w, 'o) resource_client \<Rightarrow> string \<Rightarrow> ('w, 'o list) M" where
  "ListWithNamespace c namespace = listM c namespace None"

text \<open>The status client and the list restricted by labels are further calls of the API client.\<close>

definition UpdateStatus :: "('o \<Rightarrow> 'w \<Rightarrow> (error + 'o) \<times> 'w) \<Rightarrow> 'o \<Rightarrow> ('w, unit) M" where
  "UpdateStatus statusUpdate obj = bindM (callM (statusUpdate obj)) (\<lambda>_. returnM ())"

definition ListWithNamespaceAndLabel ::
  "(string \<Rightarrow> string gomap \<Rightarrow> 'w \<Rightarrow> (error + 'o list) \<times> 'w) \<Rightarrow> string \<Rightarrow> string gomap \<Rightarrow> ('w, 'o list) M" where
  "ListWithNamespaceAndLabel listMatching namespace labels = callM (listMatching namespace labels)"

definition CreateIfNotExists :: "('w, 'o) resource_client \<Rightarrow> ('o \<Rightarrow> ObjectMeta) \<Rightarrow> 'o \<Rightarrow> ('w, bool) M" where
  "CreateIfNotExists c meta obj =
     bindM (Fetch c meta obj) (\<lambda>(exists, _).
       if \<not> exists then bindM (resource_Create c obj) (\<lambda>_. returnM True) else returnM False)"

section \<open>Serialization\<close>

text \<open>\<open>json.Marshal\<close>, \<open>json.Unmarshal\<close> into a map and \<open>yaml.Marshal\<close> of it are parameters.\<close>

definition ToJSON :: "('o \<Rightarrow> error + string) \<Rightarrow> 'o \<Rightarrow> error + string" where
  "ToJSON jsonMarshal value = jsonMarshal value"

definition JSONToYAML :: "(string \<Rightarrow> error + 'j) \<Rightarrow> ('j \<Rightarrow> error + string) \<Rightarrow> string \<Rightarrow> error + string" where
  "JSONToYAML jsonUnmarshal yamlMarshal src =
     (case jsonUnmarshal src of
        Inl err \<Rightarrow> Inl (Err (''error unmarshalling json: '' @ Error err))
      | Inr jsondata \<Rightarrow>
          (case yamlMarshal jsondata of
             Inl err \<Rightarrow> Inl (Err (''error marshalling to yaml: '' @ Error err))
           | Inr yamldata \<Rightarrow> Inr yamldata))"

definition ToYAML ::
  "('o \<Rightarrow> error + string) \<Rightarrow> (string \<Rightarrow> error + 'j) \<Rightarrow> ('j \<Rightarrow> error + string) \<Rightarrow> 'o \<Rightarrow> error + string" where
  "ToYAML jsonMarshal jsonUnmarshal yamlMarshal value =
     (case ToJSON jsonMarshal value of
        Inl err \<Rightarrow> Inl err
      | Inr data \<Rightarrow> JSONToYAML jsonUnmarshal yamlMarshal data)"

lemmas reads = GetConfigMap_def HasConfigMap_def HasSecret_def GetSecret_def GetService_def
  GetSecretRefValue_def GetConfigMapRefValue_def

section \<open>No panics\<close>

lemma noPanic_reads [np]:
  "noPanic (GetConfigMap r n ns)" "noPanic (HasConfigMap r n ns)" "noPanic (HasSecret r n ns)"
  "noPanic (GetSecret r n ns)" "noPanic (GetService r n ns)" "noPanic (GetSecretRefValue r ns sel)"
  "noPanic (GetConfigMapRefValue r ns sel)"
  unfolding reads by (rule np)+

lemma noPanic_writes [np]:
  "noPanic (EnsureObject c obj err)" "noPanic (CreateSecret r n ns owner data)"
  unfolding EnsureObject_def CreateSecret_def by (rule np)+

lemma noPanic_env [np]:
  "noPanic (EnvironmentPropertiesExists r ns envs)" "noPanic (RevisionOfConfigMapOrSecret r ns env)"
proof -
  show "noPanic (EnvironmentPropertiesExists r ns envs)"
    by (induction envs) (simp_all, (rule np | assumption)+)
qed (unfold RevisionOfConfigMapOrSecret_def, (rule np)+)

lemma noPanic_discovery [np]: "noPanic (HasServerGroup r g)"
  unfolding HasServerGroup_def by (rule np)+

lemma noPanic_resource [np]: "noPanic (FetchWithKey c ns n obj)" "noPanic (Fetch c meta obj)"
  unfolding Fetch_def FetchWithKey_def by (rule np)+

lemma succeeds_has: "succeeds (HasSecret r n ns)" "succeeds (HasConfigMap r n ns)" "succeeds (HasServerGroup r g)"
  unfolding HasSecret_def HasConfigMap_def HasServerGroup_def
  by (auto intro!: succeeds_tryM np split: sum.split)

section \<open>Lemmas\<close>

definition envName :: "string \<Rightarrow> bool" where
  "envName s \<longleftrightarrow> (\<exists>c t. s = c # t \<and> IsUpper c \<and> list_all (\<lambda>c. IsUpper c \<or> IsDigit c \<or> c = CHR ''_'') t)"

lemma Match_envNameRex: "Match envNameRex s \<longleftrightarrow> envName s"
  by (simp add: envNameRex_def Match_namePattern envName_def)

text \<open>A reference that can be read in a world that the reads leave unchanged.\<close>

fun refExists :: "'w Reconciler \<Rightarrow> string \<Rightarrow> 'w \<Rightarrow> EnvVar \<Rightarrow> bool" where
  "refExists r namespace w env =
     (case ValueFrom env of
        None \<Rightarrow> True
      | Some f \<Rightarrow>
          (case ConfigMapKeyRef f of
             Some ref \<Rightarrow> (\<exists>cm. fst (rGet (configMaps r) namespace (sel_Name ref) w) = Inr cm \<and> map_of (cm_Data cm) (sel_Key ref) \<noteq> None)
           | None \<Rightarrow>
               (case SecretKeyRef f of
                  Some ref \<Rightarrow> (\<exists>s. fst (rGet (secrets r) namespace (sel_Name ref) w) = Inr s \<and> map_of (sec_Data s) (sel_Key ref) \<noteq> None)
                | None \<Rightarrow> False)))"

declare refExists.simps [simp del]

text \<open>Reads do not change the world.\<close>

definition pure_reads :: "'w Reconciler \<Rightarrow> bool" where
  "pure_reads r \<longleftrightarrow>
     (\<forall>ns n w. snd (rGet (configMaps r) ns n w) = w) \<and> (\<forall>ns n w. snd (rGet (secrets r) ns n w) = w)"

lemma GetConfigMapRefValue_pure:
  assumes "pure_reads r"
  shows "snd (GetConfigMapRefValue r ns sel w) = w"
    "(\<exists>x. fst (GetConfigMapRefValue r ns sel w) = Ok x) \<longleftrightarrow>
       (\<exists>cm. fst (rGet (configMaps r) ns (sel_Name sel) w) = Inr cm \<and> map_of (cm_Data cm) (sel_Key sel) \<noteq> None)"
    "fst (GetConfigMapRefValue r ns sel w) \<noteq> Panic p"
proof -
  obtain x where x: "rGet (configMaps r) ns (sel_Name sel) w = (x, w)"
    using assms unfolding pure_reads_def by (metis prod.collapse)
  show "snd (GetConfigMapRefValue r ns sel w) = w" "fst (GetConfigMapRefValue r ns sel w) \<noteq> Panic p"
    by (cases x; simp add: x reads monad_defs split: option.split)+
  show "(\<exists>x. fst (GetConfigMapRefValue r ns sel w) = Ok x) \<longleftrightarrow>
       (\<exists>cm. fst (rGet (configMaps r) ns (sel_Name sel) w) = Inr cm \<and> map_of (cm_Data cm) (sel_Key sel) \<noteq> None)"
    by (cases x) (auto simp: x reads monad_defs split: option.split)
qed

lemma GetSecretRefValue_pure:
  assumes "pure_reads r"
  shows "snd (GetSecretRefValue r ns sel w) = w"
    "(\<exists>x. fst (GetSecretRefValue r ns sel w) = Ok x) \<longleftrightarrow>
       (\<exists>s. fst (rGet (secrets r) ns (sel_Name sel) w) = Inr s \<and> map_of (sec_Data s) (sel_Key sel) \<noteq> None)"
    "fst (GetSecretRefValue r ns sel w) \<noteq> Panic p"
proof -
  obtain x where x: "rGet (secrets r) ns (sel_Name sel) w = (x, w)"
    using assms unfolding pure_reads_def by (metis prod.collapse)
  show "snd (GetSecretRefValue r ns sel w) = w" "fst (GetSecretRefValue r ns sel w) \<noteq> Panic p"
    by (cases x; simp add: x reads monad_defs split: option.split)+
  show "(\<exists>x. fst (GetSecretRefValue r ns sel w) = Ok x) \<longleftrightarrow>
       (\<exists>s. fst (rGet (secrets r) ns (sel_Name sel) w) = Inr s \<and> map_of (sec_Data s) (sel_Key sel) \<noteq> None)"
    by (cases x) (auto simp: x reads monad_defs split: option.split)
qed

lemma tryM_pure_bool:
  assumes "snd (m w) = w" and "\<And>p. fst (m w) \<noteq> Panic p"
  shows "tryM m (\<lambda>x. case x of Inl _ \<Rightarrow> returnM False | Inr _ \<Rightarrow> g) w =
    (if \<exists>x. fst (m w) = Ok x then g w else (Ok False, w))"
proof -
  obtain x where x: "m w = (x, w)" using assms(1) by (metis prod.collapse)
  with assms(2) have "x \<noteq> Panic p" for p by (metis fst_conv)
  with x show ?thesis by (cases x) (auto simp: tryM_def returnM_def)
qed

lemma exists_step:
  assumes "pure_reads r"
  shows "tryM (GetConfigMapRefValue r ns ref) (\<lambda>x. case x of Inl _ \<Rightarrow> returnM False | Inr _ \<Rightarrow> g) w =
      (if \<exists>cm. fst (rGet (configMaps r) ns (sel_Name ref) w) = Inr cm \<and> map_of (cm_Data cm) (sel_Key ref) \<noteq> None
       then g w else (Ok False, w))"
    "tryM (GetSecretRefValue r ns ref) (\<lambda>x. case x of Inl _ \<Rightarrow> returnM False | Inr _ \<Rightarrow> g) w =
      (if \<exists>s. fst (rGet (secrets r) ns (sel_Name ref) w) = Inr s \<and> map_of (sec_Data s) (sel_Key ref) \<noteq> None
       then g w else (Ok False, w))"
  unfolding GetConfigMapRefValue_pure(2) [OF assms, symmetric] GetSecretRefValue_pure(2) [OF assms, symmetric]
  by (rule tryM_pure_bool; simp add: GetConfigMapRefValue_pure GetSecretRefValue_pure assms)+

lemma env_exists_pure:
  assumes "pure_reads r"
  shows "EnvironmentPropertiesExists r namespace envs w = (Ok (list_all (refExists r namespace w) envs), w)"
  by (induction envs) (simp_all add: exists_step [OF assms] returnM_def refExists.simps split: option.split)

section \<open>Properties\<close>

text \<open>
  The check of environment names accepts a list exactly when every name starts with a
  capital letter and goes on with capitals, digits and underscores; otherwise it reports the
  first name that breaks the rule.
\<close>

theorem ValidateEnvironmentPropertyNames_spec:
  "ValidateEnvironmentPropertyNames envs =
     (case find (\<lambda>e. \<not> envName (ev_Name e)) envs of
        None \<Rightarrow> None
      | Some e \<Rightarrow> Some (Err (''The environment property with name '' @ ev_Name e @
          '' does not confirm to naming rules. Can not contain any special characters/hyphens/periods'')))"
  by (induction envs) (simp_all add: Match_envNameRex)

text \<open>
  On a cluster whose reads change nothing, the properties of a list are reported present
  exactly when every entry with a \<open>valueFrom\<close> names a config map or a secret that can be read
  and holds the key; an entry with any other kind of reference makes the answer negative.
\<close>

theorem EnvironmentPropertiesExists_iff:
  assumes "pure_reads r"
  shows "EnvironmentPropertiesExists r namespace envs w = (Ok (list_all (refExists r namespace w) envs), w)"
  using assms by (rule env_exists_pure)

theorem EnvironmentPropertiesExists_iff_witness:
  "EnvironmentPropertiesExists
      (emptyCluster\<lparr>secrets := constClient \<lparr>sec_Meta = objectMeta ''db'' ''ns'', sec_Type = [],
         sec_Data = [(''password'', ''x'')], StringData = []\<rparr>\<rparr>) ''ns''
      [\<lparr>ev_Name = ''P'', ev_Value = [], ValueFrom = Some (secretRefSource ''db'' ''password'')\<rparr>] () = (Ok True, ())"
proof -
  have "pure_reads (emptyCluster\<lparr>secrets := constClient x\<rparr>)" for x
    by (simp add: pure_reads_def cluster_defs)
  then show ?thesis
    by (subst EnvironmentPropertiesExists_iff) (simp_all add: secretRefSource_def constClient_def refExists.simps)
qed

end
