(* ===== verification/Digest.thy ===== *)
theory Digest
  imports Sha256 Kubernetes_Util
begin

text \<open>
  \<open>digest.go\<close> and \<open>updater.go\<close>: the digest of what a build depends on, the digest of the
  configuration a deployment depends on, and the decision to start a virtual database over.
  The hash is fed by successive writes; \<open>sha256\<close>'s \<open>Write\<close> never fails, so the state of the
  hash is the text written so far and the error branches of \<open>ComputeForVirtualDatabase\<close> are
  never taken.
\<close>

section \<open>Digests\<close>

definition hashSum :: "char \<Rightarrow> string \<Rightarrow> string" where
  "hashSum letter written = letter # RawURLEncoding (sha256 written)"

definition ComputeForVirtualDatabase :: "VirtualDatabase \<Rightarrow> error + string" where
  "ComputeForVirtualDatabase vdb =
     (let hash = operatorVersion;
          hash = (if DDL (vdb_Source vdb) \<noteq> [] then hash @ DDL (vdb_Source vdb) else hash);
          hash = (if Maven (vdb_Source vdb) \<noteq> [] then hash @ Maven (vdb_Source vdb) else hash);
          hash = (if OpenAPI (vdb_Source vdb) \<noteq> [] then hash @ OpenAPI (vdb_Source vdb) else hash);
          hash = foldl (@) hash (Dependencies (vdb_Source vdb)) in
      Inr (hashSum CHR ''v'' hash))"

text \<open>The loops of \<open>ComputeConfigDigest\<close> over the environment and over the data sources.\<close>

fun writeRevisions :: "'w Reconciler \<Rightarrow> string \<Rightarrow> EnvVar list \<Rightarrow> string \<Rightarrow> ('w, string) M" where
  "writeRevisions r namespace [] hash = returnM hash"
| "writeRevisions r namespace (env # envs) hash =
     bindM (RevisionOfConfigMapOrSecret r namespace env) (\<lambda>str. writeRevisions r namespace envs (hash @ str))"

fun writeSources :: "'w Reconciler \<Rightarrow> string \<Rightarrow> DataSourceObject list \<Rightarrow> string \<Rightarrow> ('w, string) M" where
  "writeSources r namespace [] hash = returnM hash"
| "writeSources r namespace (source # sources) hash =
     bindM (writeRevisions r namespace (Properties source) (hash @ ds_Name source))
       (\<lambda>hash. writeSources r namespace sources hash)"

definition ComputeConfigDigest :: "'w Reconciler \<Rightarrow> VirtualDatabase \<Rightarrow> ('w, string) M" where
  "ComputeConfigDigest r vdb =
     bindM (writeRevisions r (vdb_Namespace vdb) (spec_Env (Spec vdb)) []) (\<lambda>hash.
     bindM (writeSources r (vdb_Namespace vdb) (DataSources (Spec vdb)) hash) (\<lambda>hash.
       returnM (hashSum CHR ''c'' hash)))"

section \<open>Starting over\<close>

definition IsVdbUpdated :: "VirtualDatabase \<Rightarrow> bool" where
  "IsVdbUpdated vdb =
     (case ComputeForVirtualDatabase vdb of
        Inr digest \<Rightarrow> digest \<noteq> Digest (Status vdb)
      | Inl _ \<Rightarrow> False)"

definition RedeployVdb :: "VirtualDatabase \<Rightarrow> VirtualDatabase" where
  "RedeployVdb vdb =
     (let digest = (case ComputeForVirtualDatabase vdb of Inr d \<Rightarrow> d | Inl _ \<Rightarrow> []);
          vdb = setDigest digest (setPhase ReconcilerPhaseInitial vdb) in
      if DDL (vdb_Source vdb) \<noteq> [] \<and> src_Version (vdb_Source vdb) = []
      then (case Atoi (Version (Status vdb)) of
              (ver, None) \<Rightarrow> setVersion (Itoa (wrap64 (ver + 1))) vdb
            | (_, Some _) \<Rightarrow> vdb)
      else vdb)"

section \<open>Lemmas\<close>

text \<open>Everything the build digest is computed from.\<close>

definition digestInput :: "VirtualDatabase \<Rightarrow> string" where
  "digestInput vdb =
     operatorVersion @ DDL (vdb_Source vdb) @ Maven (vdb_Source vdb) @ OpenAPI (vdb_Source vdb) @
       concat (Dependencies (vdb_Source vdb))"

lemma foldl_append: "foldl (@) a xs = a @ concat xs"
  by (induction xs arbitrary: a) simp_all

lemma ComputeForVirtualDatabase_eq: "ComputeForVirtualDatabase vdb = Inr (hashSum CHR ''v'' (digestInput vdb))"
  by (simp add: ComputeForVirtualDatabase_def digestInput_def foldl_append)

lemma IsVdbUpdated_eq: "IsVdbUpdated vdb \<longleftrightarrow> Digest (Status vdb) \<noteq> hashSum CHR ''v'' (digestInput vdb)"
  by (auto simp: IsVdbUpdated_def ComputeForVirtualDatabase_eq)

lemma vdb_set_simps [simp]:
  "vdb_Meta (setStatus f v) = vdb_Meta v" "Spec (setStatus f v) = Spec v" "Status (setStatus f v) = f (Status v)"
  by (simp_all add: setStatus_def)

lemmas set_status = setPhase_def setFailure_def setDigest_def setConfigDigest_def setVersion_def setRoute_def
  setCacheStore_def

lemma RedeployVdb_frame:
  "vdb_Meta (RedeployVdb vdb) = vdb_Meta vdb" "Spec (RedeployVdb vdb) = Spec vdb"
  "Digest (Status (RedeployVdb vdb)) = hashSum CHR ''v'' (digestInput vdb)"
  "vdb_Phase (RedeployVdb vdb) = ReconcilerPhaseInitial"
  by (simp_all add: RedeployVdb_def set_status ComputeForVirtualDatabase_eq Let_def
      split: prod.split option.split)

lemma IsVdbUpdated_cong: "Spec v = Spec v' \<Longrightarrow> Status v = Status v' \<Longrightarrow> IsVdbUpdated v = IsVdbUpdated v'"
  by (simp add: IsVdbUpdated_eq digestInput_def)

lemma digestInput_cong: "Spec v = Spec v' \<Longrightarrow> digestInput v = digestInput v'"
  by (simp add: digestInput_def)

lemma hashSum_shape:
  "length (hashSum c s) = 44" "hd (hashSum c s) = c" "set (tl (hashSum c s)) \<subseteq> set b64_alphabet"
  by (simp_all add: hashSum_def length_RawURLEncoding length_sha256 RawURLEncoding_set sha256_bytes)

lemma hashSum_eq_iff: "hashSum c s = hashSum d t \<longleftrightarrow> c = d \<and> sha256 s = sha256 t"
  unfolding hashSum_def by (metis RawURL_roundtrip sha256_bytes list.inject)

section \<open>Properties\<close>

text \<open>
  The build digest is a legal image tag: the letter v and 43 characters of the URL-safe
  base64 alphabet, whatever the sources are; and it loses nothing of the hash, two sources have
  the same digest only when their SHA-256 sums agree.
\<close>

theorem digest_tag:
  "\<exists>d. ComputeForVirtualDatabase vdb = Inr (CHR ''v'' # d) \<and> length d = 43 \<and> set d \<subseteq> set b64_alphabet \<and>
     RawURLDecoding d = sha256 (digestInput vdb)"
  using hashSum_shape [of "CHR ''v''" "digestInput vdb"]
  by (simp add: ComputeForVirtualDatabase_eq hashSum_def RawURL_roundtrip sha256_bytes)

text \<open>
  A redeployment ends the need for one: the new object is back in the initial phase, carries
  the digest of its sources, and is not considered updated again; the specification and the
  metadata are as they were.
\<close>

theorem RedeployVdb_settles:
  "\<not> IsVdbUpdated (RedeployVdb vdb) \<and> vdb_Phase (RedeployVdb vdb) = ReconcilerPhaseInitial \<and>
   Spec (RedeployVdb vdb) = Spec vdb \<and> vdb_Meta (RedeployVdb vdb) = vdb_Meta vdb"
  by (simp add: IsVdbUpdated_eq RedeployVdb_frame digestInput_cong [OF RedeployVdb_frame(2)])

text \<open>
  C38: the version of a DDL-based virtual database without an explicit version is the decimal
  successor of the one before, as long as the counter fits 64 bits; with an explicit version, or
  without DDL, it stays.
\<close>

theorem RedeployVdb_version:
  assumes "Version (Status vdb) = Itoa n" and "in_int64 n" and "in_int64 (n + 1)"
  shows "Version (Status (RedeployVdb vdb)) =
    (if DDL (vdb_Source vdb) \<noteq> [] \<and> src_Version (vdb_Source vdb) = [] then Itoa (n + 1) else Itoa n)"
  using assms by (simp add: RedeployVdb_def set_status Let_def Atoi_Itoa wrap64_id)

theorem RedeployVdb_version_witness:
  "Version (Status (RedeployVdb (emptyVdb\<lparr>
      Spec := emptySpec\<lparr>Build := \<lparr>build_Env = [], build_Source = emptySource\<lparr>DDL := ''CREATE DATABASE x;''\<rparr>\<rparr>\<rparr>,
      Status := emptyStatus\<lparr>Version := Itoa 41\<rparr>\<rparr>))) = ''42''"
proof -
  have "Itoa (41 + 1) = ''42''" by code_simp
  then show ?thesis
    by (subst RedeployVdb_version [where n = 41])
      (simp_all add: emptyVdb_def emptySource_def in_int64_def maxInt64_def minInt64_def)
qed

text \<open>
  C39: the digest sees only the concatenation of its inputs. Whenever the concatenations of two
  specifications agree, replacing one by the other is not detected as a change and nothing is
  rebuilt; for example when text moves from one dependency to the next.
\<close>

theorem IsVdbUpdated_concatenation:
  assumes "DDL (vdb_Source v) @ Maven (vdb_Source v) @ OpenAPI (vdb_Source v) @ concat (Dependencies (vdb_Source v)) =
      DDL (vdb_Source v') @ Maven (vdb_Source v') @ OpenAPI (vdb_Source v') @ concat (Dependencies (vdb_Source v'))"
    and "Digest (Status v) = Digest (Status v')"
  shows "IsVdbUpdated v \<longleftrightarrow> IsVdbUpdated v'"
  using assms by (simp add: IsVdbUpdated_eq digestInput_def)

text \<open>After a deployment with one list of dependencies, the other one is not seen as a change.\<close>

theorem IsVdbUpdated_concatenation_witness:
  "let v = RedeployVdb (withDeps [''a:b:1'', ''0:c:d:1''] emptyVdb); v' = withDeps [''a:b:10'', '':c:d:1''] v
   in Digest (Status v) \<noteq> [] \<and> Dependencies (vdb_Source v) \<noteq> Dependencies (vdb_Source v') \<and> \<not> IsVdbUpdated v \<and> \<not> IsVdbUpdated v'"
proof -
  let ?v = "RedeployVdb (withDeps [''a:b:1'', ''0:c:d:1''] emptyVdb)"
  have "digestInput ?v = digestInput (withDeps [''a:b:1'', ''0:c:d:1''] emptyVdb)"
    by (simp add: digestInput_def RedeployVdb_frame)
  then have v: "\<not> IsVdbUpdated ?v" by (simp add: IsVdbUpdated_eq RedeployVdb_frame)
  moreover have "IsVdbUpdated ?v \<longleftrightarrow> IsVdbUpdated (withDeps [''a:b:10'', '':c:d:1''] ?v)"
    by (rule IsVdbUpdated_concatenation) (simp_all add: RedeployVdb_frame)
  moreover have "Digest (Status ?v) \<noteq> []"
    using hashSum_shape(1) [of "CHR ''v''" "digestInput (withDeps [''a:b:1'', ''0:c:d:1''] emptyVdb)"]
    by (auto simp: RedeployVdb_frame simp del: hashSum_shape)
  ultimately show ?thesis by (simp add: Let_def RedeployVdb_frame)
qed

end
