(* ===== verification/Action.thy ===== *)
theory Action
  imports Digest
begin

text \<open>
  \<open>action.go\<close>: the interface of a step of the reconciliation. An action looks at the phase of a
  virtual database to see whether it is its turn, and its handler then mutates the object while it
  talks to the cluster.

  The locale states what the controller may rely on, for every behaviour of the cluster: which
  phases a handler can move to, and that it leaves the metadata and the specification alone but for
  the default number of replicas. Each action's theory interprets it on its own handler, and the
  controller's lemmas rest on the interpretations.
\<close>

type_synonym 'w handler = "(VirtualDatabase \<times> 'w, unit) M"

section \<open>What a handler keeps\<close>

definition keeps :: "VirtualDatabase \<Rightarrow> VirtualDatabase \<Rightarrow> bool" where
  "keeps v v' \<longleftrightarrow>
     vdb_Meta v' = vdb_Meta v \<and>
     (Spec v' = Spec v \<or> Replicas (Spec v) = None \<and> Spec v' = (Spec v)\<lparr>Replicas := Some 1\<rparr>)"

lemma keeps_refl [simp]: "keeps v v"
  by (simp add: keeps_def)

lemma keeps_trans: "keeps u v \<Longrightarrow> keeps v w \<Longrightarrow> keeps u w"
  by (auto simp: keeps_def)

lemma keeps_setStatus [simp]: "keeps u (setStatus f v) \<longleftrightarrow> keeps u v"
  by (simp add: keeps_def)

lemma keeps_sets [simp]:
  "keeps u (setPhase p v) \<longleftrightarrow> keeps u v" "keeps u (setFailure m v) \<longleftrightarrow> keeps u v"
  "keeps u (setDigest d v) \<longleftrightarrow> keeps u v" "keeps u (setConfigDigest d v) \<longleftrightarrow> keeps u v"
  "keeps u (setVersion d v) \<longleftrightarrow> keeps u v" "keeps u (setRoute d v) \<longleftrightarrow> keeps u v"
  "keeps u (setCacheStore d v) \<longleftrightarrow> keeps u v"
  by (simp_all add: set_status)

lemma phase_sets [simp]:
  "vdb_Phase (setPhase p v) = p" "vdb_Phase (setFailure m v) = vdb_Phase v"
  "vdb_Phase (setDigest d v) = vdb_Phase v" "vdb_Phase (setConfigDigest d v) = vdb_Phase v"
  "vdb_Phase (setVersion d v) = vdb_Phase v" "vdb_Phase (setRoute d v) = vdb_Phase v"
  "vdb_Phase (setCacheStore d v) = vdb_Phase v" "vdb_Phase (setReplicas n v) = vdb_Phase v"
  by (simp_all add: set_status setReplicas_def)

lemma spec_sets [simp]:
  "Spec (setPhase p v) = Spec v" "Spec (setFailure m v) = Spec v"
  "Spec (setDigest d v) = Spec v" "Spec (setConfigDigest d v) = Spec v"
  "Spec (setVersion d v) = Spec v" "Spec (setRoute d v) = Spec v"
  "Spec (setCacheStore d v) = Spec v" "Status (setReplicas n v) = Status v"
  by (simp_all add: set_status setReplicas_def)

lemma meta_sets [simp]:
  "vdb_Meta (setPhase p v) = vdb_Meta v" "vdb_Meta (setFailure m v) = vdb_Meta v"
  "vdb_Meta (setDigest d v) = vdb_Meta v" "vdb_Meta (setConfigDigest d v) = vdb_Meta v"
  "vdb_Meta (setVersion d v) = vdb_Meta v" "vdb_Meta (setRoute d v) = vdb_Meta v"
  "vdb_Meta (setCacheStore d v) = vdb_Meta v" "vdb_Meta (setReplicas n v) = vdb_Meta v"
  by (simp_all add: set_status setReplicas_def)

lemma digest_sets [simp]:
  "Digest (Status (setPhase p v)) = Digest (Status v)" "Digest (Status (setFailure m v)) = Digest (Status v)"
  "Digest (Status (setDigest d v)) = d" "Digest (Status (setConfigDigest d v)) = Digest (Status v)"
  "Digest (Status (setVersion d v)) = Digest (Status v)" "Digest (Status (setRoute d v)) = Digest (Status v)"
  "Digest (Status (setCacheStore d v)) = Digest (Status v)"
  by (simp_all add: set_status)

lemma digestInput_sets [simp]:
  "digestInput (setPhase p v) = digestInput v" "digestInput (setFailure m v) = digestInput v"
  "digestInput (setDigest d v) = digestInput v" "digestInput (setConfigDigest d v) = digestInput v"
  "digestInput (setVersion d v) = digestInput v" "digestInput (setRoute d v) = digestInput v"
  "digestInput (setCacheStore d v) = digestInput v"
  by (simp_all add: digestInput_def)

lemma digestInput_keeps: "keeps v v' \<Longrightarrow> digestInput v' = digestInput v"
  by (auto simp: keeps_def digestInput_def)

section \<open>The interface\<close>

text \<open>\<open>Action\<close>: a name, the test whether it is the action's turn, and the handler.\<close>

record 'w Step =
  step_Name :: string
  CanHandle :: "VirtualDatabase \<Rightarrow> bool"
  Handle :: "'w handler"

named_theorems new_action \<open>constructors of the actions\<close>

locale action =
  fixes CanHandle :: "VirtualDatabase \<Rightarrow> bool"
    and Handle :: "'w handler"
    and edges :: "(ReconcilerPhase \<times> ReconcilerPhase) set"
  assumes handle_phase: "CanHandle v \<Longrightarrow> post v Handle (\<lambda>r v'. vdb_Phase v' = vdb_Phase v \<or> (vdb_Phase v, vdb_Phase v') \<in> edges)"
    and handle_keeps: "post v Handle (\<lambda>r v'. keeps v v')"
    and handle_digest:
      "Digest (Status v) = hashSum CHR ''v'' (digestInput v) \<Longrightarrow>
       post v Handle (\<lambda>r v'. Digest (Status v') = hashSum CHR ''v'' (digestInput v'))"
    and can_phase: "vdb_Phase v = vdb_Phase v' \<Longrightarrow> CanHandle v = CanHandle v'"
begin

text \<open>A handler never makes an object look updated.\<close>

lemma handle_not_updated:
  assumes "\<not> IsVdbUpdated v" and "Handle (v, w) = (r, v', w')"
  shows "\<not> IsVdbUpdated v'"
  using handle_digest assms by (auto simp: IsVdbUpdated_eq dest: postD)

lemma handle_step:
  assumes "CanHandle v" and "Handle (v, w) = (r, v', w')"
  shows "vdb_Phase v' = vdb_Phase v \<or> (vdb_Phase v, vdb_Phase v') \<in> edges"
  using postD [OF handle_phase] assms by blast

lemma handle_frame: "Handle (v, w) = (r, v', w') \<Longrightarrow> keeps v v'"
  using postD [OF handle_keeps] by blast

end

end
