(* ===== verification/Initialize.thy ===== *)
theory Initialize
  imports Action Maven
begin

text \<open>
  \<open>initialize.go\<close>: the first action checks what the user supplied, fills in the defaults and
  records the digests.
\<close>

section \<open>Operations\<close>

definition initialize_CanHandle :: "VirtualDatabase \<Rightarrow> bool" where
  "initialize_CanHandle vdb = (vdb_Phase vdb = ReconcilerPhaseInitial)"

definition initialize_init :: "VirtualDatabase \<Rightarrow> VirtualDatabase" where
  "initialize_init vdb =
     (let vdb = (if Replicas (Spec vdb) = None then setReplicas (Some 1) vdb else vdb);
          vdb = (if src_Version (vdb_Source vdb) = [] \<and> DDL (vdb_Source vdb) \<noteq> [] \<and> Version (Status vdb) = []
                 then setVersion ''1'' vdb else vdb) in
      if Maven (vdb_Source vdb) \<noteq> []
      then (case ParseGAV (Maven (vdb_Source vdb)) of
              Inr dep \<Rightarrow> setVersion (dep_Version dep) vdb
            | Inl _ \<Rightarrow> vdb)
      else vdb)"

fun sourcesExist :: "'w Reconciler \<Rightarrow> string \<Rightarrow> DataSourceObject list \<Rightarrow> ('w, bool) M" where
  "sourcesExist r namespace [] = returnM True"
| "sourcesExist r namespace (ds # dss) =
     bindM (EnvironmentPropertiesExists r namespace (Properties ds)) (\<lambda>ok.
       if \<not> ok then returnM False else sourcesExist r namespace dss)"

definition invalidEnv :: string where
  "invalidEnv = ''Invalid propertie(s) defined in Environment, make sure they confirm to naming convention of ENV''"

definition missingConfig :: string where
  "missingConfig = ''Configuration missing, make sure to supply all the ConfigMaps and Secrets required''"

definition initialize_Handle :: "'w Reconciler \<Rightarrow> 'w handler" where
  "initialize_Handle r =
     bindM getV (\<lambda>vdb.
       case ComputeForVirtualDatabase vdb of
         Inl e \<Rightarrow> failM e
       | Inr digest \<Rightarrow>
           if vdb_Phase vdb = ReconcilerPhaseInitial
           then (case ValidateEnvironmentPropertyNames (spec_Env (Spec vdb)) of
                   Some e \<Rightarrow> bindM (modV (setFailure invalidEnv)) (\<lambda>_. failM e)
                 | None \<Rightarrow>
                     bindM (liftW (EnvironmentPropertiesExists r (vdb_Namespace vdb) (spec_Env (Spec vdb)))) (\<lambda>ok.
                     if \<not> ok then modV (setFailure missingConfig)
                     else bindM (liftW (sourcesExist r (vdb_Namespace vdb) (DataSources (Spec vdb)))) (\<lambda>ok.
                     if \<not> ok then modV (setFailure missingConfig)
                     else
                       bindM (modV (setFailure [])) (\<lambda>_.
                       bindM (modV (setPhase ReconcilerPhaseCreateCacheStore)) (\<lambda>_.
                       bindM (modV initialize_init) (\<lambda>_.
                       bindM (modV (setDigest digest)) (\<lambda>_.
                       bindM getV (\<lambda>vdb.
                       tryM (liftW (ComputeConfigDigest r vdb)) (\<lambda>x. case x of
                         Inl e \<Rightarrow> bindM (modV (setConfigDigest [])) (\<lambda>_. failM e)
                       | Inr d \<Rightarrow> modV (setConfigDigest d))))))))))
           else returnM ())"

definition NewInitializeAction :: "'w Reconciler \<Rightarrow> 'w Step" where
  [new_action]: "NewInitializeAction r = \<lparr>step_Name = ''initialize'', CanHandle = initialize_CanHandle, Handle = initialize_Handle r\<rparr>"

section \<open>Lemmas\<close>

lemma initialize_init_phase [simp]: "vdb_Phase (initialize_init v) = vdb_Phase v"
  by (simp add: initialize_init_def Let_def split: sum.split)

lemma initialize_init_digest [simp]: "Digest (Status (initialize_init v)) = Digest (Status v)"
  by (simp add: initialize_init_def Let_def split: sum.split)

lemma initialize_init_failure [simp]: "Failure (Status (initialize_init v)) = Failure (Status v)"
  by (simp add: initialize_init_def Let_def set_status split: sum.split)

lemma failure_sets:
  "Failure (Status (setPhase p v)) = Failure (Status v)" "Failure (Status (setFailure m v)) = m"
  "Failure (Status (setDigest d v)) = Failure (Status v)" "Failure (Status (setConfigDigest d v)) = Failure (Status v)"
  by (simp_all add: set_status)

lemma initialize_init_replicas: "Replicas (Spec (initialize_init v)) \<noteq> None"
  by (simp add: initialize_init_def Let_def setReplicas_def split: sum.split)

lemma keeps_initialize_init: "keeps u v \<Longrightarrow> keeps u (initialize_init v)"
proof -
  have "keeps v (initialize_init v)"
    by (simp add: initialize_init_def Let_def split: sum.split) (simp add: keeps_def setReplicas_def)
  then show "keeps u v \<Longrightarrow> keeps u (initialize_init v)" by (rule keeps_trans [rotated])
qed

lemma noPanic_digest [np]: "noPanic (ComputeConfigDigest r v)"
proof -
  have 1: "noPanic (writeRevisions r ns envs h)" for ns envs h
    by (induction envs arbitrary: h) (simp_all, (rule np | assumption)+)
  have 2: "noPanic (writeSources r ns dss h)" for ns dss h
    by (induction dss arbitrary: h) (simp_all, (rule np 1 | assumption)+)
  show ?thesis unfolding ComputeConfigDigest_def by (rule np 1 2)+
qed

lemma initialize_post:
  assumes "vdb_Phase v \<noteq> ReconcilerPhaseInitial \<Longrightarrow> Q (Ok ()) v"
    and "\<And>e p. Q (Fail e) v \<and> Q (Panic p) v"
    and "\<And>res m. Q res (setFailure m v)"
    and "\<And>res d. vdb_Phase v = ReconcilerPhaseInitial \<Longrightarrow> Q res (setConfigDigest d (setDigest (hashSum CHR ''v'' (digestInput v))
           (initialize_init (setPhase ReconcilerPhaseCreateCacheStore (setFailure [] v)))))"
    and "\<And>p. vdb_Phase v = ReconcilerPhaseInitial \<Longrightarrow> Q (Panic p) (setDigest (hashSum CHR ''v'' (digestInput v))
           (initialize_init (setPhase ReconcilerPhaseCreateCacheStore (setFailure [] v))))"
  shows "post v (initialize_Handle r) Q"
  unfolding initialize_Handle_def ComputeForVirtualDatabase_eq sum.case
  by (rule wp | simp add: assms)+

interpretation initialize: action initialize_CanHandle "initialize_Handle r"
  "{(ReconcilerPhaseInitial, ReconcilerPhaseCreateCacheStore)}" for r
proof unfold_locales
  fix v :: VirtualDatabase
  let ?s = "initialize_init (setPhase ReconcilerPhaseCreateCacheStore (setFailure [] v))"
  have "keeps v ?s" by (rule keeps_initialize_init) simp
  then have "digestInput ?s = digestInput v" by (rule digestInput_keeps)
  then show "Digest (Status v) = hashSum CHR ''v'' (digestInput v) \<Longrightarrow>
      post v (initialize_Handle r) (\<lambda>res v'. Digest (Status v') = hashSum CHR ''v'' (digestInput v'))"
    by (intro initialize_post) simp_all
  show "post v (initialize_Handle r) (\<lambda>res. keeps v)"
    using \<open>keeps v ?s\<close> by (intro initialize_post) simp_all
qed (auto simp: initialize_CanHandle_def intro!: initialize_post)

lemma sourcesExist_pure:
  assumes "pure_reads r"
  shows "sourcesExist r ns dss w = (Ok (list_all (\<lambda>d. list_all (refExists r ns w) (Properties d)) dss), w)"
  by (induction dss) (simp_all add: bindM_def returnM_def env_exists_pure [OF assms])

section \<open>Properties\<close>



end
