(* ===== verification/Util.thy ===== *)
theory Util
  imports Cluster
begin

text \<open>
  \<open>pkg/util/util.go\<close>: slices of strings, the archive of a binary build, random passwords, and the
  helpers on regular expressions, property files and signals.
\<close>

section \<open>Slices\<close>

definition StringSliceJoin :: "string list list \<Rightarrow> string list" where
  "StringSliceJoin slices = foldl (@) [] slices"

fun StringSliceExists :: "string list \<Rightarrow> string \<Rightarrow> bool" where
  "StringSliceExists [] item = False"
| "StringSliceExists (s # slice) item = (if s = item then True else StringSliceExists slice item)"

fun StringSliceContains :: "string list \<Rightarrow> string list \<Rightarrow> bool" where
  "StringSliceContains slice [] = True"
| "StringSliceContains slice (i # items) =
     (if \<not> StringSliceExists slice i then False else StringSliceContains slice items)"

text \<open>The new slice and whether the item was added.\<close>

definition StringSliceUniqueAdd :: "string list \<Rightarrow> string \<Rightarrow> string list \<times> bool" where
  "StringSliceUniqueAdd slice item =
     (if list_ex (\<lambda>i. i = item) slice then (slice, False) else (slice @ [item], True))"

fun LookupEnvVar :: "EnvVar list \<Rightarrow> string \<Rightarrow> EnvVar option" where
  "LookupEnvVar [] name = None"
| "LookupEnvVar (e # vars) name = (if ev_Name e = name then Some e else LookupEnvVar vars name)"

section \<open>Archives\<close>

text \<open>
  \<open>Tar\<close> writes the files in the order in which the map is visited; \<open>tarWrite\<close> is the archive
  writer of the standard library.
\<close>

definition Tar :: "'w Reconciler \<Rightarrow> string gomap \<Rightarrow> ('w, string) M" where
  "Tar r files = bindM (rangeM r files) (\<lambda>fs. resM (of_sum (tarWrite r fs)))"

section \<open>Passwords\<close>

definition pw_digits :: string where
  "pw_digits = ''0123456789''"

definition pw_all :: string where
  "pw_all = ''ABCDEFGHIJKLMNOPQRSTUVWXYZ'' @ ''abcdefghijklmnopqrstuvwxyz'' @ pw_digits"

text \<open>\<open>s[rand.Intn(len(s))]\<close>.\<close>

definition randChar :: "'w Reconciler \<Rightarrow> string \<Rightarrow> ('w, char) M" where
  "randChar r s w =
     (case randIntn r (length s) w of
        (i, w') \<Rightarrow> (if i < length s then Ok (s ! i) else Panic ''index out of range'', w'))"

fun randChars :: "'w Reconciler \<Rightarrow> nat \<Rightarrow> ('w, string) M" where
  "randChars r 0 = returnM []"
| "randChars r (Suc n) = bindM (randChar r pw_all) (\<lambda>c. bindM (randChars r n) (\<lambda>cs. returnM (c # cs)))"

definition RandomPassword :: "'w Reconciler \<Rightarrow> ('w, string) M" where
  "RandomPassword r =
     bindM (randChar r pw_digits) (\<lambda>d.
     bindM (randChars r 7) (\<lambda>cs.
       (\<lambda>w. case randShuffle r (d # cs) w of (buf, w') \<Rightarrow> (Ok buf, w'))))"

section \<open>Submatches, property files and signals\<close>

text \<open>
  The set that collects the submatches of every hit lists its elements in an order of its own;
  \<open>findAll\<close> is \<open>FindAllStringSubmatch(data, -1)\<close> of a compiled expression.
\<close>

definition hitSubmatches :: "string list \<Rightarrow> string list" where
  "hitSubmatches hit = (if length hit > 1 then tl hit else [])"

definition FindAllDistinctStringSubmatch ::
  "'w Reconciler \<Rightarrow> ('r \<Rightarrow> string \<Rightarrow> string list list) \<Rightarrow> string \<Rightarrow> 'r list \<Rightarrow> ('w, string list) M" where
  "FindAllDistinctStringSubmatch r findAll data regexps w =
     (let submatchs = foldl (\<lambda>s reg. foldl (\<lambda>s hit. foldl (\<lambda>s m. List.insert m s) s (hitSubmatches hit)) s (findAll reg data))
        [] regexps in
      case rangeKeys r submatchs w of (ks, w') \<Rightarrow> (Ok ks, w'))"

text \<open>
  The entry \<open>application.properties\<close> of a config map or a secret, handed to a consumer key by key. The
  parser of the properties library, its list of keys and its \<open>MustGet\<close> are parameters; the two functions
  differ in the parser they call.
\<close>

definition consumeProperties ::
  "(string \<Rightarrow> error + 'p) \<Rightarrow> ('p \<Rightarrow> string list) \<Rightarrow> ('p \<Rightarrow> string \<Rightarrow> string res) \<Rightarrow> string gomap \<Rightarrow>
   (string \<Rightarrow> string \<Rightarrow> ('s, unit) M) \<Rightarrow> ('s, unit) M" where
  "consumeProperties load keys mustGet data consumer =
     (case map_of data ''application.properties'' of
        None \<Rightarrow> returnM ()
      | Some pstr \<Rightarrow>
          (case load pstr of
             Inl err \<Rightarrow> failM err
           | Inr p \<Rightarrow> forM (keys p) (\<lambda>k. bindM (resM (mustGet p k)) (consumer k))))"

definition ExtractApplicationPropertiesString ::
  "(string \<Rightarrow> error + 'p) \<Rightarrow> ('p \<Rightarrow> string list) \<Rightarrow> ('p \<Rightarrow> string \<Rightarrow> string res) \<Rightarrow> string gomap \<Rightarrow>
   (string \<Rightarrow> string \<Rightarrow> ('s, unit) M) \<Rightarrow> ('s, unit) M" where
  "ExtractApplicationPropertiesString loadString = consumeProperties loadString"

definition ExtractApplicationPropertiesBytes ::
  "(string \<Rightarrow> error + 'p) \<Rightarrow> ('p \<Rightarrow> string list) \<Rightarrow> ('p \<Rightarrow> string \<Rightarrow> string res) \<Rightarrow> string gomap \<Rightarrow>
   (string \<Rightarrow> string \<Rightarrow> ('s, unit) M) \<Rightarrow> ('s, unit) M" where
  "ExtractApplicationPropertiesBytes loadUTF8 = consumeProperties loadUTF8"

text \<open>What the goroutine of \<open>WaitForSignal\<close> does with the signal it receives; \<open>exit\<close> may return.\<close>

datatype Signal = SIGINT | SIGTERM | SIGPIPE | OtherSignal

definition WaitForSignal :: "(int \<Rightarrow> ('s, unit) M) \<Rightarrow> Signal \<Rightarrow> ('s, unit) M" where
  "WaitForSignal exit s =
     bindM (case s of SIGINT \<Rightarrow> exit 130 | SIGTERM \<Rightarrow> exit 130 | SIGPIPE \<Rightarrow> exit 0 | OtherSignal \<Rightarrow> returnM ())
       (\<lambda>_. exit 1)"

section \<open>Lemmas\<close>

interpretation string_slice: unique_add "\<lambda>s. s" "\<lambda>x xs. fst (StringSliceUniqueAdd xs x)"
  by unfold_locales (auto simp: StringSliceUniqueAdd_def list_ex_iff)

text \<open>The documented contract of \<open>math/rand\<close>.\<close>

definition rand_contract :: "'w Reconciler \<Rightarrow> bool" where
  "rand_contract r \<longleftrightarrow>
     (\<forall>n w. 0 < n \<longrightarrow> fst (randIntn r n w) < n) \<and> (\<forall>s w. mset (fst (randShuffle r s w)) = mset s)"

lemma randChar_Ok:
  assumes "rand_contract r" and "s \<noteq> []"
  shows "\<exists>c w'. randChar r s w = (Ok c, w') \<and> c \<in> set s"
proof -
  obtain i w' where i: "randIntn r (length s) w = (i, w')" by fastforce
  have "i < length s" using assms i unfolding rand_contract_def by (metis fst_conv length_greater_0_conv)
  with i show ?thesis by (simp add: randChar_def)
qed

lemma randChars_Ok:
  assumes "rand_contract r"
  shows "\<exists>cs w'. randChars r n w = (Ok cs, w') \<and> length cs = n \<and> set cs \<subseteq> set pw_all"
proof (induction n arbitrary: w)
  case (Suc n)
  have "pw_all \<noteq> []" by (simp add: pw_all_def)
  then obtain c w1 where c: "randChar r pw_all w = (Ok c, w1)" "c \<in> set pw_all"
    using randChar_Ok [OF assms] by blast
  obtain cs w2 where "randChars r n w1 = (Ok cs, w2)" "length cs = n" "set cs \<subseteq> set pw_all"
    using Suc.IH by blast
  with c show ?case by (simp add: bindM_def returnM_def)
qed (simp add: returnM_def)

lemma RandomPassword_Ok:
  assumes "rand_contract r"
  shows "\<exists>pw w'. RandomPassword r w = (Ok pw, w') \<and> length pw = 8 \<and> set pw \<subseteq> set pw_all \<and>
    set pw \<inter> set pw_digits \<noteq> {}"
proof -
  have "pw_digits \<noteq> []" by (simp add: pw_digits_def)
  then obtain d w1 where d: "randChar r pw_digits w = (Ok d, w1)" "d \<in> set pw_digits"
    using randChar_Ok [OF assms] by blast
  obtain cs w2 where cs: "randChars r 7 w1 = (Ok cs, w2)" "length cs = 7" "set cs \<subseteq> set pw_all"
    using randChars_Ok [OF assms] by blast
  obtain buf w3 where buf: "randShuffle r (d # cs) w2 = (buf, w3)" by fastforce
  then have m: "mset buf = mset (d # cs)" using assms unfolding rand_contract_def by (metis fst_conv)
  then have "length buf = 8" and "set buf = insert d (set cs)"
    using cs(2) mset_eq_length [OF m] mset_eq_setD [OF m] by simp_all
  moreover have "set pw_digits \<subseteq> set pw_all" unfolding pw_all_def set_append by blast
  ultimately show ?thesis using d cs buf by (auto simp: RandomPassword_def bindM_def)
qed

lemma succeeds_RandomPassword: "rand_contract r \<Longrightarrow> succeeds (RandomPassword r)"
  unfolding succeeds_def using RandomPassword_Ok [of r] by (metis fst_conv)

text \<open>A fold whose steps add elements to a list without repetitions.\<close>

lemma foldl_collects:
  assumes "\<And>s x. distinct s \<Longrightarrow> distinct (f s x) \<and> set (f s x) = set s \<union> g x"
  shows "distinct s \<Longrightarrow> distinct (foldl f s xs) \<and> set (foldl f s xs) = set s \<union> (\<Union>x \<in> set xs. g x)"
  by (induction xs arbitrary: s) (auto simp: assms)

lemma FindAllDistinctStringSubmatch_spec:
  assumes "range_permutes r"
  shows "\<exists>ks w'. FindAllDistinctStringSubmatch r findAll data regexps w = (Ok ks, w') \<and> distinct ks \<and>
    set ks = (\<Union>reg \<in> set regexps. \<Union>hit \<in> set (findAll reg data). set (tl hit))"
proof -
  have tl: "set (hitSubmatches hit) = set (tl hit)" for hit
    by (cases hit) (auto simp: hitSubmatches_def)
  have hit: "distinct s \<Longrightarrow> distinct (foldl (\<lambda>s m. List.insert m s) s ms) \<and>
      set (foldl (\<lambda>s m. List.insert m s) s ms) = set s \<union> (\<Union>m \<in> set ms. {m})" for s ms :: "string list"
    by (rule foldl_collects) (auto simp: List.insert_def)
  let ?hits = "\<lambda>s hits. foldl (\<lambda>s hit. foldl (\<lambda>s m. List.insert m s) s (hitSubmatches hit)) s hits"
  have hits: "distinct s \<Longrightarrow> distinct (?hits s hits) \<and> set (?hits s hits) = set s \<union> (\<Union>hit \<in> set hits. set (tl hit))" for s hits
    by (rule foldl_collects) (use hit in \<open>auto simp: tl\<close>)
  let ?all = "foldl (\<lambda>s reg. ?hits s (findAll reg data)) [] regexps"
  have all: "distinct ?all \<and> set ?all = set [] \<union> (\<Union>reg \<in> set regexps. \<Union>hit \<in> set (findAll reg data). set (tl hit))"
    by (rule foldl_collects) (use hits in auto)
  obtain ks w' where ks: "rangeKeys r ?all w = (ks, w')" by fastforce
  then have "mset ks = mset ?all" using assms unfolding range_permutes_def by (metis fst_conv)
  with all have "distinct ks" "set ks = set ?all" by (metis mset_eq_imp_distinct_iff, metis mset_eq_setD)
  with all ks show ?thesis by (simp add: FindAllDistinctStringSubmatch_def)
qed

lemma ExtractApplicationProperties_absent:
  "map_of data ''application.properties'' = None \<Longrightarrow>
     ExtractApplicationPropertiesString load keys get data consumer = returnM () \<and>
     ExtractApplicationPropertiesBytes load keys get data consumer = returnM ()"
  by (simp add: ExtractApplicationPropertiesString_def ExtractApplicationPropertiesBytes_def consumeProperties_def)

section \<open>Properties\<close>

text \<open>
  A generated password has eight characters, all of them letters and digits and at least one a
  digit, for every random source that keeps the contract of \<open>math/rand\<close>.
\<close>

theorem RandomPassword_shape:
  assumes "rand_contract r"
  shows "\<exists>pw w'. RandomPassword r w = (Ok pw, w') \<and> length pw = 8 \<and> set pw \<subseteq> set pw_all \<and>
    set pw \<inter> set pw_digits \<noteq> {}"
  using assms by (rule RandomPassword_Ok)

theorem RandomPassword_shape_witness:
  "\<exists>pw w'. RandomPassword emptyCluster () = (Ok pw, w') \<and> length pw = 8 \<and> set pw \<subseteq> set pw_all \<and>
    set pw \<inter> set pw_digits \<noteq> {}"
  by (rule RandomPassword_shape) (simp add: rand_contract_def emptyCluster_def)

end
