(* ===== verification/Envvar.thy ===== *)
theory Envvar
  imports Types
begin

text \<open>
  \<open>pkg/util/envvar/envvar.go\<close>: a slice of \<open>EnvVar\<close> used as an ordered map from names to
  values. The Go operations that take \<open>*[]corev1.EnvVar\<close> return the new slice here; the
  pointer \<open>Get\<close> hands out is only written through by \<open>SetVal\<close>, \<open>SetVar\<close>, \<open>SetValFrom\<close> and
  \<open>SetValueFrom\<close>, which update the first entry of that name in place.

  The locale \<open>env_writer\<close> states what every writer of the package promises; the clients
  (default environments, Spring properties, proxy settings) are proved against it.
\<close>

section \<open>Operations\<close>

fun Get :: "EnvVar list \<Rightarrow> string \<Rightarrow> EnvVar option" where
  "Get [] n = None"
| "Get (v # vs) n = (if ev_Name v = n then Some v else Get vs n)"

fun Remove :: "EnvVar list \<Rightarrow> string \<Rightarrow> EnvVar list" where
  "Remove [] n = []"
| "Remove (v # vs) n = (if ev_Name v = n then vs else v # Remove vs n)"

text \<open>Writing through the pointer \<open>Get\<close> returns: the first entry of the name is updated.\<close>

fun updateFirst :: "(EnvVar \<Rightarrow> EnvVar) \<Rightarrow> EnvVar list \<Rightarrow> string \<Rightarrow> EnvVar list" where
  "updateFirst f [] n = []"
| "updateFirst f (v # vs) n = (if ev_Name v = n then f v # vs else v # updateFirst f vs n)"

definition SetVal :: "EnvVar list \<Rightarrow> string \<Rightarrow> string \<Rightarrow> EnvVar list" where
  "SetVal vars name value =
     (case Get vars name of
        Some _ \<Rightarrow> updateFirst (\<lambda>e. e\<lparr>ev_Value := value, ValueFrom := None\<rparr>) vars name
      | None \<Rightarrow> vars @ [\<lparr>ev_Name = name, ev_Value = value, ValueFrom = None\<rparr>])"

definition SetVar :: "EnvVar list \<Rightarrow> EnvVar \<Rightarrow> EnvVar list" where
  "SetVar vars newEnvVar =
     (case Get vars (ev_Name newEnvVar) of
        Some _ \<Rightarrow> updateFirst (\<lambda>e. e\<lparr>ev_Value := ev_Value newEnvVar, ValueFrom := ValueFrom newEnvVar\<rparr>)
                    vars (ev_Name newEnvVar)
      | None \<Rightarrow> vars @ [newEnvVar])"

definition SetValFrom :: "EnvVar list \<Rightarrow> string \<Rightarrow> string \<Rightarrow> EnvVar list" where
  "SetValFrom vars name path =
     (case Get vars name of
        Some _ \<Rightarrow> updateFirst (\<lambda>e. e\<lparr>ev_Value := [], ValueFrom := Some (fieldRefSource path)\<rparr>) vars name
      | None \<Rightarrow> vars @ [\<lparr>ev_Name = name, ev_Value = [], ValueFrom = Some (fieldRefSource path)\<rparr>])"

definition SetValueFrom :: "EnvVar list \<Rightarrow> string \<Rightarrow> EnvVarSource option \<Rightarrow> EnvVar list" where
  "SetValueFrom vars name from =
     (case Get vars name of
        Some _ \<Rightarrow> updateFirst (\<lambda>e. e\<lparr>ev_Value := [], ValueFrom := from\<rparr>) vars name
      | None \<Rightarrow> vars @ [\<lparr>ev_Name = name, ev_Value = [], ValueFrom = from\<rparr>])"

text \<open>The loop shared by \<open>Combine\<close> and \<open>Clone\<close>: add what is not there yet.\<close>

fun addMissing :: "EnvVar list \<Rightarrow> EnvVar list \<Rightarrow> EnvVar list" where
  "addMissing envs [] = envs"
| "addMissing envs (v # vs) =
     addMissing (if Get envs (ev_Name v) = None then SetVar envs v else envs) vs"

definition Combine :: "EnvVar list \<Rightarrow> EnvVar list \<Rightarrow> EnvVar list" where
  "Combine setA setB = addMissing (addMissing [] setA) setB"

definition Clone :: "EnvVar list \<Rightarrow> EnvVar list" where
  "Clone src = addMissing [] src"

section \<open>The contract of a writer\<close>

text \<open>
  A writer sets the entry of one name: \<open>put vars n a\<close> binds \<open>n\<close> to \<open>val n a\<close> and leaves every
  other name alone; it keeps the set of names but for \<open>n\<close> and never duplicates one.
\<close>

definition names :: "EnvVar list \<Rightarrow> string list" where
  "names vars = map ev_Name vars"

definition unique_names :: "EnvVar list \<Rightarrow> bool" where
  "unique_names vars \<longleftrightarrow> distinct (names vars)"

locale env_writer =
  fixes put :: "EnvVar list \<Rightarrow> string \<Rightarrow> 'a \<Rightarrow> EnvVar list"
    and val :: "string \<Rightarrow> 'a \<Rightarrow> EnvVar"
  assumes put_same: "Get (put vars n a) n = Some (val n a)"
    and put_other: "m \<noteq> n \<Longrightarrow> Get (put vars n a) m = Get vars m"
    and put_names: "names (put vars n a) = (if Get vars n = None then names vars @ [n] else names vars)"
begin

lemma put_unique: "unique_names vars \<Longrightarrow> unique_names (put vars n a)"
proof -
  have "Get vars n = None \<Longrightarrow> n \<notin> set (names vars)"
    by (induction vars) (auto simp: names_def split: if_splits)
  then show "unique_names vars \<Longrightarrow> unique_names (put vars n a)"
    by (simp add: unique_names_def put_names)
qed

lemma put_set_names: "set (names (put vars n a)) = insert n (set (names vars))"
proof -
  have "Get vars n \<noteq> None \<Longrightarrow> n \<in> set (names vars)"
    by (induction vars) (auto simp: names_def split: if_splits)
  then show ?thesis by (auto simp: put_names)
qed

lemma put_put_same: "Get (put (put vars n a) n b) m = Get (put vars n b) m"
  by (cases "m = n") (simp_all add: put_same put_other)

lemma put_commute: "n \<noteq> n' \<Longrightarrow> Get (put (put vars n a) n' b) m = Get (put (put vars n' b) n a) m"
  by (cases "m = n"; cases "m = n'") (simp_all add: put_same put_other)

end

section \<open>Lemmas\<close>

lemma Get_find: "Get vars n = find (\<lambda>v. ev_Name v = n) vars"
  by (induction vars) auto

lemma Get_Some_name: "Get vars n = Some v \<Longrightarrow> ev_Name v = n"
  by (simp add: Get_find find_Some_iff) blast

lemma Get_Some_mem: "Get vars n = Some v \<Longrightarrow> v \<in> set vars"
  by (auto simp: Get_find dest: find_SomeD)

lemma Get_None_iff: "Get vars n = None \<longleftrightarrow> n \<notin> set (names vars)"
  by (induction vars) (auto simp: names_def)

lemma Get_append: "Get (vs @ ws) n = (case Get vs n of None \<Rightarrow> Get ws n | Some v \<Rightarrow> Some v)"
  by (induction vs) auto

lemma Get_unique: "unique_names vars \<Longrightarrow> v \<in> set vars \<Longrightarrow> Get vars (ev_Name v) = Some v"
  by (induction vars) (auto simp: unique_names_def names_def)

lemma names_append [simp]: "names (vs @ ws) = names vs @ names ws"
  by (simp add: names_def)

lemma names_Nil [simp]: "names [] = []"
  by (simp add: names_def)

lemma names_Cons [simp]: "names (v # vs) = ev_Name v # names vs"
  by (simp add: names_def)

lemma Get_updateFirst:
  assumes "\<And>e. ev_Name (f e) = ev_Name e"
  shows "Get (updateFirst f vars n) m = (if m = n then map_option f (Get vars n) else Get vars m)"
  by (induction vars) (auto simp: assms)

lemma names_updateFirst:
  assumes "\<And>e. ev_Name (f e) = ev_Name e"
  shows "names (updateFirst f vars n) = names vars"
  by (induction vars) (auto simp: assms)

lemmas writer_simps = Get_updateFirst names_updateFirst Get_append

interpretation set_val: env_writer SetVal "\<lambda>n a. \<lparr>ev_Name = n, ev_Value = a, ValueFrom = None\<rparr>"
  by unfold_locales
    (auto simp: SetVal_def writer_simps dest: Get_Some_name split: option.splits)

interpretation set_var: env_writer "\<lambda>vars n a. SetVar vars (a\<lparr>ev_Name := n\<rparr>)" "\<lambda>n a. a\<lparr>ev_Name := n\<rparr>"
  by unfold_locales
    (auto simp: SetVar_def writer_simps dest: Get_Some_name split: option.splits)

interpretation set_val_from: env_writer SetValFrom
  "\<lambda>n path. \<lparr>ev_Name = n, ev_Value = [], ValueFrom = Some (fieldRefSource path)\<rparr>"
  by unfold_locales
    (auto simp: SetValFrom_def writer_simps dest: Get_Some_name split: option.splits)

interpretation set_value_from: env_writer SetValueFrom "\<lambda>n from. \<lparr>ev_Name = n, ev_Value = [], ValueFrom = from\<rparr>"
  by unfold_locales
    (auto simp: SetValueFrom_def writer_simps dest: Get_Some_name split: option.splits)

lemma Get_SetVar: "Get (SetVar vars v) m = (if m = ev_Name v then Some v else Get vars m)"
  using set_var.put_same [of vars "ev_Name v" v] set_var.put_other [of m "ev_Name v" vars v] by auto

lemma SetVar_unique: "unique_names vars \<Longrightarrow> unique_names (SetVar vars v)"
  using set_var.put_unique [of vars "ev_Name v" v] by simp

lemma SetVar_names: "set (names (SetVar vars v)) = insert (ev_Name v) (set (names vars))"
  using set_var.put_set_names [of vars "ev_Name v" v] by simp

lemma Get_addMissing: "Get (addMissing envs vs) n = (case Get envs n of None \<Rightarrow> Get vs n | Some v \<Rightarrow> Some v)"
  by (induction envs vs rule: addMissing.induct) (auto simp: Get_SetVar split: option.splits)

lemma addMissing_unique: "unique_names envs \<Longrightarrow> unique_names (addMissing envs vs)"
  by (induction envs vs rule: addMissing.induct) (simp_all add: SetVar_unique)

lemma addMissing_set_names: "set (names (addMissing envs vs)) = set (names envs) \<union> set (names vs)"
proof -
  have "n \<notin> set (names (addMissing envs vs)) \<longleftrightarrow> n \<notin> set (names envs) \<and> n \<notin> set (names vs)" for n
    unfolding Get_None_iff [symmetric] Get_addMissing by (cases "Get envs n") auto
  then show ?thesis by blast
qed

lemma addMissing_fresh:
  "unique_names vs \<Longrightarrow> set (names envs) \<inter> set (names vs) = {} \<Longrightarrow> addMissing envs vs = envs @ vs"
proof (induction envs vs rule: addMissing.induct)
  case (2 envs v vs)
  then have "Get envs (ev_Name v) = None" by (simp add: Get_None_iff)
  then have "SetVar envs v = envs @ [v]" by (simp add: SetVar_def)
  with 2 \<open>Get envs (ev_Name v) = None\<close> show ?case by (auto simp: unique_names_def)
qed simp

lemma Get_Clone: "Get (Clone vs) n = Get vs n"
  by (simp add: Clone_def Get_addMissing)

lemma Clone_unique: "unique_names (Clone vs)"
  unfolding Clone_def by (rule addMissing_unique) (simp add: unique_names_def)

lemma Clone_id: "unique_names vs \<Longrightarrow> Clone vs = vs"
  by (simp add: Clone_def addMissing_fresh)

lemma Remove_names_subset: "set (names (Remove vars n)) \<subseteq> set (names vars)"
  by (induction vars) auto

end
