(* ===== verification/Cachestore.thy ===== *)
theory Cachestore
  imports Action Util Envvar
begin

text \<open>
  \<open>pkg/util/cachestore/infinispan.go\<close> and the action of \<open>cachestore.go\<close>: finding out whether the
  Infinispan operator is there, reading or creating the configuration of a cache store, and handing
  its credentials to the deployment.
\<close>

section \<open>Infinispan\<close>

record InfinispanDetails =
  ispn_Name :: string
  NameSpace :: string
  User :: string
  Password :: string
  ispn_URL :: string
  CreateIfNotFound :: bool
  det_Replicas :: int

definition emptyDetails :: InfinispanDetails where
  "emptyDetails = \<lparr>ispn_Name = [], NameSpace = [], User = [], Password = [], ispn_URL = [], CreateIfNotFound = False,
     det_Replicas = 0\<rparr>"

definition configurationExists :: "'w Reconciler \<Rightarrow> string \<Rightarrow> string \<Rightarrow> ('w, Secret option) M" where
  "configurationExists r vdbName vdbNamespace =
     tryM (GetSecret r (vdbName @ ''-cache-store'') vdbNamespace) (\<lambda>x. case x of
       Inr secret \<Rightarrow> returnM (Some secret)
     | Inl _ \<Rightarrow> tryM (GetSecret r ''teiid-cache-store'' vdbNamespace) (\<lambda>x. case x of
         Inr secret \<Rightarrow> returnM (Some secret)
       | Inl _ \<Rightarrow> returnM None))"

text \<open>A field comes from \<open>Data\<close> when the key is there, and from \<open>StringData\<close> otherwise.\<close>

definition secretField :: "Secret \<Rightarrow> string \<Rightarrow> string" where
  "secretField secret k =
     (case map_of (sec_Data secret) k of Some v \<Rightarrow> v | None \<Rightarrow> mapGet (StringData secret) k)"

definition readInfinispanDetails :: "Secret \<Rightarrow> InfinispanDetails" where
  "readInfinispanDetails secret =
     emptyDetails\<lparr>ispn_Name := secretField secret ''name'', NameSpace := secretField secret ''namespace'',
       User := secretField secret ''username'', Password := secretField secret ''password'',
       ispn_URL := secretField secret ''url''\<rparr>"

definition hasInfinispan :: "'w Reconciler \<Rightarrow> string \<Rightarrow> string \<Rightarrow> ('w, bool) M" where
  "hasInfinispan r name namespace =
     tryM (getM (infinispans r) namespace name) (\<lambda>x. case x of Inl _ \<Rightarrow> returnM False | Inr _ \<Rightarrow> returnM True)"

definition cachestore_Exists :: "'w Reconciler \<Rightarrow> string \<Rightarrow> string \<Rightarrow> ('w, bool) M" where
  "cachestore_Exists r vdbName vdbNamespace =
     bindM (configurationExists r vdbName vdbNamespace) (\<lambda>s. case s of
       None \<Rightarrow> returnM False
     | Some secret \<Rightarrow>
         (let details = readInfinispanDetails secret in hasInfinispan r (ispn_Name details) (NameSpace details)))"

definition Credentials :: "'w Reconciler \<Rightarrow> string \<Rightarrow> string \<Rightarrow> ('w, InfinispanDetails) M" where
  "Credentials r vdbName vdbNamespace =
     bindM (configurationExists r vdbName vdbNamespace) (\<lambda>s. case s of
       None \<Rightarrow> failM (Err ''Failed to find configuration for the Cache Store'')
     | Some secret \<Rightarrow> returnM (readInfinispanDetails secret))"

definition secretEnv :: "string \<Rightarrow> string \<Rightarrow> string \<Rightarrow> EnvVar" where
  "secretEnv n secretName key = \<lparr>ev_Name = n, ev_Value = [], ValueFrom = Some (secretRefSource secretName key)\<rparr>"

definition CredentialsAsEnv :: "'w Reconciler \<Rightarrow> string \<Rightarrow> string \<Rightarrow> ('w, EnvVar list) M" where
  "CredentialsAsEnv r vdbName vdbNamespace =
     bindM (HasSecret r (vdbName @ ''-cache-store'') vdbNamespace) (\<lambda>has.
       let secretName = (if \<not> has then ''teiid-cache-store'' else vdbName @ ''-cache-store'');
           pre = ''SPRING_TEIID_DATA_INFINISPANHOTROD_CACHESTORE_'';
           envs = SetVar [] (secretEnv (pre @ ''USERNAME'') secretName ''username'');
           envs = SetVar envs (secretEnv (pre @ ''PASSWORD'') secretName ''password'');
           envs = SetVar envs (secretEnv (pre @ ''URL'') secretName ''url'');
           envs = SetVar envs (plainEnv (pre @ ''TRANSACTIONMODE'') ''NON_XA'');
           envs = SetVar envs (plainEnv (pre @ ''CACHENAME'') vdbName) in
       returnM envs)"

definition IsInfinispanCRDAvailable :: "'w Reconciler \<Rightarrow> ('w, bool) M" where
  "IsInfinispanCRDAvailable r = HasServerGroup r ''infinispan.org''"

text \<open>The second result of the Go function is always nil; a failing fetch answers false.\<close>

definition IsInfinispanOperatorAvailable :: "'w Reconciler \<Rightarrow> string \<Rightarrow> ('w, bool) M" where
  "IsInfinispanOperatorAvailable r namespace =
     bindM (IsInfinispanCRDAvailable r) (\<lambda>crd.
       if crd
       then tryM (Fetch (deployments r) dc_Meta
              (emptyDeployment\<lparr>dc_Meta := objectMeta ''infinispan-operator'' namespace\<rparr>)) (\<lambda>x. case x of
              Inl _ \<Rightarrow> returnM False
            | Inr (exists, _) \<Rightarrow> if exists then returnM True else returnM False)
       else returnM False)"

definition NewInfinispanResource :: "string \<Rightarrow> string \<Rightarrow> string \<Rightarrow> int \<Rightarrow> Infinispan" where
  "NewInfinispanResource namespace name secretName replicas =
     \<lparr>ispn_Meta = objectMeta name namespace, ispn_Replicas = replicas, EndpointSecretName = secretName,
      ServiceType = ''DataGrid''\<rparr>"

section \<open>The action\<close>

definition IgnoreCacheStore :: "'w Reconciler \<Rightarrow> VirtualDatabase \<Rightarrow> ('w, bool) M" where
  "IgnoreCacheStore r vdb =
     tryM (IsInfinispanOperatorAvailable r (vdb_Namespace vdb)) (\<lambda>x.
       let ispnAvailable = (case x of Inl _ \<Rightarrow> False | Inr a \<Rightarrow> a);
           disableIspn = (if ispnAvailable then False else True);
           disableIspn = (case Get (spec_Env (Spec vdb)) ''DISABLE_ISPN_CACHING'' of
                            Some cachingFlag \<Rightarrow> fst (ParseBool (ev_Value cachingFlag))
                          | None \<Rightarrow> disableIspn) in
       returnM (\<not> ispnAvailable \<or> disableIspn))"

definition createNewCacheStore :: "'w Reconciler \<Rightarrow> InfinispanDetails \<Rightarrow> ObjectMeta \<Rightarrow> ('w, unit) M" where
  "createNewCacheStore r ispn owner =
     bindM (IsInfinispanOperatorAvailable r (NameSpace ispn)) (\<lambda>exists.
       if exists
       then bindM (RandomPassword r) (\<lambda>operatorPassword.
         let identitySecret = Join [''credentials:'', ''- username: '' @ User ispn, ''  password: '' @ Password ispn,
               ''- username: operator'', ''  password: '' @ operatorPassword] [CHR 0x0A];
             data = [(''identities.yaml'', identitySecret)] in
         bindM (CreateSecret r (ispn_Name ispn @ ''-identity'') (NameSpace ispn) (Some owner) data) (\<lambda>_.
         let ispnInstance = NewInfinispanResource (NameSpace ispn) (ispn_Name ispn) (ispn_Name ispn @ ''-identity'') 3;
             ispnInstance = (case setControllerReference r owner (ispn_Meta ispnInstance) of
                               Inl _ \<Rightarrow> ispnInstance
                             | Inr m \<Rightarrow> ispnInstance\<lparr>ispn_Meta := m\<rparr>) in
         bindM (createM (infinispans r) ispnInstance) (\<lambda>_. returnM ())))
       else failM (Err ''Failed to create CacheStore as Infinispan Operator not found''))"

definition createCacheStoreSecret :: "'w Reconciler \<Rightarrow> InfinispanDetails \<Rightarrow> ObjectMeta \<Rightarrow> ('w, unit) M" where
  "createCacheStoreSecret r ispn owner =
     (let create = (if CreateIfNotFound ispn then ''FALSE'' else ''TRUE'');
          data = [(''name'', ispn_Name ispn), (''namespace'', NameSpace ispn), (''username'', User ispn),
            (''password'', Password ispn), (''url'', ispn_Name ispn @ '':11222''), (''create'', create),
            (''replicas'', Itoa (det_Replicas ispn))] in
      CreateSecret r (ispn_Name ispn) (NameSpace ispn) (Some owner) data)"

definition cacheStore_CanHandle :: "VirtualDatabase \<Rightarrow> bool" where
  "cacheStore_CanHandle vdb = (vdb_Phase vdb = ReconcilerPhaseCreateCacheStore)"

definition defaultDetails :: "VirtualDatabase \<Rightarrow> string \<Rightarrow> InfinispanDetails" where
  "defaultDetails vdb pw =
     emptyDetails\<lparr>ispn_Name := vdb_Name vdb @ ''-cache-store'', NameSpace := vdb_Namespace vdb,
       CreateIfNotFound := True, det_Replicas := 3, User := ''developer'', Password := pw\<rparr>"

definition cacheStore_Handle :: "'w Reconciler \<Rightarrow> 'w handler" where
  "cacheStore_Handle r =
     bindM getV (\<lambda>vdb.
     bindM (liftW (IgnoreCacheStore r vdb)) (\<lambda>ignore.
       if ignore then modV (setPhase ReconcilerPhaseS2IReady)
       else
         tryM (liftW (Credentials r (vdb_Name vdb) (vdb_Namespace vdb))) (\<lambda>c.
         bindM (case c of
                  Inr config \<Rightarrow> returnM (config, True)
                | Inl _ \<Rightarrow> bindM (liftW (RandomPassword r)) (\<lambda>pw. returnM (defaultDetails vdb pw, False)))
           (\<lambda>(config, secretFound).
         bindM (if CreateIfNotFound config
                then tryM (liftW (createNewCacheStore r config (vdb_Meta vdb))) (\<lambda>x. case x of
                       Inl _ \<Rightarrow> returnM ()
                     | Inr _ \<Rightarrow>
                         bindM (modV (setCacheStore (NameSpace config @ ''/'' @ ispn_Name config))) (\<lambda>_.
                           if \<not> secretFound
                           then tryM (liftW (createCacheStoreSecret r config (vdb_Meta vdb))) (\<lambda>_. returnM ())
                           else returnM ()))
                else returnM ())
           (\<lambda>_. modV (setPhase ReconcilerPhaseS2IReady))))))"

definition NewCacheStoreAction :: "'w Reconciler \<Rightarrow> 'w Step" where
  [new_action]: "NewCacheStoreAction r = \<lparr>step_Name = ''cachestore'', CanHandle = cacheStore_CanHandle, Handle = cacheStore_Handle r\<rparr>"

section \<open>Lemmas\<close>

lemma cacheStore_post:
  assumes "\<And>p. Q (Panic p) v" "\<And>e. Q (Fail e) v" "Q (Ok ()) (setPhase ReconcilerPhaseS2IReady v)"
    and "\<And>d. Q (Ok ()) (setPhase ReconcilerPhaseS2IReady (setCacheStore d v))" "\<And>p d. Q (Panic p) (setCacheStore d v)"
  shows "post v (cacheStore_Handle r) Q"
  unfolding cacheStore_Handle_def
  by (rule wp | simp add: assms)+

interpretation cache_store: action cacheStore_CanHandle "cacheStore_Handle r"
  "{(ReconcilerPhaseCreateCacheStore, ReconcilerPhaseS2IReady)}" for r
  by unfold_locales (auto simp: cacheStore_CanHandle_def digestInput_def intro!: cacheStore_post)

lemma succeeds_ispn: "succeeds (IsInfinispanOperatorAvailable r ns)"
  unfolding IsInfinispanOperatorAvailable_def IsInfinispanCRDAvailable_def
  by (auto intro!: succeeds_bindM succeeds_tryM succeeds_has np split: sum.split prod.split)

lemma succeeds_IgnoreCacheStore: "succeeds (IgnoreCacheStore r vdb)"
  unfolding IgnoreCacheStore_def Let_def by (intro succeeds_tryM succeeds_returnM succeeds_noPanic succeeds_ispn)

lemma noPanic_cachestore [np]:
  "noPanic (configurationExists r n ns)" "noPanic (Credentials r n ns)" "noPanic (createCacheStoreSecret r d m)"
  "noPanic (CredentialsAsEnv r n ns)"
  unfolding configurationExists_def Credentials_def createCacheStoreSecret_def CredentialsAsEnv_def by (rule np)+

lemma noPanic_createNewCacheStore: "rand_contract r \<Longrightarrow> noPanic (createNewCacheStore r d m)"
  unfolding createNewCacheStore_def
  by (rule np succeeds_noPanic [OF succeeds_ispn] | simp add: succeeds_noPanic succeeds_RandomPassword)+

section \<open>Properties\<close>

text \<open>
  The cache store action always succeeds and hands over to the builder image, whatever the
  cluster answers: a missing operator, a missing configuration and a failing creation are all
  absorbed, and only the phase and the name of the cache store change.
\<close>

theorem cacheStore_Handle_total:
  assumes "rand_contract r"
  shows "post v (cacheStore_Handle r) (\<lambda>res v'. res = Ok () \<and> vdb_Phase v' = ReconcilerPhaseS2IReady \<and>
    (\<exists>d. v' = setPhase ReconcilerPhaseS2IReady (setCacheStore d v)))"
proof -
  have id: "setCacheStore (CacheStore (Status v)) v = v" by (simp add: set_status setStatus_def)
  show ?thesis
    unfolding cacheStore_Handle_def
    by (rule post_liftW_bind_succeeds [OF succeeds_IgnoreCacheStore]
        post_liftW_bind_succeeds [OF succeeds_RandomPassword [OF assms]]
        post_liftW_try_noPanic [OF noPanic_cachestore(2)] post_liftW_try_noPanic [OF noPanic_cachestore(3)]
        post_liftW_try_noPanic [OF noPanic_createNewCacheStore [OF assms]] wp | simp | metis id)+
qed

theorem cacheStore_Handle_total_witness:
  "post emptyVdb (cacheStore_Handle emptyCluster) (\<lambda>res v'. res = Ok () \<and> vdb_Phase v' = ReconcilerPhaseS2IReady \<and>
    (\<exists>d. v' = setPhase ReconcilerPhaseS2IReady (setCacheStore d emptyVdb)))"
  by (rule cacheStore_Handle_total) (simp add: rand_contract_def emptyCluster_def)

text \<open>
  A cache store that the user configures by a secret is never recorded in the status. When the
  secret can be read, the action moves on without touching the name of the cache store, whatever the
  secret says about creation; and the deployment takes the credentials only when that name is set.
\<close>

theorem cacheStore_Handle_user_secret:
  assumes "secrets r = constClient s"
  shows "post v (cacheStore_Handle r) (\<lambda>res v'. res = Ok () \<and> v' = setPhase ReconcilerPhaseS2IReady v)"
proof -
  have "Credentials r n ns w = (Ok (readInfinispanDetails s), w)" for n ns w
    by (simp add: Credentials_def configurationExists_def GetSecret_def assms constClient_def monad_defs)
  then have "tryM (liftW (Credentials r n ns)) f = f (Inr (readInfinispanDetails s))"
    for n ns and f :: "error + InfinispanDetails \<Rightarrow> (VirtualDatabase \<times> 'a, unit) M"
    by (simp add: fun_eq_iff tryM_def liftW_def)
  moreover have "\<not> CreateIfNotFound (readInfinispanDetails s)"
    by (simp add: readInfinispanDetails_def emptyDetails_def)
  ultimately show ?thesis
    unfolding cacheStore_Handle_def
    by (intro post_getV_bind post_liftW_bind_succeeds [OF succeeds_IgnoreCacheStore] post_if)
      (simp_all add: post_modV)
qed

theorem cacheStore_Handle_user_secret_witness:
  "post emptyVdb (cacheStore_Handle (emptyCluster\<lparr>secrets := constClient \<lparr>sec_Meta = objectMeta ''x'' ''y'',
       sec_Type = [], sec_Data = [(''create'', ''TRUE'')], StringData = []\<rparr>\<rparr>))
     (\<lambda>res v'. res = Ok () \<and> v' = setPhase ReconcilerPhaseS2IReady emptyVdb)"
  by (rule cacheStore_Handle_user_secret) simp

end
