(* ===== verification/Image.thy ===== *)
theory Image
  imports Kubernetes_Util
begin

text \<open>\<open>pkg/util/image/image.go\<close>: the image streams a build reads from and writes to.\<close>

definition imageStream :: "string \<Rightarrow> string \<Rightarrow> ImageStream" where
  "imageStream nam namespace = \<lparr>is_Meta = objectMeta nam namespace, Tags = [], LookupLocal = False\<rparr>"

definition CheckImageStream :: "'w Reconciler \<Rightarrow> string \<Rightarrow> string \<Rightarrow> ('w, bool) M" where
  "CheckImageStream r name namespace =
     (let result = Split name CHR '':'' in
      tryM (getM (imageStreams r) namespace (hd result)) (\<lambda>x. case x of Inl _ \<Rightarrow> returnM False | Inr _ \<Rightarrow> returnM True))"

text \<open>
  A failing \<open>Create\<close> is not reported: the branch taken for an error other than
  \<open>AlreadyExists\<close> only writes a log line.
\<close>

definition createLocalImageStream ::
  "'w Reconciler \<Rightarrow> string \<Rightarrow> string \<Rightarrow> bool \<Rightarrow> ObjectMeta \<Rightarrow> ('w, unit) M" where
  "createLocalImageStream r tagRefName namespace setOwner owner =
     (let result = Split tagRefName CHR '':'';
          result = (if length result = 1 then result @ [''latest''] else result);
          isnew = (imageStream (hd result) namespace)\<lparr>LookupLocal := True\<rparr> in
      bindM (if setOwner
             then (case setControllerReference r owner (is_Meta isnew) of
                     Inl e \<Rightarrow> failM e
                   | Inr m \<Rightarrow> returnM (isnew\<lparr>is_Meta := m\<rparr>))
             else returnM isnew)
        (\<lambda>isnew. tryM (createM (imageStreams r) isnew) (\<lambda>_. returnM ())))"

definition EnsureImageStream ::
  "'w Reconciler \<Rightarrow> string \<Rightarrow> string \<Rightarrow> bool \<Rightarrow> ObjectMeta \<Rightarrow> ('w, string) M" where
  "EnsureImageStream r name namespace setOwner owner =
     bindM (CheckImageStream r name namespace) (\<lambda>exists.
       if exists then returnM namespace
       else bindM (createLocalImageStream r name namespace setOwner owner) (\<lambda>_. returnM namespace))"

definition CreateImageStream :: "'w Reconciler \<Rightarrow> string \<Rightarrow> string \<Rightarrow> string \<Rightarrow> string \<Rightarrow> ('w, unit) M" where
  "CreateImageStream r name namespace dockerImage tag =
     (let isnew = (imageStream name namespace)\<lparr>Tags :=
            [\<lparr>tag_Name = tag, tag_From = Some \<lparr>ref_Kind = ''DockerImage'', ref_Name = dockerImage @ '':'' @ tag,
               ref_Namespace = []\<rparr>\<rparr>]\<rparr> in
      tryM (createM (imageStreams r) isnew) (\<lambda>_. returnM ()))"

lemma noPanic_image [np]:
  "noPanic (CheckImageStream r n ns)" "noPanic (createLocalImageStream r n ns b m)"
  "noPanic (EnsureImageStream r n ns b m)" "noPanic (CreateImageStream r n ns d t)"
  unfolding EnsureImageStream_def CheckImageStream_def createLocalImageStream_def CreateImageStream_def
  by (rule np)+

section \<open>Properties\<close>

text \<open>
  Creating the image stream of the build image reports success whatever the API server
  answers, so a build image that could not be created goes unnoticed until its tag is looked up.
\<close>

theorem CreateImageStream_reports_success: "\<exists>w'. CreateImageStream r name namespace dockerImage tag w = (Ok (), w')"
  unfolding CreateImageStream_def
  by (auto simp: Let_def tryM_def returnM_def createM_def callM_def of_sum_Ok_iff split: prod.split res.split)

end
