(* ===== verification/Proxy.thy ===== *)
theory Proxy
  imports Envvar Regexp "HOL-Library.AList"
begin

text \<open>
  \<open>pkg/util/proxy/proxy.go\<close>: passing the cluster's HTTP proxy settings down to the operand, as
  environment variables and as Java system properties. The process environment is the
  parameter \<open>osenv\<close>; a Go map assignment \<open>m[k] = v\<close> is \<open>AList.update k v m\<close>.
\<close>

section \<open>Operations\<close>

definition Getenv :: "(string \<Rightarrow> string option) \<Rightarrow> string \<Rightarrow> string" where
  "Getenv osenv k = (case osenv k of None \<Rightarrow> [] | Some v \<Rightarrow> v)"

fun joinNoProxy :: "string \<Rightarrow> string list \<Rightarrow> string" where
  "joinNoProxy acc [] = acc"
| "joinNoProxy acc (s # ss) =
     joinNoProxy (if acc = [] then TrimSpaces s else acc @ ''|'' @ TrimSpaces s) ss"

definition parseNoProxy :: "string \<Rightarrow> string" where
  "parseNoProxy value = joinNoProxy [] (Split value CHR '','')"

text \<open>\<open>^https?://\<close>, shared by both expressions.\<close>

definition rxScheme :: rx where
  "rxScheme = seqs [Bol, lit ''http'', Opt (ch CHR ''s''), lit ''://'']"

definition rxDigits :: rx where
  "rxDigits = Plus (CS IsDigit)"

text \<open>\<open>^https?://(?P<proxyHost>[^@].*):(?P<proxyPort>\d+)\<close>.\<close>

definition regEx :: rx where
  "regEx = seqs [rxScheme, Grp 1 (Seq (none_of ''@'') (Star dot)), ch CHR '':'', Grp 2 rxDigits]"

definition regExNames :: "string list" where
  "regExNames = [''proxyHost'', ''proxyPort'']"

text \<open>
  \<open>^https?://(?P<proxyUser>[^@].*):(?P<proxyPassword>.*)@(?P<proxyHost>.*):(?P<proxyPort>\d+)\<close>.
\<close>

definition regExWithUser :: rx where
  "regExWithUser =
     seqs [rxScheme, Grp 1 (Seq (none_of ''@'') (Star dot)), ch CHR '':'', Grp 2 (Star dot), ch CHR ''@'',
       Grp 3 (Star dot), ch CHR '':'', Grp 4 rxDigits]"

definition regExWithUserNames :: "string list" where
  "regExWithUserNames = [''proxyUser'', ''proxyPassword'', ''proxyHost'', ''proxyPort'']"

text \<open>The loop over \<open>SubexpNames\<close>: group \<open>i\<close> is stored under the name of the group.\<close>

fun storeGroups :: "string \<Rightarrow> (nat \<Rightarrow> string) \<Rightarrow> nat \<Rightarrow> string list \<Rightarrow> string gomap \<Rightarrow> string gomap" where
  "storeGroups pre match i [] m = m"
| "storeGroups pre match i (n # ns) m = storeGroups pre match (Suc i) ns (AList.update (pre @ n) (match i) m)"

definition parseHTTPProxy :: "string \<Rightarrow> string gomap" where
  "parseHTTPProxy url =
     (let pre = (if prefix ''https'' url then ''https.'' else ''http.'') in
      case FindStringSubmatch regExWithUser url of
        Some match \<Rightarrow> storeGroups pre match 1 regExWithUserNames []
      | None \<Rightarrow>
          (case FindStringSubmatch regEx url of
             Some match \<Rightarrow> storeGroups pre match 1 regExNames []
           | None \<Rightarrow> []))"

definition passDown :: "(string \<Rightarrow> string option) \<Rightarrow> string \<Rightarrow> EnvVar list \<Rightarrow> EnvVar list" where
  "passDown osenv k envs = (case osenv k of Some v \<Rightarrow> SetVal envs k v | None \<Rightarrow> envs)"

definition HTTPSettings :: "(string \<Rightarrow> string option) \<Rightarrow> EnvVar list \<Rightarrow> EnvVar list \<times> string gomap" where
  "HTTPSettings osenv envs0 =
     (let userDefinedProxy =
            Get envs0 ''HTTPS_PROXY'' \<noteq> None \<or> Get envs0 ''HTTP_PROXY'' \<noteq> None \<or> Get envs0 ''NO_PROXY'' \<noteq> None;
          clusterDefinedProxy =
            Getenv osenv ''HTTPS_PROXY'' \<noteq> [] \<or> Getenv osenv ''HTTP_PROXY'' \<noteq> [] \<or> Getenv osenv ''NO_PROXY'' \<noteq> [];
          envs =
            (if \<not> userDefinedProxy \<and> clusterDefinedProxy
             then passDown osenv ''NO_PROXY'' (passDown osenv ''HTTP_PROXY'' (passDown osenv ''HTTPS_PROXY'' envs0))
             else envs0);
          props0 = (case Get envs ''HTTPS_PROXY'' of None \<Rightarrow> [] | Some e \<Rightarrow> parseHTTPProxy (ev_Value e));
          props1 = (case Get envs ''HTTP_PROXY'' of None \<Rightarrow> props0 | Some e \<Rightarrow> parseHTTPProxy (ev_Value e));
          props2 = (case Get envs ''NO_PROXY'' of
                      None \<Rightarrow> props1
                    | Some e \<Rightarrow>
                        (let nonProxyHosts = parseNoProxy (ev_Value e) in
                         if nonProxyHosts \<noteq> [] then AList.update ''http.nonProxyHosts'' nonProxyHosts props1 else props1))
      in (envs, props2))"

definition proxyNames :: "string list" where
  "proxyNames = [''HTTPS_PROXY'', ''HTTP_PROXY'', ''NO_PROXY'']"

section \<open>Lemmas\<close>

lemma joinNoProxy_acc:
  "acc \<noteq> [] \<Longrightarrow> joinNoProxy acc ss = Join (acc # map TrimSpaces ss) ''|''"
proof (induction ss arbitrary: acc)
  case Nil
  then show ?case by simp
next
  case (Cons s ss)
  then have "joinNoProxy acc (s # ss) = Join ((acc @ ''|'' @ TrimSpaces s) # map TrimSpaces ss) ''|''"
    by simp
  then show ?case by (cases ss) simp_all
qed

lemma Get_passDown:
  "Get (passDown osenv k envs) n =
     (if n = k \<and> osenv k \<noteq> None then Some \<lparr>ev_Name = k, ev_Value = the (osenv k), ValueFrom = None\<rparr>
      else Get envs n)"
  by (auto simp: passDown_def set_val.put_same set_val.put_other split: option.split)

lemma passDown_unique: "unique_names envs \<Longrightarrow> unique_names (passDown osenv k envs)"
  by (simp add: passDown_def set_val.put_unique split: option.split)

definition userProxy :: "EnvVar list \<Rightarrow> bool" where
  "userProxy envs \<longleftrightarrow> (\<exists>n \<in> set proxyNames. Get envs n \<noteq> None)"

definition clusterProxy :: "(string \<Rightarrow> string option) \<Rightarrow> bool" where
  "clusterProxy osenv \<longleftrightarrow> (\<exists>n \<in> set proxyNames. Getenv osenv n \<noteq> [])"

lemma HTTPSettings_envs:
  "fst (HTTPSettings osenv envs) =
     (if \<not> userProxy envs \<and> clusterProxy osenv
      then passDown osenv ''NO_PROXY'' (passDown osenv ''HTTP_PROXY'' (passDown osenv ''HTTPS_PROXY'' envs))
      else envs)"
  by (simp add: HTTPSettings_def userProxy_def clusterProxy_def proxyNames_def Let_def)

lemma HTTPSettings_unique: "unique_names envs \<Longrightarrow> unique_names (fst (HTTPSettings osenv envs))"
  by (simp add: HTTPSettings_envs passDown_unique)

text \<open>Names other than the three proxy variables are never touched.\<close>

lemma Get_HTTPSettings_other:
  "n \<notin> set proxyNames \<Longrightarrow> Get (fst (HTTPSettings osenv envs)) n = Get envs n"
  unfolding HTTPSettings_envs by (simp add: Get_passDown proxyNames_def)

lemma Get_HTTPSettings_mono:
  assumes "Get envs n \<noteq> None"
  shows "Get (fst (HTTPSettings osenv envs)) n = Get envs n"
proof (cases "n \<in> set proxyNames")
  case True
  with assms have "userProxy envs" by (auto simp: userProxy_def)
  then show ?thesis by (simp add: HTTPSettings_envs)
next
  case False
  then show ?thesis by (rule Get_HTTPSettings_other)
qed

lemmas rx_eval = seqs.simps lit_def ch_def Opt_def

lemma matches_rxScheme_http: "matches rxScheme (St 0 (''http://'' @ s) c) = [St 7 s c]"
  by (simp add: rxScheme_def rx_eval)

lemma matches_rxScheme_https: "matches rxScheme (St 0 (''https://'' @ s) c) = [St 8 s c]"
  by (simp add: rxScheme_def rx_eval)

lemma leads_digits:
  assumes "port \<noteq> []" and "list_all IsDigit port"
  shows "leads (Seq (ch CHR '':'') (Grp m rxDigits)) (St i (CHR '':'' # port) c)
    (St (Suc i + length port) [] (c(m := Some port)))"
proof (rule leads_Seq [OF leads_ch])
  have "leads rxDigits (St (Suc i) (port @ []) c) (St (Suc i + length port) [] c)"
    unfolding rxDigits_def using assms by (intro leads_Plus_run) auto
  then show "leads (Grp m rxDigits) (St (Suc i) port c) (St (Suc i + length port) [] (c(m := Some port)))"
    using leads_Grp_text [of rxDigits "Suc i" port "[]" c] by simp
qed

lemma no_colon_later:
  assumes "list_all IsDigit port" and "length host < n"
  shows "matches (Seq (ch CHR '':'') r) (St i (drop n (host @ CHR '':'' # port)) c) = []"
proof -
  obtain j where n: "n = Suc (length host + j)" using assms(2) by (metis less_iff_Suc_add)
  have "drop n (host @ CHR '':'' # port) = drop j port" by (simp add: n)
  moreover have "CHR '':'' \<notin> set (drop j port)"
    using assms(1) by (auto simp: list_all_iff char_ranges dest!: in_set_dropD)
  ultimately show ?thesis by (simp add: forces_matches [of "CHR '':''"])
qed

lemma leads_host_port:
  assumes host: "host \<noteq> []" "CHR ''@'' \<notin> set host" "CHR 0x0A \<notin> set host"
    and port: "port \<noteq> []" "list_all IsDigit port"
  shows "leads (Seq (Grp 1 (Seq (none_of ''@'') (Star dot))) (Seq (ch CHR '':'') (Grp 2 rxDigits)))
    (St i (host @ CHR '':'' # port) c)
    (St (Suc (i + length host + length port)) [] (c(1 := Some host, 2 := Some port)))"
proof -
  obtain a h where h: "host = a # h" using host(1) by (cases host) auto
  have "CHR 0x0A \<notin> set port" using port(2) by (auto simp: list_all_iff char_ranges)
  with host(3) h have line: "list_all (\<lambda>c. c \<noteq> CHR 0x0A) (h @ CHR '':'' # port)"
    by (auto simp: list_all_iff)
  have cand: "matches (Grp 1 (Seq (none_of ''@'') (Star dot))) (St i (a # h @ CHR '':'' # port) c) =
     map (\<lambda>n. St (Suc i + n) (drop n (h @ CHR '':'' # port))
            (c(1 := Some (a # take n (h @ CHR '':'' # port)))))
       (rev [0..<Suc (length (h @ CHR '':'' # port))])"
    unfolding none_of_def dot_def
    by (rule matches_Grp_CS_Star) (use host(2) h line in auto)
  have "leads (Seq (Grp 1 (Seq (none_of ''@'') (Star dot))) (Seq (ch CHR '':'') (Grp 2 rxDigits)))
      (St i (a # h @ CHR '':'' # port) c)
      (St (Suc (Suc i + length h) + length port) [] (c(1 := Some (a # h), 2 := Some port)))"
  proof (rule leads_Seq_candidates [OF cand, of "length h"])
    show "length h \<le> length (h @ CHR '':'' # port)" by simp
  next
    fix n assume "length h < n"
    then show "matches (Seq (ch CHR '':'') (Grp 2 rxDigits)) (St (Suc i + n) (drop n (h @ CHR '':'' # port))
        (c(1 := Some (a # take n (h @ CHR '':'' # port))))) = []"
      by (rule no_colon_later [OF port(2)])
  next
    show "leads (Seq (ch CHR '':'') (Grp 2 rxDigits)) (St (Suc i + length h) (drop (length h) (h @ CHR '':'' # port))
        (c(1 := Some (a # take (length h) (h @ CHR '':'' # port)))))
      (St (Suc (Suc i + length h) + length port) [] (c(1 := Some (a # h), 2 := Some port)))"
      using leads_digits [OF port, of 2 "Suc i + length h"] by simp
  qed
  then show ?thesis by (simp add: h)
qed

lemma Get_HTTPSettings_added:
  assumes "\<not> userProxy envs" and "clusterProxy osenv" and "n \<in> set proxyNames"
  shows "map_option ev_Value (Get (fst (HTTPSettings osenv envs)) n) = osenv n"
proof -
  have none: "Get envs n = None" using assms(1,3) by (auto simp: userProxy_def)
  have "n = ''HTTPS_PROXY'' \<or> n = ''HTTP_PROXY'' \<or> n = ''NO_PROXY''"
    using assms(3) by (simp add: proxyNames_def)
  then show ?thesis
    using assms(1,2) none unfolding HTTPSettings_envs
    by (elim disjE; cases "osenv n") (simp_all add: Get_passDown)
qed

lemma parseHTTPProxy_props:
  assumes "host \<noteq> []" "CHR ''@'' \<notin> set host" "CHR 0x0A \<notin> set host"
    and "port \<noteq> []" "list_all IsDigit port"
  shows "parseHTTPProxy (''http://'' @ host @ '':'' @ port) =
    [(''http.proxyHost'', host), (''http.proxyPort'', port)]"
proof -
  let ?url = "''http://'' @ host @ CHR '':'' # port"
  have "CHR ''@'' \<notin> set port" using assms(5) by (auto simp: list_all_iff char_ranges)
  with assms(2) have "CHR ''@'' \<notin> set ?url" by auto
  then have user: "search regExWithUser 0 ?url = None"
    by (intro forces_search [of "CHR ''@''"]) (auto simp: regExWithUser_def)
  have "leads regEx (St 0 ?url Map.empty)
      (St (Suc (7 + length host + length port)) [] (Map.empty(1 := Some host, 2 := Some port)))"
    unfolding regEx_def seqs.simps
    by (rule leads_Seq [OF _ leads_host_port [OF assms]])
      (simp only: leads_def matches_rxScheme_http, blast)
  from search_leads [OF this] user show ?thesis
    by (simp add: parseHTTPProxy_def FindStringSubmatch_def regExNames_def)
qed

section \<open>Properties\<close>

text \<open>
  A proxy URL without credentials, \<open>http://host:port\<close>, is split at its last colon into the
  Java properties \<open>http.proxyHost\<close> and \<open>http.proxyPort\<close>, for every non-empty host that holds no
  at sign and no newline and every decimal port.
\<close>

theorem parseHTTPProxy_host_port:
  assumes "host \<noteq> []" "CHR ''@'' \<notin> set host" "CHR 0x0A \<notin> set host"
    and "port \<noteq> []" "list_all IsDigit port"
  shows "parseHTTPProxy (''http://'' @ host @ '':'' @ port) =
    [(''http.proxyHost'', host), (''http.proxyPort'', port)]"
  using assms by (rule parseHTTPProxy_props)

theorem parseHTTPProxy_host_port_witness:
  "parseHTTPProxy (''http://'' @ ''myhost'' @ '':'' @ ''8080'') =
     [(''http.proxyHost'', ''myhost''), (''http.proxyPort'', ''8080'')]"
  by (rule parseHTTPProxy_host_port) (simp_all add: char_ranges)

text \<open>
  Proxy variables the user sets are left alone, and so is every other variable; the
  cluster's proxy variables are only added when the user has set none of the three.
\<close>

theorem HTTPSettings_frame:
  "(userProxy envs \<longrightarrow> fst (HTTPSettings osenv envs) = envs) \<and>
   (\<forall>n. Get envs n \<noteq> None \<longrightarrow> Get (fst (HTTPSettings osenv envs)) n = Get envs n) \<and>
   (\<forall>n. n \<notin> set proxyNames \<longrightarrow> Get (fst (HTTPSettings osenv envs)) n = Get envs n) \<and>
   (\<not> userProxy envs \<and> clusterProxy osenv \<longrightarrow>
      (\<forall>n \<in> set proxyNames. map_option ev_Value (Get (fst (HTTPSettings osenv envs)) n) = osenv n))"
  using Get_HTTPSettings_added Get_HTTPSettings_mono Get_HTTPSettings_other HTTPSettings_envs by metis

theorem HTTPSettings_frame_witness:
  "fst (HTTPSettings [''NO_PROXY'' \<mapsto> ''svc''] [plainEnv ''HTTP_PROXY'' ''http://h:1'']) =
     [plainEnv ''HTTP_PROXY'' ''http://h:1''] \<and>
   map_option ev_Value (Get (fst (HTTPSettings [''NO_PROXY'' \<mapsto> ''svc''] [])) ''NO_PROXY'') = Some ''svc''"
proof -
  have "userProxy [plainEnv ''HTTP_PROXY'' ''http://h:1'']"
    by (simp add: userProxy_def proxyNames_def plainEnv_def)
  moreover have "\<not> userProxy []" and "clusterProxy [''NO_PROXY'' \<mapsto> ''svc'']"
    and "''NO_PROXY'' \<in> set proxyNames"
    by (simp_all add: userProxy_def clusterProxy_def proxyNames_def Getenv_def)
  ultimately show ?thesis
    using HTTPSettings_frame [of "[plainEnv ''HTTP_PROXY'' ''http://h:1'']" "[''NO_PROXY'' \<mapsto> ''svc'']"]
      HTTPSettings_frame [of "[]" "[''NO_PROXY'' \<mapsto> ''svc'']"]
    by fastforce
qed

text \<open>
  When both \<open>HTTPS_PROXY\<close> and \<open>HTTP_PROXY\<close> are set, the properties parsed from
  \<open>HTTPS_PROXY\<close> are overwritten: with an \<open>http://\<close> URL in \<open>HTTP_PROXY\<close> no \<open>https.*\<close> property is
  handed to Java.
\<close>

theorem HTTPSettings_https_lost:
  assumes "Get envs ''HTTPS_PROXY'' = Some e" and "Get envs ''HTTP_PROXY'' = Some e'"
    and "ev_Value e' = ''http://'' @ host @ '':'' @ port"
    and "host \<noteq> []" "CHR ''@'' \<notin> set host" "CHR 0x0A \<notin> set host"
    and "port \<noteq> []" "list_all IsDigit port"
  shows "list_all (\<lambda>k. \<not> prefix ''https.'' k) (map fst (snd (HTTPSettings osenv envs)))"
proof -
  have "snd (HTTPSettings osenv envs) = [(''http.proxyHost'', host), (''http.proxyPort'', port)] \<or>
    (\<exists>v. snd (HTTPSettings osenv envs) =
       AList.update ''http.nonProxyHosts'' v [(''http.proxyHost'', host), (''http.proxyPort'', port)])"
    using assms(1-3) parseHTTPProxy_props [OF assms(4-8)]
    by (auto simp: HTTPSettings_def Let_def split: option.split)
  then show ?thesis by auto
qed

theorem HTTPSettings_https_lost_witness:
  "list_all (\<lambda>k. \<not> prefix ''https.'' k) (map fst (snd (HTTPSettings Map.empty
      [plainEnv ''HTTPS_PROXY'' ''https://secure:8443'', plainEnv ''HTTP_PROXY'' ''http://myhost:8080''])))"
  by (rule HTTPSettings_https_lost [where host = "''myhost''" and port = "''8080''" and
        e = "plainEnv ''HTTPS_PROXY'' ''https://secure:8443''" and
        e' = "plainEnv ''HTTP_PROXY'' ''http://myhost:8080''"])
    (simp_all add: plainEnv_def char_ranges)

end
