(* ===== verification/Zip.thy ===== *)
theory Zip
  imports Cluster
begin

text \<open>
  \<open>pkg/util/zip/zip.go\<close>: unpacking an archive below a directory, with the check against entries
  that escape from it. \<open>filepath.Clean\<close>, \<open>filepath.Join\<close> and \<open>filepath.Dir\<close> are those of Go on
  Unix.
\<close>

section \<open>Paths\<close>

fun cleanStack :: "bool \<Rightarrow> string list \<Rightarrow> string list \<Rightarrow> string list" where
  "cleanStack rooted out [] = rev out"
| "cleanStack rooted out (c # cs) =
     (if c = [] \<or> c = ''.'' then cleanStack rooted out cs
      else if c = ''..''
      then (case out of
              [] \<Rightarrow> cleanStack rooted (if rooted then [] else [''..'']) cs
            | d # ds \<Rightarrow> cleanStack rooted (if d = ''..'' then ''..'' # out else ds) cs)
      else cleanStack rooted (c # out) cs)"

definition IsAbs :: "string \<Rightarrow> bool" where
  "IsAbs p \<longleftrightarrow> p \<noteq> [] \<and> hd p = CHR ''/''"

definition Clean :: "string \<Rightarrow> string" where
  "Clean p =
     (let comps = cleanStack (IsAbs p) [] (Split p CHR ''/'') in
      if IsAbs p then ''/'' @ Join comps ''/''
      else if comps = [] then ''.'' else Join comps ''/'')"

text \<open>\<open>filepath.Join\<close> of two elements.\<close>

definition filepathJoin :: "string \<Rightarrow> string \<Rightarrow> string" where
  "filepathJoin a b =
     (if a \<noteq> [] then Clean (a @ ''/'' @ b) else if b \<noteq> [] then Clean b else [])"

definition upToLastSlash :: "string \<Rightarrow> string" where
  "upToLastSlash p = rev (dropWhile (\<lambda>c. c \<noteq> CHR ''/'') (rev p))"

definition Dir :: "string \<Rightarrow> string" where
  "Dir p = Clean (upToLastSlash p)"

section \<open>Unpacking\<close>

text \<open>
  The result is the pair of the names written down so far and the error, if any. The result of
  the first \<open>MkdirAll\<close> is ignored, as in the code.
\<close>

fun unzipFiles :: "'w Reconciler \<Rightarrow> string \<Rightarrow> ZipEntry list \<Rightarrow> string list \<Rightarrow> ('w, string list \<times> error option) M" where
  "unzipFiles r dest [] filenames = returnM (filenames, None)"
| "unzipFiles r dest (f # fs) filenames =
     (let fpath = filepathJoin dest (zip_Name f) in
      if \<not> prefix (Clean dest @ ''/'') fpath
      then returnM (filenames, Some (Err (fpath @ '': illegal file path'')))
      else (let filenames = filenames @ [fpath] in
        if IsDir f
        then tryM (callM (MkdirAll r fpath)) (\<lambda>_. unzipFiles r dest fs filenames)
        else tryM (callM (MkdirAll r (Dir fpath))) (\<lambda>x. case x of
               Inl e \<Rightarrow> returnM (filenames, Some e)
             | Inr _ \<Rightarrow> tryM (callM (fileCreate r fpath)) (\<lambda>x. case x of
                 Inl e \<Rightarrow> returnM (filenames, Some e)
               | Inr _ \<Rightarrow> tryM (callM (zipEntryOpen r f)) (\<lambda>x. case x of
                   Inl e \<Rightarrow> returnM (filenames, Some e)
                 | Inr body \<Rightarrow> tryM (callM (fileWrite r fpath body)) (\<lambda>x. case x of
                     Inl e \<Rightarrow> returnM (filenames, Some e)
                   | Inr _ \<Rightarrow> unzipFiles r dest fs filenames))))))"

definition Unzip :: "'w Reconciler \<Rightarrow> string \<Rightarrow> string \<Rightarrow> ('w, string list \<times> error option) M" where
  "Unzip r src dest =
     tryM (callM (zipOpenReader r src)) (\<lambda>x. case x of
       Inl e \<Rightarrow> returnM ([], Some e)
     | Inr files \<Rightarrow> unzipFiles r dest files [])"

section \<open>Lemmas\<close>

text \<open>A plain component: neither empty nor one of the dots, and without a separator.\<close>

definition plain :: "string \<Rightarrow> bool" where
  "plain c \<longleftrightarrow> c \<noteq> [] \<and> c \<noteq> ''.'' \<and> c \<noteq> ''..'' \<and> CHR ''/'' \<notin> set c"

lemma cleanStack_plain:
  "list_all plain out \<Longrightarrow> list_all (\<lambda>c. CHR ''/'' \<notin> set c) cs \<Longrightarrow> list_all plain (cleanStack True out cs)"
proof (induction cs arbitrary: out)
  case (Cons c cs)
  then have IH: "list_all plain out' \<Longrightarrow> list_all plain (cleanStack True out' cs)" for out' by simp
  show ?case
  proof (cases "c = [] \<or> c = ''.'' \<or> c = ''..''")
    case True
    moreover have "d \<noteq> ''..''" if "plain d" for d using that by (simp add: plain_def)
    ultimately show ?thesis using Cons.prems IH by (cases out) auto
  next
    case False
    with Cons.prems have "plain c" by (simp add: plain_def)
    with False Cons.prems IH show ?thesis by simp
  qed
qed (simp add: list_all_iff)

lemma cleanStack_id: "list_all plain cs \<Longrightarrow> cleanStack rooted out cs = rev out @ cs"
  by (induction cs arbitrary: out) (auto simp: plain_def)

lemma Split_comps: "list_all (\<lambda>c. CHR ''/'' \<notin> set c) (Split p CHR ''/'')"
  by (auto simp: list_all_iff dest: Split_no_sep)

lemma Clean_abs:
  assumes "IsAbs p"
  obtains comps where "Clean p = ''/'' @ Join comps ''/''" and "list_all plain comps"
proof
  show "Clean p = ''/'' @ Join (cleanStack True [] (Split p CHR ''/'')) ''/''"
    using assms by (simp add: Clean_def)
  show "list_all plain (cleanStack True [] (Split p CHR ''/''))"
    by (rule cleanStack_plain) (simp_all add: Split_comps)
qed

lemma Split_Join:
  assumes "cs \<noteq> []" and "list_all (\<lambda>c. CHR ''/'' \<notin> set c) cs"
  shows "Split (Join cs ''/'') CHR ''/'' = cs"
  using assms
proof (induction cs)
  case (Cons c cs)
  then show ?case by (cases cs) (simp_all add: Split_no_occ Split_append_sep)
qed simp

text \<open>A rooted path below a directory whose components are plain.\<close>

definition below :: "string \<Rightarrow> string \<Rightarrow> bool" where
  "below dest p \<longleftrightarrow> prefix (Clean dest @ ''/'') p \<and> list_all plain (tl (Split p CHR ''/'')) \<and> IsAbs p"

lemma below_join:
  assumes "IsAbs dest" and "prefix (Clean dest @ ''/'') (filepathJoin dest n)"
  shows "below dest (filepathJoin dest n)"
proof -
  have "IsAbs (dest @ ''/'' @ n)" and "filepathJoin dest n = Clean (dest @ ''/'' @ n)"
    using assms(1) by (auto simp: IsAbs_def filepathJoin_def)
  then obtain comps where c: "filepathJoin dest n = ''/'' @ Join comps ''/''" "list_all plain comps"
    by (metis Clean_abs)
  have "comps \<noteq> []"
  proof
    assume "comps = []"
    with c assms(2) have "Clean dest = []" by (cases "Clean dest") (auto simp: prefix_def)
    with assms(1) show False by (simp add: Clean_def Let_def)
  qed
  then have "tl (Split (filepathJoin dest n) CHR ''/'') = comps"
    using c Split_Join [of comps] by (simp add: list_all_iff plain_def)
  with c assms(2) show ?thesis by (simp add: below_def IsAbs_def)
qed

text \<open>The operations on the file system that unpacking below \<open>dest\<close> may use.\<close>

definition agree_below :: "string \<Rightarrow> 'w Reconciler \<Rightarrow> 'w Reconciler \<Rightarrow> bool" where
  "agree_below dest r r' \<longleftrightarrow>
     zipOpenReader r = zipOpenReader r' \<and> zipEntryOpen r = zipEntryOpen r' \<and>
     (\<forall>p. below dest p \<longrightarrow> MkdirAll r p = MkdirAll r' p \<and> MkdirAll r (Dir p) = MkdirAll r' (Dir p) \<and>
        fileCreate r p = fileCreate r' p \<and> fileWrite r p = fileWrite r' p)"

lemma unzipFiles_confined:
  assumes "IsAbs dest" and "agree_below dest r r'"
  shows "unzipFiles r dest fs names = unzipFiles r' dest fs names"
proof (induction fs arbitrary: names)
  case (Cons f fs)
  show ?case
  proof (cases "prefix (Clean dest @ ''/'') (filepathJoin dest (zip_Name f))")
    case True
    with assms have "below dest (filepathJoin dest (zip_Name f))" by (simp add: below_join)
    with assms(2) True Cons.IH show ?thesis by (simp add: agree_below_def Let_def)
  qed simp
qed simp

section \<open>Properties\<close>

text \<open>
  C32: unpacking is confined. Two hosts that treat the paths below an absolute destination alike
  cannot be told apart by \<open>Unzip\<close>, whatever the archive holds: no other path is created, opened
  or written. A path counts as below the destination when it starts with the cleaned destination
  and a separator and none of its components is empty, a dot or two dots; the parent directory of
  such a path may be made too.
\<close>

theorem Unzip_confined:
  assumes "IsAbs dest" and "agree_below dest r r'"
  shows "Unzip r src dest = Unzip r' src dest"
  using unzipFiles_confined [OF assms] assms(2) by (simp add: Unzip_def agree_below_def cong: sum.case_cong)

theorem Unzip_confined_witness:
  "Unzip emptyCluster ''/tmp/teiid.vdb'' ''/tmp/shop'' =
     Unzip (emptyCluster\<lparr>fileWrite := (\<lambda>p b w. if below ''/tmp/shop'' p then nothing b w else (Inr (), w))\<rparr>)
       ''/tmp/teiid.vdb'' ''/tmp/shop''"
  by (rule Unzip_confined) (simp_all add: IsAbs_def agree_below_def cluster_defs fun_eq_iff)

end
