(* ===== verification/Vdbutil.thy ===== *)
theory Vdbutil
  imports Kubernetes_Util Zip
begin

text \<open>
  \<open>pkg/util/vdbutil\<close> and the downloads of \<open>pkg/util/maven/maven.go\<close>: cutting a DDL text into
  statements, reading the data sources and the materialization hints out of them, checking the
  names, and fetching the DDL of a Maven-based virtual database.
\<close>

section \<open>The DDL parser\<close>

record DatasourceInfo =
  dsi_Name :: string
  dsi_Type :: string

abbreviation sq :: char where
  "sq \<equiv> CHR 0x27"

abbreviation dq :: char where
  "dq \<equiv> CHR 0x22"

text \<open>\<open>\w('[^']*'|"[^"]*"|[^'";])*;\<close>.\<close>

definition tokenRex :: rx where
  "tokenRex =
     seqs [CS isWord,
       Star (Grp 1 (Alt (Alt (seqs [ch sq, Star (none_of [sq]), ch sq]) (seqs [ch dq, Star (none_of [dq]), ch dq]))
         (none_of [sq, dq, CHR '';'']))),
       ch CHR '';'']"

definition Tokenize :: "string \<Rightarrow> string list" where
  "Tokenize ddl = FindAllString tokenRex ddl"

text \<open>\<open>(\w+|(?:"[^"]*")|()'[^']*'+)\<close>, numbered from \<open>n\<close>.\<close>

definition idBody :: "nat \<Rightarrow> rx" where
  "idBody n =
     Alt (Alt (Plus (CS isWord)) (seqs [ch dq, Star (none_of [dq]), ch dq]))
       (seqs [Grp (Suc n) Eps, ch sq, Star (none_of [sq]), Plus (ch sq)])"

definition idRex :: "nat \<Rightarrow> rx" where
  "idRex n = Grp n (idBody n)"

text \<open>\<open>(/\*([^*]|\*[^/])*\*/|--[^\r\n]*[\r\n]|\s)+\<close>, numbered from \<open>n\<close>.\<close>

definition commentOrSpace :: "nat \<Rightarrow> rx" where
  "commentOrSpace n =
     Plus (Grp n (Alt (Alt
       (seqs [lit ''/*'', Star (Grp (Suc n) (Alt (none_of ''*'') (Seq (ch CHR ''*'') (none_of ''/'')))), lit ''*/''])
       (seqs [lit ''--'', Star (none_of [CHR 0x0D, CHR 0x0A]), CS (\<lambda>c. c \<in> {CHR 0x0D, CHR 0x0A})]))
       (CS isSpace)))"

definition serverRegEx :: rx where
  "serverRegEx =
     seqs [lit ''CREATE'', commentOrSpace 1, lit ''SERVER'', commentOrSpace 3, idRex 5, commentOrSpace 7,
       LazyOpt (Grp 9 (seqs [lit ''TYPE'', commentOrSpace 10, idRex 12, commentOrSpace 14])),
       lit ''FOREIGN'', commentOrSpace 16, lit ''DATA'', commentOrSpace 18, lit ''WRAPPER'', commentOrSpace 20,
       idRex 22]"

definition wrapperRegEx :: rx where
  "wrapperRegEx =
     seqs [lit ''CREATE'', commentOrSpace 1, lit ''FOREIGN'', commentOrSpace 3, lit ''DATA'', commentOrSpace 5,
       lit ''WRAPPER'', commentOrSpace 7, idRex 9, commentOrSpace 11, lit ''TYPE'', commentOrSpace 13, idRex 15]"

text \<open>\<open>s[1 : len(s)-1]\<close> of the one-character string \<open>"\<close> is out of range.\<close>

definition stripQuotes :: "string \<Rightarrow> string res" where
  "stripQuotes s =
     (if prefix [dq] s \<and> suffix [dq] s
      then (if length s < 2 then Panic ''slice bounds out of range'' else Ok (ToLower (butlast (tl s))))
      else Ok (ToLower s))"

definition sourceOf :: "rx \<Rightarrow> nat \<Rightarrow> nat \<Rightarrow> string \<Rightarrow> DatasourceInfo list \<Rightarrow> DatasourceInfo list res" where
  "sourceOf regEx i j line sources =
     (if Match regEx line
      then (case FindStringSubmatch regEx line of
              None \<Rightarrow> Panic ''index out of range''
            | Some match \<Rightarrow>
                bind_res (stripQuotes (match i)) (\<lambda>n. bind_res (stripQuotes (match j)) (\<lambda>t.
                  Ok (sources @ [\<lparr>dsi_Name = n, dsi_Type = t\<rparr>]))))
      else Ok sources)"

fun parseLines :: "string list \<Rightarrow> DatasourceInfo list \<Rightarrow> DatasourceInfo list res" where
  "parseLines [] sources = Ok sources"
| "parseLines (l # ls) sources =
     bind_res (sourceOf serverRegEx 5 22 (ToUpper l) sources) (\<lambda>sources.
     bind_res (sourceOf wrapperRegEx 9 15 (ToUpper l) sources) (\<lambda>sources.
       parseLines ls sources))"

definition ParseDataSourcesInfoFromDdl :: "string \<Rightarrow> DatasourceInfo list res" where
  "ParseDataSourcesInfoFromDdl ddl = parseLines (Tokenize ddl) []"

definition materializationRex :: rx where
  "materializationRex = seqs [lit_i ''MATERIALIZED'', commentOrSpace 1, Opt (ch sq), lit_i ''TRUE'', Opt (ch sq)]"

definition materializationTableRex :: rx where
  "materializationTableRex = seqs [lit_i ''MATERIALIZED_TABLE'', commentOrSpace 1]"

definition viewRex :: rx where
  "viewRex =
     seqs [lit_i ''CREATE'', commentOrSpace 1, Opt (Grp 3 (seqs [lit_i ''VIRTUAL'', commentOrSpace 4])), lit_i ''VIEW'',
       commentOrSpace 6]"

definition ShouldMaterialize :: "string \<Rightarrow> bool" where
  "ShouldMaterialize ddl =
     list_ex (\<lambda>l. let line = ToUpper l in
       Match viewRex line \<and> Match materializationRex line \<and> \<not> Match materializationTableRex line) (Tokenize ddl)"

text \<open>\<open>^[a-zA-Z]{1}[a-zA-Z0-9_]*$\<close>.\<close>

definition sourceNameRex :: rx where
  "sourceNameRex = namePattern (\<lambda>c. IsLower c \<or> IsUpper c) isWord"

fun ValidateDataSourceNames :: "DatasourceInfo list \<Rightarrow> error option" where
  "ValidateDataSourceNames [] = None"
| "ValidateDataSourceNames (ds # dss) =
     (if \<not> Match sourceNameRex (dsi_Name ds)
      then Some (Err (''The datasource with name '' @ dsi_Name ds @
             '' does not confirm to naming rules. Can not contain any special characters/hyphens/periods''))
      else ValidateDataSourceNames dss)"

section \<open>Downloads\<close>

definition downloadFile :: "'w Reconciler \<Rightarrow> string \<Rightarrow> string \<Rightarrow> ('w, unit) M" where
  "downloadFile r filepath url =
     bindM (callM (fileCreate r filepath)) (\<lambda>_.
     bindM (callM (httpGet r url)) (\<lambda>resp.
       if StatusCode resp \<noteq> 200 then failM (Err (''bad status: '' @ StatusText resp))
       else callM (fileWrite r filepath (Body resp))))"

fun snapshotLoop :: "'w Reconciler \<Rightarrow> Dependency \<Rightarrow> string gomap \<Rightarrow> ('w, string) M" where
  "snapshotLoop r a [] = returnM []"
| "snapshotLoop r a (kv # repos) =
     tryM (downloadFile r ''/tmp/maven-metadata.xml'' (metadataUrl a (snd kv))) (\<lambda>x. case x of
       Inl _ \<Rightarrow> snapshotLoop r a repos
     | Inr _ \<Rightarrow> tryM (callM (ReadFile r ''/tmp/maven-metadata.xml'')) (\<lambda>x. case x of
         Inl _ \<Rightarrow> snapshotLoop r a repos
       | Inr xmlFile \<Rightarrow>
           (case xmlMetadata r xmlFile of
              Inl _ \<Rightarrow> snapshotLoop r a repos
            | Inr m \<Rightarrow>
                (case snapshotValue a m of
                   Some v \<Rightarrow> returnM v
                 | None \<Rightarrow> snapshotLoop r a repos))))"

definition getSnapshotVersion :: "'w Reconciler \<Rightarrow> Dependency \<Rightarrow> string gomap \<Rightarrow> ('w, string) M" where
  "getSnapshotVersion r a mavenRepos = bindM (rangeM r mavenRepos) (\<lambda>repos. snapshotLoop r a repos)"

fun downloadLoop :: "'w Reconciler \<Rightarrow> string \<Rightarrow> string \<Rightarrow> string gomap \<Rightarrow> ('w, string) M" where
  "downloadLoop r filepath artifact [] =
     failM (Err ''Failed to download the artifact from configured maven repositories'')"
| "downloadLoop r filepath artifact (kv # repos) =
     tryM (downloadFile r filepath (artifactUrl (snd kv) artifact)) (\<lambda>x. case x of
       Inr _ \<Rightarrow> returnM filepath
     | Inl _ \<Rightarrow> downloadLoop r filepath artifact repos)"

definition DownloadDependency :: "'w Reconciler \<Rightarrow> Dependency \<Rightarrow> string \<Rightarrow> string gomap \<Rightarrow> ('w, string) M" where
  "DownloadDependency r d filepath mavenRepos =
     bindM (if Contains (dep_Version d) ''SNAPSHOT''
            then bindM (getSnapshotVersion r d mavenRepos) (\<lambda>v.
                   if v = [] then failM (Err ''Failed to download the SNAPSHOT version of the artifact'') else returnM v)
            else returnM [])
       (\<lambda>versionTimestamped.
          bindM (rangeM r mavenRepos) (\<lambda>repos. downloadLoop r filepath (artifactName d versionTimestamped) repos))"

definition readDdlFromMavenRepo :: "'w Reconciler \<Rightarrow> VirtualDatabase \<Rightarrow> string \<Rightarrow> ('w, string) M" where
  "readDdlFromMavenRepo r vdb targetName =
     (case ParseGAV (Maven (vdb_Source vdb)) of
        Inl e \<Rightarrow> failM e
      | Inr dep \<Rightarrow>
          bindM (DownloadDependency r dep targetName (GetMavenRepositories (Config r) vdb)) (\<lambda>vdbFile.
          bindM (Unzip r vdbFile (''/tmp/'' @ vdb_Name vdb)) (\<lambda>(files, err).
            case err of
              Some e \<Rightarrow> failM e
            | None \<Rightarrow> callM (ReadFile r (''/tmp/'' @ vdb_Name vdb @ ''/META-INF/vdb.ddl'')))))"

definition FetchDdl :: "'w Reconciler \<Rightarrow> VirtualDatabase \<Rightarrow> string \<Rightarrow> ('w, string) M" where
  "FetchDdl r vdb targetName =
     (if Maven (vdb_Source vdb) \<noteq> [] then readDdlFromMavenRepo r vdb targetName
      else returnM (DDL (vdb_Source vdb)))"

section \<open>Lemmas\<close>

lemmas text_ofD = text_of_SeqD text_of_AltD

lemma groups_simps [simp]:
  "rx_groups n (ch c) = []" "rx_groups n (none_of s) = []" "rx_groups n (Plus r) = rx_groups n r @ rx_groups n r"
  "rx_groups n (LazyOpt r) = rx_groups n r" "rx_groups n (Opt r) = rx_groups n r"
  by (simp_all add: ch_def none_of_def Plus_def LazyOpt_def Opt_def)

lemma groups_lit [simp]: "rx_groups n (lit s) = []"
  unfolding lit_def by (induction s rule: induct_list012) simp_all

lemma groups_commentOrSpace: "n \<noteq> m \<Longrightarrow> n \<noteq> Suc m \<Longrightarrow> rx_groups n (commentOrSpace m) = []"
  by (simp add: commentOrSpace_def)

lemma groups_idRex: "n \<noteq> Suc m \<Longrightarrow> rx_groups n (idRex m) = (if n = m then [idBody m] else [])"
  by (simp add: idRex_def idBody_def)

lemma source_groups:
  "rx_groups 5 serverRegEx = [idBody 5]" "rx_groups 22 serverRegEx = [idBody 22]"
  "rx_groups 9 wrapperRegEx = [idBody 9]" "rx_groups 15 wrapperRegEx = [idBody 15]"
  by (simp_all add: serverRegEx_def wrapperRegEx_def groups_commentOrSpace groups_idRex)

lemma idBody_text: "text_of (idBody n) t \<Longrightarrow> stripQuotes t \<noteq> Panic p"
proof -
  assume "text_of (idBody n) t"
  then consider "text_of (Plus (CS isWord)) t" | "text_of (seqs [ch dq, Star (none_of [dq]), ch dq]) t"
    | "text_of (seqs [Grp (Suc n) Eps, ch sq, Star (none_of [sq]), Plus (ch sq)]) t"
    unfolding idBody_def by (blast dest: text_of_AltD)
  then show ?thesis
  proof cases
    case 1
    then obtain a u where "t = a # u" "isWord a"
      unfolding Plus_def by (auto simp: text_of_CS dest!: text_of_SeqD)
    moreover have "\<not> isWord dq" by code_simp
    ultimately have "\<not> prefix [dq] t" by auto
    then show ?thesis by (simp add: stripQuotes_def)
  next
    case 2
    then have "2 \<le> length t" by (auto simp: ch_def text_of_CS dest!: text_of_SeqD)
    then show ?thesis by (simp add: stripQuotes_def)
  next
    case 3
    then obtain u v where t: "t = u @ sq # v" and u: "text_of (Grp (Suc n) Eps) u"
      by (auto simp: ch_def text_of_CS dest!: text_of_SeqD)
    from u have "u = []" by (auto simp: text_of_def capture_def elim!: Matches_GrpE Matches_EpsE)
    with t show ?thesis by (simp add: stripQuotes_def)
  qed
qed

lemma sourceOf_no_Panic:
  assumes "i \<noteq> 0" "j \<noteq> 0" "rx_groups i regEx = [idBody i]" "rx_groups j regEx = [idBody j]"
  shows "\<exists>ss. sourceOf regEx i j line sources = Ok ss"
proof (cases "FindStringSubmatch regEx line")
  case None
  then have "\<not> Match regEx line" by (auto simp: FindStringSubmatch_def Match_def split: option.splits)
  then show ?thesis by (simp add: sourceOf_def)
next
  case (Some m)
  have "stripQuotes (m k) \<noteq> Panic p" if "k = i \<or> k = j" for k p
  proof -
    have "m k = [] \<or> text_of (idBody k) (m k)"
      using FindStringSubmatch_text [OF Some, of k] that assms by auto
    then show ?thesis
    proof
      assume "m k = []"
      then show ?thesis by (simp add: stripQuotes_def)
    qed (rule idBody_text)
  qed
  moreover have "stripQuotes s \<noteq> Fail e" for s e by (simp add: stripQuotes_def)
  ultimately obtain n t where "stripQuotes (m i) = Ok n" "stripQuotes (m j) = Ok t"
    by (metis res.exhaust)
  with Some show ?thesis by (simp add: sourceOf_def)
qed

lemmas server_no_Panic = sourceOf_no_Panic [of 5 22 serverRegEx, simplified, OF source_groups(1,2)]
lemmas wrapper_no_Panic = sourceOf_no_Panic [of 9 15 wrapperRegEx, simplified, OF source_groups(3,4)]

lemma sourceOf_prefix: "sourceOf regEx i j line sources = Ok ss \<Longrightarrow> \<exists>zs. ss = sources @ zs"
  by (auto simp: sourceOf_def bind_res_Ok_iff split: if_splits option.splits)

lemma parseLines_Ok: "\<exists>zs. parseLines ls sources = Ok (sources @ zs)"
proof (induction ls arbitrary: sources)
  case (Cons l ls)
  obtain s1 where s1: "sourceOf serverRegEx 5 22 (ToUpper l) sources = Ok s1" using server_no_Panic by blast
  obtain s2 where s2: "sourceOf wrapperRegEx 9 15 (ToUpper l) s1 = Ok s2" using wrapper_no_Panic by blast
  from sourceOf_prefix [OF s1] sourceOf_prefix [OF s2] obtain zs where "s2 = sources @ zs" by auto
  with s1 s2 Cons.IH [of s2] show ?case by auto
qed simp

section \<open>A statement that declares a server\<close>

definition word :: "string \<Rightarrow> bool" where
  "word s \<longleftrightarrow> s \<noteq> [] \<and> list_all isWord s"

lemma matches_lit_other: "a \<noteq> b \<Longrightarrow> matches (lit (a # t)) (St i (b # s) c) = []"
  unfolding lit_def by (cases t) (simp_all add: ch_def)

text \<open>One blank in front of a character that starts neither a comment nor a blank.\<close>

definition solid :: "string \<Rightarrow> bool" where
  "solid s \<longleftrightarrow> s \<noteq> [] \<and> \<not> isSpace (hd s) \<and> hd s \<notin> {CHR ''/'', CHR ''-''}"

lemma leads_space:
  assumes "solid s"
  shows "leads (commentOrSpace n) (St i ('' '' @ s) c) (St (Suc i) s (c(n := Some '' '')))"
proof -
  define body where "body = Alt (Alt
       (seqs [lit ''/*'', Star (Grp (Suc n) (Alt (none_of ''*'') (Seq (ch CHR ''*'') (none_of ''/'')))), lit ''*/''])
       (seqs [lit ''--'', Star (none_of [CHR 0x0D, CHR 0x0A]), CS (\<lambda>c. c \<in> {CHR 0x0D, CHR 0x0A})]))
       (CS isSpace)"
  have "isSpace CHR '' ''" by code_simp
  then have "leads body (St i ('' '' @ s) c) (St (Suc i) s c)"
    unfolding body_def by (intro leads_AltR) (simp_all add: matches_lit_other leads_CS)
  then have g: "leads (Grp n body) (St i ('' '' @ s) c) (St (Suc i) s (c(n := Some '' '')))"
    by (rule leads_Grp_text)
  obtain a t where s: "s = a # t" using assms by (cases s) (auto simp: solid_def)
  have "matches (Grp n body) (St (Suc i) s (c(n := Some '' ''))) = []"
    using assms matches_lit_other [of "CHR ''/''" a] matches_lit_other [of "CHR ''-''" a]
    unfolding body_def s by (auto simp: solid_def)
  from leads_Seq [OF g leads_Star_stop [OF this]] show ?thesis
    by (simp add: commentOrSpace_def Plus_def body_def)
qed

lemma leads_id:
  assumes "word w" and "u = [] \<or> \<not> isWord (hd u)"
  shows "leads (idRex n) (St i (w @ u) c) (St (i + length w) u (c(n := Some w)))"
  unfolding idRex_def idBody_def
  by (rule leads_Grp_text, intro leads_AltL, rule leads_Plus_run) (use assms in \<open>auto simp: word_def\<close>)

lemma solid_word: "word w \<Longrightarrow> solid (w @ u)"
proof -
  have "\<not> isSpace c \<and> c \<notin> {CHR ''/'', CHR ''-''}" if "isWord c" for c
  proof -
    have "list_all (\<lambda>d. \<not> isWord d) [CHR '' '', CHR 0x09, CHR 0x0A, CHR 0x0C, CHR 0x0D, CHR ''/'', CHR ''-'']"
      by code_simp
    with that show ?thesis by (auto simp: isSpace_def)
  qed
  then show "word w \<Longrightarrow> solid (w @ u)" by (cases w) (auto simp: word_def solid_def)
qed

lemma keyword_words: "word ''SERVER''" "word ''FOREIGN''" "word ''DATA''" "word ''WRAPPER''" "word ''CREATE''"
  by code_simp+

lemma not_word_chars: "\<not> isWord CHR '' ''" "\<not> isWord CHR '';''"
  by code_simp+

lemma leads_server:
  assumes "word n" and "word t"
  shows "\<exists>i c. leads serverRegEx
      (St 0 (''CREATE'' @ '' '' @ ''SERVER'' @ '' '' @ n @ '' '' @ ''FOREIGN'' @ '' '' @ ''DATA'' @ '' '' @
         ''WRAPPER'' @ '' '' @ t @ '';'') Map.empty) (St i '';'' c) \<and> c 5 = Some n \<and> c 22 = Some t"
  unfolding serverRegEx_def seqs.simps
  apply (intro exI conjI)
    apply (rule leads_Seq, rule leads_lit)
    apply (rule leads_Seq, rule leads_space, rule solid_word, rule keyword_words)
    apply (rule leads_Seq, rule leads_lit)
    apply (rule leads_Seq, rule leads_space, rule solid_word, rule assms)
    apply (rule leads_Seq, rule leads_id, rule assms, simp add: not_word_chars)
    apply (rule leads_Seq, rule leads_space, rule solid_word, rule keyword_words)
    apply (rule leads_Seq, unfold LazyOpt_def, rule leads_AltL, rule leads_Eps)
    apply (rule leads_Seq, rule leads_lit)
    apply (rule leads_Seq, rule leads_space, rule solid_word, rule keyword_words)
    apply (rule leads_Seq, rule leads_lit)
    apply (rule leads_Seq, rule leads_space, rule solid_word, rule keyword_words)
    apply (rule leads_Seq, rule leads_lit)
    apply (rule leads_Seq, rule leads_space, rule solid_word, rule assms)
    apply (rule leads_id, rule assms, simp add: not_word_chars)
   apply simp_all
  done

text \<open>The tokenizer takes a statement without quotes up to its semicolon.\<close>

definition unquoted :: "string \<Rightarrow> bool" where
  "unquoted s \<longleftrightarrow> list_all (\<lambda>c. c \<notin> {sq, dq, CHR '';''}) s"

abbreviation tokenBody :: rx where
  "tokenBody \<equiv> Alt (Alt (seqs [ch sq, Star (none_of [sq]), ch sq]) (seqs [ch dq, Star (none_of [dq]), ch dq]))
         (none_of [sq, dq, CHR '';''])"

lemma leads_tokenBody:
  "a \<notin> {sq, dq, CHR '';''} \<Longrightarrow> leads tokenBody (St i (a # s) c) (St (Suc i) s c)"
  by (intro leads_AltR) (simp_all add: ch_def none_of_def leads_CS)

lemma leads_tokenStar:
  "unquoted u \<Longrightarrow> \<exists>c'. leads (Star (Grp 1 tokenBody)) (St i (u @ '';'' @ v) c) (St (i + length u) ('';'' @ v) c')"
proof (induction u arbitrary: i c)
  case Nil
  have "matches (Grp 1 tokenBody) (St i ('';'' @ v) c) = []" by (simp add: ch_def none_of_def)
  from leads_Star_stop [OF this] show ?case by auto
next
  case (Cons a u)
  then have a: "a \<notin> {sq, dq, CHR '';''}" and u: "unquoted u" by (simp_all add: unquoted_def)
  from leads_Grp [OF leads_tokenBody [OF a], of 1] obtain c1 where
    1: "leads (Grp 1 tokenBody) (St i (a # u @ '';'' @ v) c) (St (Suc i) (u @ '';'' @ v) c1)"
    by (simp add: capture_def) blast
  from Cons.IH [OF u] obtain c2 where
    2: "leads (Star (Grp 1 tokenBody)) (St (Suc i) (u @ '';'' @ v) c1) (St (Suc i + length u) ('';'' @ v) c2)" by blast
  from leads_Star_step [OF 1 _ 2] show ?case by auto
qed

lemma search_token:
  assumes "isWord a" and "unquoted u"
  obtains y where "search tokenRex i (a # u @ '';'' @ v) = Some (a # u @ '';'', y)" "rest y = v"
proof -
  obtain c where c: "leads (Star (Grp 1 tokenBody)) (St (Suc i) (u @ '';'' @ v) Map.empty) (St (Suc i + length u) ('';'' @ v) c)"
    using leads_tokenStar [OF assms(2), of "Suc i" v Map.empty] by blast
  have w: "leads (CS isWord) (St i (a # u @ '';'' @ v) Map.empty) (St (Suc i) (u @ '';'' @ v) Map.empty)"
    using leads_CS [of isWord a i "u @ '';'' @ v"] assms(1) by simp
  have e: "leads (ch CHR '';'') (St (Suc i + length u) ('';'' @ v) c) (St (Suc (Suc i + length u)) v c)"
    using leads_ch [of "CHR '';''" "Suc i + length u" v c] by simp
  have "leads tokenRex (St i (a # u @ '';'' @ v) Map.empty) (St (Suc (Suc i + length u)) v c)"
    unfolding tokenRex_def using leads_Seq [OF w leads_Seq [OF c e]] by simp
  from search_leads [OF this] show thesis by (intro that [of "St (Suc (Suc i + length u)) v c"]) simp_all
qed

text \<open>What is between two statements and has no character of a word is skipped.\<close>

abbreviation gap :: "string \<Rightarrow> bool" where
  "gap g \<equiv> list_all (\<lambda>c. \<not> isWord c) g"

lemma search_gap: "gap g \<Longrightarrow> \<exists>j. search tokenRex i (g @ s) = search tokenRex j s"
proof (induction g arbitrary: i)
  case (Cons a g)
  from Cons.prems have "matches tokenRex (St i ((a # g) @ s) Map.empty) = []" by (simp add: tokenRex_def)
  with Cons show ?case by simp
qed auto

lemma search_gap_end: "gap g \<Longrightarrow> search tokenRex i g = None"
  using search_gap [of g i "[]"] by (auto simp: tokenRex_def)

text \<open>A statement as the tokenizer sees it.\<close>

definition plain_statement :: "string \<Rightarrow> bool" where
  "plain_statement s \<longleftrightarrow> (\<exists>a u. s = a # u @ '';'' \<and> isWord a \<and> unquoted u)"

lemma findAll_script:
  "list_all (\<lambda>(g, s). gap g \<and> plain_statement s) gss \<Longrightarrow> gap g' \<Longrightarrow> length gss < k \<Longrightarrow>
     findAllFrom k tokenRex i (concat (map (\<lambda>(g, s). g @ s) gss) @ g') = map snd gss"
proof (induction gss arbitrary: k i)
  case Nil
  then show ?case by (cases k) (simp_all add: search_gap_end)
next
  case (Cons gs gss)
  obtain g s where gs: "gs = (g, s)" by fastforce
  with Cons.prems(1) obtain a u where s: "gap g" "s = a # u @ '';''" "isWord a" "unquoted u"
    by (auto simp: plain_statement_def)
  from Cons.prems(3) obtain k' where k: "k = Suc k'" "length gss < k'" by (cases k) auto
  let ?v = "concat (map (\<lambda>(g, s). g @ s) gss) @ g'"
  obtain j where j: "search tokenRex i (g @ s @ ?v) = search tokenRex j (s @ ?v)" using search_gap [OF s(1)] by blast
  obtain y where y: "search tokenRex j (a # u @ '';'' @ ?v) = Some (a # u @ '';'', y)" "rest y = ?v"
    by (rule search_token [OF s(3,4)])
  have "findAllFrom k' tokenRex (mpos y) ?v = map snd gss" using Cons k(2) by simp
  with j y show ?case by (simp add: k(1) gs s(2))
qed

lemma Tokenize_script:
  assumes "list_all (\<lambda>(g, s). gap g \<and> plain_statement s) gss" and "gap g'"
  shows "Tokenize (concat (map (\<lambda>(g, s). g @ s) gss) @ g') = map snd gss"
proof -
  have "length gss \<le> length (concat (map (\<lambda>(g, s). g @ s) gss))"
    using assms(1) by (induction gss) (auto simp: plain_statement_def)
  then show ?thesis unfolding Tokenize_def FindAllString_def by (intro findAll_script assms) simp
qed

lemma unquoted_simps [simp]:
  "unquoted (s @ t) \<longleftrightarrow> unquoted s \<and> unquoted t" "unquoted []"
  "unquoted (a # t) \<longleftrightarrow> a \<notin> {sq, dq, CHR '';''} \<and> unquoted t"
  by (simp_all add: unquoted_def)

lemma unquoted_word: "word w \<Longrightarrow> unquoted w"
proof -
  have "\<not> isWord sq" "\<not> isWord dq" "\<not> isWord CHR '';''" by code_simp+
  then show "word w \<Longrightarrow> unquoted w" by (auto simp: word_def unquoted_def list_all_iff)
qed

lemma isWord_toUpperC: "isWord c \<Longrightarrow> isWord (toUpperC c)"
proof (cases "IsLower c")
  case True
  then show ?thesis by (simp add: isWord_def toUpperC_upper)
qed (simp add: toUpperC_other)

lemma word_ToUpper: "word w \<Longrightarrow> word (ToUpper w)"
  by (auto simp: word_def ToUpper_def list_all_iff isWord_toUpperC)

lemma stripQuotes_word: "word w \<Longrightarrow> stripQuotes w = Ok (ToLower w)"
proof -
  assume "word w"
  moreover have "\<not> isWord dq" by code_simp
  ultimately have "\<not> prefix [dq] w" by (cases w) (auto simp: word_def)
  then show ?thesis by (simp add: stripQuotes_def)
qed

text \<open>The statement that creates a server, in one spelling.\<close>

definition serverStatement :: "string \<Rightarrow> string \<Rightarrow> string" where
  "serverStatement n t = ''CREATE SERVER '' @ n @ '' FOREIGN DATA WRAPPER '' @ t @ '';''"

lemma toUpperC_eq_isWord: "toUpperC c = toUpperC d \<Longrightarrow> isWord d \<Longrightarrow> isWord c"
  using isWord_toUpperC [of d] by (cases "IsLower c") (auto simp: isWord_def toUpperC_other)

lemma toUpperC_eq_other: "toUpperC c = toUpperC d \<Longrightarrow> \<not> isWord d \<Longrightarrow> c = d"
proof -
  assume c: "toUpperC c = toUpperC d" and d: "\<not> isWord d"
  then have "\<not> isWord c" using toUpperC_eq_isWord by metis
  with c d show "c = d" by (simp add: isWord_def toUpperC_other)
qed

lemma unquoted_ToUpper: "ToUpper s = ToUpper t \<Longrightarrow> unquoted t \<Longrightarrow> unquoted s"
proof -
  have "\<not> isWord sq" "\<not> isWord dq" "\<not> isWord CHR '';''" by code_simp+
  then have char: "toUpperC c = toUpperC d \<Longrightarrow> d \<notin> {sq, dq, CHR '';''} \<Longrightarrow> c \<notin> {sq, dq, CHR '';''}" for c d
    using toUpperC_eq_other by (metis insert_iff empty_iff)
  show "ToUpper s = ToUpper t \<Longrightarrow> unquoted t \<Longrightarrow> unquoted s"
  proof (induction s arbitrary: t)
    case (Cons a s)
    then obtain b t' where "t = b # t'" by (cases t) (auto simp: ToUpper_def)
    with Cons char [of a b] show ?case by (auto simp: ToUpper_def)
  qed simp
qed

lemma ToUpper_length: "ToUpper s = ToUpper t \<Longrightarrow> length s = length t"
  unfolding ToUpper_def by (metis length_map)

lemma ToUpper_parts:
  assumes "ToUpper s = ToUpper (c # v @ [d])"
  obtains a u b where "s = a # u @ [b]" "toUpperC a = toUpperC c" "ToUpper u = ToUpper v" "toUpperC b = toUpperC d"
  using assms that by (auto simp: ToUpper_def map_eq_Cons_conv map_eq_append_conv)

lemma serverStatement_plain:
  assumes "word n" and "word t" and "ToUpper s = ToUpper (serverStatement n t)"
  shows "plain_statement s"
proof -
  let ?u = "''REATE SERVER '' @ n @ '' FOREIGN DATA WRAPPER '' @ t"
  have c: "isWord CHR ''C''" "\<not> isWord CHR '';''" by code_simp+
  have "serverStatement n t = CHR ''C'' # ?u @ [CHR '';'']" by (simp add: serverStatement_def)
  with assms(3) have "ToUpper s = ToUpper (CHR ''C'' # ?u @ [CHR '';''])" by (simp only:)
  then obtain a u b where s: "s = a # u @ [b]" and a: "toUpperC a = toUpperC CHR ''C''" and u: "ToUpper u = ToUpper ?u"
      and b: "toUpperC b = toUpperC CHR '';''"
    by (rule ToUpper_parts)
  have "unquoted ?u" using assms(1,2) by (simp add: unquoted_word)
  with u have "unquoted u" by (rule unquoted_ToUpper)
  moreover have "isWord a" using a c(1) by (rule toUpperC_eq_isWord)
  moreover have "b = CHR '';''" using b c(2) by (rule toUpperC_eq_other)
  ultimately show ?thesis using s unfolding plain_statement_def by auto
qed

text \<open>
  The pattern of a wrapper does not match this statement: it needs six separators, as many as the statement has blanks, so its
  second word would be \<open>SERVER\<close>.
\<close>

lemma text_of_Grp: "text_of (Grp n r) t \<Longrightarrow> text_of r t"
  by (fastforce simp: text_of_def capture_def elim!: Matches_GrpE)

lemma text_of_Eps: "text_of Eps t \<Longrightarrow> t = []"
  by (auto simp: text_of_def elim!: Matches_EpsE)

lemma text_of_lit: "text_of (lit w) t \<Longrightarrow> t = w"
proof (induction w arbitrary: t)
  case (Cons a w)
  show ?case
  proof (cases w)
    case Nil
    with Cons.prems show ?thesis by (simp add: lit_def ch_def text_of_CS)
  next
    case (Cons b w')
    then have "lit (a # w) = Seq (ch a) (lit w)" by (simp add: lit_def)
    with Cons.prems Cons.IH show ?thesis by (auto simp: ch_def text_of_CS dest!: text_of_SeqD)
  qed
qed (simp add: lit_def text_of_Eps)

lemma text_of_lit_Seq: "text_of (Seq (lit w) q) t \<Longrightarrow> \<exists>v. t = w @ v \<and> text_of q v"
  by (blast dest: text_of_SeqD text_of_lit)

lemma text_of_commentOrSpace:
  assumes "text_of (commentOrSpace n) t"
  shows "t \<noteq> [] \<and> (isSpace (hd t) \<or> hd t \<in> {CHR ''/'', CHR ''-''})"
proof -
  obtain u v where t: "t = u @ v" and u: "text_of (Alt (Alt
       (seqs [lit ''/*'', Star (Grp (Suc n) (Alt (none_of ''*'') (Seq (ch CHR ''*'') (none_of ''/'')))), lit ''*/''])
       (seqs [lit ''--'', Star (none_of [CHR 0x0D, CHR 0x0A]), CS (\<lambda>c. c \<in> {CHR 0x0D, CHR 0x0A})]))
       (CS isSpace)) u"
    using assms unfolding commentOrSpace_def Plus_def by (blast dest: text_of_SeqD text_of_Grp)
  from u show ?thesis
    unfolding t by (auto dest!: text_of_AltD text_of_SeqD text_of_lit simp: text_of_CS)
qed

lemma blank_split:
  "CHR '' '' \<notin> set x \<Longrightarrow> CHR '' '' \<notin> set x' \<Longrightarrow> x @ CHR '' '' # y = x' @ CHR '' '' # y' \<Longrightarrow> x = x' \<and> y = y'"
proof (induction x arbitrary: x')
  case Nil
  then show ?case by (cases x') auto
next
  case (Cons a x)
  then show ?case by (cases x') auto
qed

lemma wrapper_other:
  assumes "word n" and "word t"
  shows "\<not> Match wrapperRegEx (serverStatement n t)"
proof
  let ?L = "serverStatement n t" and ?b = "CHR '' ''"
  assume "Match wrapperRegEx ?L"
  then obtain x y where "search wrapperRegEx 0 ?L = Some (x, y)" by (auto simp: Match_def)
  from search_SomeD [OF this] obtain pre where L: "?L = pre @ x @ rest y" and l: "leads wrapperRegEx (St (length pre) (x @ rest y) Map.empty) y"
    by auto
  from l have "y \<in> set (matches wrapperRegEx (St (length pre) (x @ rest y) Map.empty))"
    by (auto simp: leads_def)
  from matches_imp_Matches [OF this] have "text_of wrapperRegEx x" unfolding text_of_def by fastforce
  then obtain v1 where v1: "x = ''CREATE'' @ v1" and t1: "text_of (Seq (commentOrSpace 1) (Seq (lit ''FOREIGN'') (seqs [commentOrSpace 3, lit ''DATA'',
      commentOrSpace 5, lit ''WRAPPER'', commentOrSpace 7, idRex 9, commentOrSpace 11, lit ''TYPE'', commentOrSpace 13, idRex 15]))) v1"
    unfolding wrapperRegEx_def seqs.simps using text_of_lit_Seq by blast
  from text_of_SeqD [OF t1] text_of_lit_Seq obtain s1 v2 where v2: "v1 = s1 @ ''FOREIGN'' @ v2" "text_of (commentOrSpace 1) s1" and
    t2: "text_of (Seq (commentOrSpace 3) (Seq (lit ''DATA'') (seqs [commentOrSpace 5, lit ''WRAPPER'', commentOrSpace 7, idRex 9,
      commentOrSpace 11, lit ''TYPE'', commentOrSpace 13, idRex 15]))) v2"
    unfolding seqs.simps by blast
  from text_of_SeqD [OF t2] text_of_lit_Seq obtain s2 v3 where v3: "v2 = s2 @ ''DATA'' @ v3" "text_of (commentOrSpace 3) s2" and
    t3: "text_of (Seq (commentOrSpace 5) (Seq (lit ''WRAPPER'') (seqs [commentOrSpace 7, idRex 9, commentOrSpace 11, lit ''TYPE'',
      commentOrSpace 13, idRex 15]))) v3"
    unfolding seqs.simps by blast
  from text_of_SeqD [OF t3] text_of_lit_Seq obtain s3 v4 where v4: "v3 = s3 @ ''WRAPPER'' @ v4" "text_of (commentOrSpace 5) s3" and
    t4: "text_of (Seq (commentOrSpace 7) (Seq (idRex 9) (Seq (commentOrSpace 11) (Seq (lit ''TYPE'') (seqs [commentOrSpace 13, idRex 15]))))) v4"
    unfolding seqs.simps by blast
  from text_of_SeqD [OF t4] text_of_SeqD obtain s4 i1 v5 where v5: "v4 = s4 @ i1 @ v5" "text_of (commentOrSpace 7) s4" and
    t5: "text_of (Seq (commentOrSpace 11) (Seq (lit ''TYPE'') (seqs [commentOrSpace 13, idRex 15]))) v5" by blast
  from text_of_SeqD [OF t5] text_of_lit_Seq obtain s5 v6 where v6: "v5 = s5 @ ''TYPE'' @ v6" "text_of (commentOrSpace 11) s5" and
    t6: "text_of (Seq (commentOrSpace 13) (idRex 15)) v6"
    unfolding seqs.simps by blast
  from text_of_SeqD [OF t6] obtain s6 i2 where v7: "v6 = s6 @ i2" "text_of (commentOrSpace 13) s6" by blast
  note s = v2(2) v3(2) v4(2) v5(2) v6(2) v7(2)
  have x: "x = ''CREATE'' @ s1 @ ''FOREIGN'' @ s2 @ ''DATA'' @ s3 @ ''WRAPPER'' @ s4 @ i1 @ s5 @ ''TYPE'' @ s6 @ i2"
    by (simp only: v1 v2(1) v3(1) v4(1) v5(1) v6(1) v7(1) append_assoc)
  have chars: "c = ?b" if "c \<in> set ?L" "isSpace c \<or> c \<in> {CHR ''/'', CHR ''-''}" for c
  proof -
    have "\<not> isWord c"
    proof
      assume "isWord c"
      then have "word [c]" by (simp add: word_def)
      from solid_word [OF this, of "[]"] that(2) show False by (simp add: solid_def)
    qed
    moreover have "c \<in> set n \<or> c \<in> set t \<Longrightarrow> isWord c" using assms by (auto simp: word_def list_all_iff)
    moreover have "\<not> isSpace CHR '';''" by code_simp
    moreover have "\<forall>c \<in> set (''CREATE SERVER '' @ '' FOREIGN DATA WRAPPER ''). isWord c \<or> c = ?b" by code_simp
    ultimately show ?thesis using that by (auto simp: serverStatement_def)
  qed
  have blank: "\<exists>w. u = ?b # w" if "text_of (commentOrSpace k) u" "set u \<subseteq> set ?L" for k u
  proof -
    from text_of_commentOrSpace [OF that(1)] obtain c w where u: "u = c # w" "isSpace c \<or> c \<in> {CHR ''/'', CHR ''-''}" by (cases u) auto
    with chars [of c] that(2) show ?thesis by auto
  qed
  have "set s1 \<subseteq> set ?L" "set s2 \<subseteq> set ?L" "set s3 \<subseteq> set ?L" "set s4 \<subseteq> set ?L" "set s5 \<subseteq> set ?L" "set s6 \<subseteq> set ?L"
    unfolding L x by auto
  with s blank obtain w1 w2 w3 w4 w5 w6 where
    w: "s1 = ?b # w1" "s2 = ?b # w2" "s3 = ?b # w3" "s4 = ?b # w4" "s5 = ?b # w5" "s6 = ?b # w6" by meson
  have nt: "?b \<notin> set n" "?b \<notin> set t" using assms not_word_chars by (auto simp: word_def list_all_iff)
  then have "count_list ?L ?b = 6" by (simp add: serverStatement_def)
  then have none: "?b \<notin> set pre" "?b \<notin> set w1"
    unfolding L x w by (simp_all add: count_list_0_iff [symmetric])
  have "?L = ''CREATE'' @ ?b # ''SERVER'' @ ?b # n @ '' FOREIGN DATA WRAPPER '' @ t @ '';''" by (simp add: serverStatement_def)
  then have "(pre @ ''CREATE'') @ ?b # (w1 @ ''FOREIGN'') @ ?b # w2 @ ''DATA'' @ s3 @ ''WRAPPER'' @ s4 @ i1 @ s5 @ ''TYPE'' @ s6 @ i2 @ rest y =
      ''CREATE'' @ ?b # ''SERVER'' @ ?b # n @ '' FOREIGN DATA WRAPPER '' @ t @ '';''"
    unfolding L x w(1,2) by simp
  from blank_split [OF _ _ this] none(1)
  have "(w1 @ ''FOREIGN'') @ ?b # w2 @ ''DATA'' @ s3 @ ''WRAPPER'' @ s4 @ i1 @ s5 @ ''TYPE'' @ s6 @ i2 @ rest y =
      ''SERVER'' @ ?b # n @ '' FOREIGN DATA WRAPPER '' @ t @ '';''" by simp
  from blank_split [OF _ _ this] none(2) have "w1 @ ''FOREIGN'' = ''SERVER''" by simp
  then have "length (w1 @ ''FOREIGN'') = length ''SERVER''" by (rule arg_cong)
  then show False by simp
qed

lemma serverStatement_ToUpper: "ToUpper (serverStatement n t) = serverStatement (ToUpper n) (ToUpper t)"
proof -
  have "ToUpper ''CREATE SERVER '' = ''CREATE SERVER ''" "ToUpper '' FOREIGN DATA WRAPPER '' = '' FOREIGN DATA WRAPPER ''"
    "ToUpper '';'' = '';''" by code_simp+
  then show ?thesis by (simp only: serverStatement_def ToUpper_append)
qed

lemma serverStatement_sources:
  assumes "word n" and "word t" and "ToUpper s = ToUpper (serverStatement n t)"
  shows "parseLines (s # ls) sources = parseLines ls (sources @ [\<lparr>dsi_Name = ToLower n, dsi_Type = ToLower t\<rparr>])"
proof -
  let ?line = "serverStatement (ToUpper n) (ToUpper t)"
  note words = word_ToUpper [OF assms(1)] word_ToUpper [OF assms(2)]
  have up: "ToUpper s = ?line" using assms(3) by (simp only: serverStatement_ToUpper)
  have "?line = ''CREATE'' @ '' '' @ ''SERVER'' @ '' '' @ ToUpper n @ '' '' @ ''FOREIGN'' @ '' '' @ ''DATA'' @ '' '' @
         ''WRAPPER'' @ '' '' @ ToUpper t @ '';''" by (simp add: serverStatement_def)
  then obtain i c where l: "leads serverRegEx (St 0 ?line Map.empty) (St i '';'' c)" and
      c: "c 5 = Some (ToUpper n)" "c 22 = Some (ToUpper t)"
    using leads_server [OF words] by metis
  have "sourceOf serverRegEx 5 22 ?line sources = Ok (sources @ [\<lparr>dsi_Name = ToLower n, dsi_Type = ToLower t\<rparr>])"
    using search_leads [OF l] c words
    by (simp add: sourceOf_def Match_def FindStringSubmatch_def stripQuotes_word)
  moreover have "sourceOf wrapperRegEx 9 15 ?line ss = Ok ss" for ss using wrapper_other [OF words] by (simp add: sourceOf_def)
  ultimately show ?thesis by (simp add: up)
qed

definition sourceName :: "string \<Rightarrow> bool" where
  "sourceName s \<longleftrightarrow> (\<exists>c t. s = c # t \<and> (IsLower c \<or> IsUpper c) \<and> list_all isWord t)"

lemma Match_sourceNameRex: "Match sourceNameRex s \<longleftrightarrow> sourceName s"
  by (simp add: sourceNameRex_def Match_namePattern sourceName_def)

section \<open>Properties\<close>

text \<open>
  The statements the tokenizer finds occur in the text in this order and without overlap,
  and each of them starts with a word character and ends at a semicolon.
\<close>

theorem Tokenize_statements:
  "in_order (Tokenize ddl) ddl \<and>
   list_all (\<lambda>t. isWord (hd t) \<and> last t = CHR '';'') (Tokenize ddl)"
proof -
  have "isWord (hd t) \<and> last t = CHR '';''" if "text_of tokenRex t" for t
    using that unfolding tokenRex_def by (auto simp: text_of_CS ch_def dest!: text_of_SeqD)
  then show ?thesis
    by (auto simp: Tokenize_def FindAllString_def findAllFrom_in_order list_all_iff
        simp del: findAllFrom.simps dest: findAllFrom_text)
qed

text \<open>
  Reading the data sources out of a DDL text never panics, whatever the text is: the slice
  that strips the quotes of a name is always in range, and the groups the code indexes exist.
\<close>

theorem ParseDataSourcesInfoFromDdl_total: "\<exists>sources. ParseDataSourcesInfoFromDdl ddl = Ok sources"
  using parseLines_Ok [of "Tokenize ddl" "[]"] by (simp add: ParseDataSourcesInfoFromDdl_def)

text \<open>
  C33: the servers of a script are found. Take a text made of statements \<open>CREATE SERVER n FOREIGN DATA WRAPPER t;\<close>, with keywords
  and names in any letter case, single blanks between the words, names of letters, digits and underscores without quotes, and neither a type
  nor a version of the server, and with anything between the statements that has no character of a word, such as line breaks. Then the
  data sources are exactly the pairs of names \<open>n\<close> and \<open>t\<close>, in lower case and in their order.
\<close>

theorem ParseDataSourcesInfoFromDdl_servers:
  assumes "list_all (\<lambda>(g, s, n, t). gap g \<and> word n \<and> word t \<and> ToUpper s = ToUpper (serverStatement n t)) script" and "gap g'"
  shows "ParseDataSourcesInfoFromDdl (concat (map (\<lambda>(g, s, n, t). g @ s) script) @ g') =
    Ok (map (\<lambda>(g, s, n, t). \<lparr>dsi_Name = ToLower n, dsi_Type = ToLower t\<rparr>) script)"
proof -
  let ?lines = "map (\<lambda>(g, s, n, t). (g, s)) script"
  have "list_all (\<lambda>(g, s). gap g \<and> plain_statement s) ?lines"
    using assms(1) serverStatement_plain by (fastforce simp: list_all_iff)
  from Tokenize_script [OF this assms(2)]
  have "Tokenize (concat (map (\<lambda>(g, s, n, t). g @ s) script) @ g') = map (\<lambda>(g, s, n, t). s) script"
    by (simp add: comp_def case_prod_unfold)
  moreover have "parseLines (map (\<lambda>(g, s, n, t). s) script) sources =
      Ok (sources @ map (\<lambda>(g, s, n, t). \<lparr>dsi_Name = ToLower n, dsi_Type = ToLower t\<rparr>) script)" for sources
    using assms(1)
  proof (induction script arbitrary: sources)
    case (Cons e script)
    obtain g s n t where e: "e = (g, s, n, t)" by (metis prod_cases4)
    with Cons.prems have "word n" "word t" "ToUpper s = ToUpper (serverStatement n t)" by simp_all
    from serverStatement_sources [OF this] Cons show ?case by (simp add: e del: parseLines.simps)
  qed simp
  ultimately show ?thesis by (simp add: ParseDataSourcesInfoFromDdl_def)
qed

theorem ParseDataSourcesInfoFromDdl_servers_witness:
  "ParseDataSourcesInfoFromDdl (concat (map (\<lambda>(g, s, n, t). g @ s)
       [([], ''create server accountDB foreign data wrapper postgresql;'', ''accountDB'', ''postgresql''),
        ([CHR 0x0A], ''Create Server SF Foreign Data Wrapper salesforce;'', ''SF'', ''salesforce'')]) @ [CHR 0x0A]) =
    Ok [\<lparr>dsi_Name = ''accountdb'', dsi_Type = ''postgresql''\<rparr>, \<lparr>dsi_Name = ''sf'', dsi_Type = ''salesforce''\<rparr>]"
proof -
  have low: "ToLower ''accountDB'' = ''accountdb''" "ToLower ''postgresql'' = ''postgresql''" "ToLower ''SF'' = ''sf''"
    "ToLower ''salesforce'' = ''salesforce''" by code_simp+
  have "gap [CHR 0x0A]" "word ''accountDB''" "word ''postgresql''" "word ''SF''" "word ''salesforce''"
    "ToUpper ''create server accountDB foreign data wrapper postgresql;'' = ToUpper (serverStatement ''accountDB'' ''postgresql'')"
    "ToUpper ''Create Server SF Foreign Data Wrapper salesforce;'' = ToUpper (serverStatement ''SF'' ''salesforce'')"
    by code_simp+
  then show ?thesis by (subst ParseDataSourcesInfoFromDdl_servers) (simp_all add: low)
qed

text \<open>
  The check of data source names accepts a list exactly when every name starts with a letter
  and goes on with letters, digits and underscores, and reports the first one that does not.
\<close>

theorem ValidateDataSourceNames_spec:
  "ValidateDataSourceNames dss =
     (case find (\<lambda>d. \<not> sourceName (dsi_Name d)) dss of
        None \<Rightarrow> None
      | Some d \<Rightarrow> Some (Err (''The datasource with name '' @ dsi_Name d @
          '' does not confirm to naming rules. Can not contain any special characters/hyphens/periods'')))"
  by (induction dss) (simp_all add: Match_sourceNameRex)

end
