(* ===== verification/Convert_Ds.thy ===== *)
theory Convert_Ds
  imports Envvar Vdbutil
begin

text \<open>
  \<open>convert-ds-properties.go\<close>: the properties of the configured data sources as environment
  variables that Spring Boot maps back to its own property names.
\<close>

section \<open>Names\<close>

text \<open>\<open>strings.IndexFunc\<close>.\<close>

definition IndexFunc :: "string \<Rightarrow> (char \<Rightarrow> bool) \<Rightarrow> int" where
  "IndexFunc s f = (let n = length (takeWhile (\<lambda>c. \<not> f c) s) in if n = length s then -1 else int n)"

function tokenizeAtUpperCase :: "string \<Rightarrow> string list" where
  "tokenizeAtUpperCase s =
     (if s = [] then []
      else (let l = nat (IndexFunc (tl s) IsUpper + 1);
                l = (if l \<le> 0 then length s else l) in
            take l s # tokenizeAtUpperCase (drop l s)))"
  by pat_completeness auto

termination
  by (relation "measure length") (auto simp: Let_def)

declare tokenizeAtUpperCase.simps [simp del]

definition endsToken :: "string \<Rightarrow> bool" where
  "endsToken prev \<longleftrightarrow>
     length prev = 1 \<or> (length prev > 1 \<and> last prev = CHR ''.'') \<or> (length prev > 1 \<and> last prev = CHR ''-'')"

fun sanitizeLoop :: "string \<Rightarrow> string list \<Rightarrow> string \<Rightarrow> string" where
  "sanitizeLoop prev [] modified = modified"
| "sanitizeLoop prev (str # tokens) modified =
     sanitizeLoop str tokens
       (if endsToken prev then modified @ ToLower str else modified @ ''-'' @ ToLower str)"

definition sanitizeName :: "string \<Rightarrow> string" where
  "sanitizeName v =
     (case tokenizeAtUpperCase v of
        [] \<Rightarrow> []
      | str # tokens \<Rightarrow> sanitizeLoop str tokens (ToLower str))"

definition envReady :: "string \<Rightarrow> string" where
  "envReady v = ToUpper (ReplaceAll (ReplaceAll v CHR ''.'' ''_'') CHR ''-'' ''_'')"

definition removeDash :: "string \<Rightarrow> string" where
  "removeDash str = ReplaceAll str CHR ''-'' []"

section \<open>Conversion\<close>

fun findConfiguredProperties :: "string \<Rightarrow> DataSourceObject list \<Rightarrow> error + DataSourceObject" where
  "findConfiguredProperties name [] =
     Inl (Err (''Configuration for the Data Source '' @ name @
       '' not found in DataSources, one can define the configuration also using the ENV properties otherwise the deployment will fail''))"
| "findConfiguredProperties name (ds # configured) =
     (if EqualFold (ds_Name ds) name then Inr ds else findConfiguredProperties name configured)"

definition prefixFor :: "ConnectionFactory gomap \<Rightarrow> string \<Rightarrow> string" where
  "prefixFor factories typ =
     (case map_of factories (ToLower typ) of
        Some c \<Rightarrow> ToLower (SpringBootPropertyPrefix c)
      | None \<Rightarrow> ''spring.teiid.data.'' @ ToLower typ)"

fun convertProperties ::
  "string \<Rightarrow> string \<Rightarrow> string \<Rightarrow> EnvVar list \<Rightarrow> EnvVar list \<Rightarrow> error + EnvVar list" where
  "convertProperties dsName pre datasourceName [] envs = Inr envs"
| "convertProperties dsName pre datasourceName (p # ps) envs =
     (if CHR '' '' \<in> set (ev_Name p)
      then Inl (Err (''Datasource '' @ dsName @ '' has a Property '' @ ev_Name p @
             '' which has spaces in its name, which is not allowed''))
      else (let n = envReady (pre @ ''_'' @ datasourceName @ ''_'' @ sanitizeName (ev_Name p));
                envs = (if ev_Value p \<noteq> [] then SetVal envs n (ev_Value p) else envs);
                envs = (case ValueFrom p of None \<Rightarrow> envs | Some f \<Rightarrow> SetValueFrom envs n (Some f)) in
            convertProperties dsName pre datasourceName ps envs))"

fun convertSources ::
  "ConnectionFactory gomap \<Rightarrow> DataSourceObject list \<Rightarrow> DatasourceInfo list \<Rightarrow> EnvVar list \<Rightarrow> error + EnvVar list" where
  "convertSources factories configured [] envs = Inr envs"
| "convertSources factories configured (source # sources) envs =
     (case findConfiguredProperties (dsi_Name source) configured of
        Inl _ \<Rightarrow> convertSources factories configured sources envs
      | Inr c \<Rightarrow>
          if CHR '' '' \<in> set (ds_Name c)
          then Inl (Err (''Configured Datasource '' @ ds_Name c @ '' has spaces, which is not allowed''))
          else (case convertProperties (ds_Name c) (prefixFor factories (dsi_Type source))
                       (sanitizeName (removeDash (ToLower (dsi_Name source)))) (Properties c) envs of
                  Inl e \<Rightarrow> Inl e
                | Inr envs \<Rightarrow> convertSources factories configured sources envs))"

definition convert2SpringProperties ::
  "ConnectionFactory gomap \<Rightarrow> DataSourceObject list \<Rightarrow> DatasourceInfo list \<Rightarrow> error + EnvVar list" where
  "convert2SpringProperties factories sourcesConfigured sourcesFromDdl =
     convertSources factories sourcesConfigured sourcesFromDdl []"

section \<open>Lemmas\<close>

lemma tokenizeAtUpperCase_rec:
  assumes "s \<noteq> []"
  obtains l where "0 < l" "l \<le> length s" "tokenizeAtUpperCase s = take l s # tokenizeAtUpperCase (drop l s)"
    "list_all (\<lambda>c. \<not> IsUpper c) (tl (take l s))" "drop l s = [] \<or> IsUpper (hd (drop l s))"
proof -
  let ?n = "length (takeWhile (\<lambda>c. \<not> IsUpper c) (tl s))"
  let ?l = "Suc ?n"
  have n: "?n \<le> length (tl s)" by (rule length_takeWhile_le)
  have "tokenizeAtUpperCase s = take ?l s # tokenizeAtUpperCase (drop ?l s)"
    using assms n by (subst tokenizeAtUpperCase.simps) (auto simp: IndexFunc_def Let_def nat_add_distrib)
  moreover have "tl (take ?l s) = takeWhile (\<lambda>c. \<not> IsUpper c) (tl s)"
    by (cases s) (auto simp flip: takeWhile_eq_take)
  moreover have "drop ?l s = dropWhile (\<lambda>c. \<not> IsUpper c) (tl s)"
    by (cases s) (auto simp flip: dropWhile_eq_drop)
  moreover have "list_all (\<lambda>c. \<not> IsUpper c) (takeWhile (\<lambda>c. \<not> IsUpper c) (tl s))"
    by (auto simp: list_all_iff dest: set_takeWhileD)
  moreover have "IsUpper (hd t)" if "t = dropWhile (\<lambda>c. \<not> IsUpper c) (tl s)" and "t \<noteq> []" for t
    using that hd_dropWhile [of "\<lambda>c. \<not> IsUpper c" "tl s"] by auto
  moreover have "?l \<le> length s" using assms n by (cases s) auto
  ultimately show ?thesis using that [of ?l] by (metis zero_less_Suc)
qed

lemma tokens_concat: "concat (tokenizeAtUpperCase s) = s"
proof (induction s rule: length_induct)
  case (1 s)
  show ?case
  proof (cases "s = []")
    case False
    then obtain l where "0 < l" "l \<le> length s" "tokenizeAtUpperCase s = take l s # tokenizeAtUpperCase (drop l s)"
      by (metis tokenizeAtUpperCase_rec)
    with 1 False show ?thesis by simp
  qed (simp add: tokenizeAtUpperCase.simps)
qed

lemma tokens_shape: "list_all (\<lambda>t. t \<noteq> [] \<and> list_all (\<lambda>c. \<not> IsUpper c) (tl t)) (tokenizeAtUpperCase s)"
proof (induction s rule: length_induct)
  case (1 s)
  show ?case
  proof (cases "s = []")
    case False
    then obtain l where "0 < l" "l \<le> length s" "tokenizeAtUpperCase s = take l s # tokenizeAtUpperCase (drop l s)"
      "list_all (\<lambda>c. \<not> IsUpper c) (tl (take l s))"
      by (metis tokenizeAtUpperCase_rec)
    with 1 False show ?thesis by simp
  qed (simp add: tokenizeAtUpperCase.simps)
qed

abbreviation noDash :: "string \<Rightarrow> string" where
  "noDash \<equiv> filter (\<lambda>c. c \<noteq> CHR ''-'')"

lemma sanitizeLoop_noDash:
  "noDash (sanitizeLoop prev tokens modified) = noDash modified @ noDash (ToLower (concat tokens))"
  by (induction tokens arbitrary: prev modified) simp_all

lemma sanitizeLoop_lower:
  "list_all (\<lambda>c. \<not> IsUpper c) modified \<Longrightarrow> list_all (\<lambda>c. \<not> IsUpper c) (sanitizeLoop prev tokens modified)"
proof (induction tokens arbitrary: prev modified)
  case (Cons t tokens)
  have "\<not> IsUpper CHR ''-''" by code_simp
  moreover have "list_all (\<lambda>c. \<not> IsUpper c) (ToLower t)" by (simp add: ToLower_def list_all_iff)
  ultimately show ?case using Cons by simp
qed simp

text \<open>A name that is ready for the environment.\<close>

definition envChar :: "char \<Rightarrow> bool" where
  "envChar c \<longleftrightarrow> \<not> IsLower c \<and> c \<noteq> CHR ''.'' \<and> c \<noteq> CHR ''-''"

lemma envReady_chars: "list_all envChar (envReady v)"
proof -
  let ?s = "ReplaceAll (ReplaceAll v CHR ''.'' ''_'') CHR ''-'' ''_''"
  have "CHR ''-'' \<notin> set ?s" by (rule ReplaceAll_no_occ) simp
  moreover have "CHR ''.'' \<notin> set ?s"
    using ReplaceAll_no_occ [of "CHR ''.''" "''_''" v] ReplaceAll_set [of "ReplaceAll v CHR ''.'' ''_''" "CHR ''-''" "''_''"]
    by auto
  moreover have "toUpperC c \<noteq> d" if "c \<noteq> d" "d = CHR ''.'' \<or> d = CHR ''-''" for c d
  proof (cases "IsLower c")
    case True
    then have "IsUpper (toUpperC c)" by (rule toUpperC_upper)
    moreover have "\<not> IsUpper CHR ''.''" "\<not> IsUpper CHR ''-''" by code_simp+
    ultimately show ?thesis using that(2) by auto
  qed (use that in \<open>simp add: toUpperC_other\<close>)
  ultimately show ?thesis
    unfolding envReady_def ToUpper_def list_all_iff envChar_def by (auto, metis+)
qed

definition readyNames :: "EnvVar list \<Rightarrow> bool" where
  "readyNames envs \<longleftrightarrow> unique_names envs \<and> list_all (list_all envChar) (names envs)"

lemma readyNames_SetVal: "readyNames envs \<Longrightarrow> readyNames (SetVal envs (envReady n) v)"
  unfolding readyNames_def list_all_iff set_val.put_set_names
  using envReady_chars [of n] by (simp add: set_val.put_unique list_all_iff)

lemma readyNames_SetValueFrom: "readyNames envs \<Longrightarrow> readyNames (SetValueFrom envs (envReady n) v)"
  unfolding readyNames_def list_all_iff set_value_from.put_set_names
  using envReady_chars [of n] by (simp add: set_value_from.put_unique list_all_iff)

lemma convertProperties_ready:
  "convertProperties dsName pre d ps envs = Inr envs' \<Longrightarrow> readyNames envs \<Longrightarrow> readyNames envs'"
proof (induction ps arbitrary: envs)
  case (Cons p ps)
  then show ?case
    by (auto simp: Let_def readyNames_SetVal readyNames_SetValueFrom split: if_splits option.splits)
qed simp

lemma convertSources_ready:
  "convertSources factories configured sources envs = Inr envs' \<Longrightarrow> readyNames envs \<Longrightarrow> readyNames envs'"
proof (induction sources arbitrary: envs)
  case (Cons s sources)
  then show ?case by (auto dest: convertProperties_ready split: sum.splits if_splits)
qed simp

section \<open>Properties\<close>

text \<open>
  Cutting a name at its capitals loses nothing: the pieces put together are the name, none is
  empty, and a capital can only be the first letter of a piece.
\<close>

theorem tokenizeAtUpperCase_pieces:
  "concat (tokenizeAtUpperCase s) = s \<and>
   list_all (\<lambda>t. t \<noteq> [] \<and> list_all (\<lambda>c. \<not> IsUpper c) (tl t)) (tokenizeAtUpperCase s)"
  by (simp add: tokens_concat tokens_shape)

text \<open>
  Sanitizing a property name only puts dashes into its lower-case form: without dashes the two
  agree, and no capital is left.
\<close>

theorem sanitizeName_dashes:
  "noDash (sanitizeName v) = noDash (ToLower v) \<and> list_all (\<lambda>c. \<not> IsUpper c) (sanitizeName v)"
proof (cases "tokenizeAtUpperCase v")
  case Nil
  with tokens_concat [of v] have "v = []" by simp
  with Nil show ?thesis by (simp add: sanitizeName_def)
next
  case (Cons t ts)
  with tokens_concat [of v] have "v = t @ concat ts" by simp
  moreover have "list_all (\<lambda>c. \<not> IsUpper c) (ToLower t)" by (simp add: ToLower_def list_all_iff)
  ultimately show ?thesis using Cons by (simp add: sanitizeName_def sanitizeLoop_noDash sanitizeLoop_lower)
qed

text \<open>
  C40: every variable the conversion produces has a name in capitals without dots and dashes, and no
  name occurs twice.
\<close>

theorem convert2SpringProperties_names:
  assumes "convert2SpringProperties factories configured sources = Inr envs"
  shows "unique_names envs \<and> list_all (list_all envChar) (names envs)"
  using convertSources_ready [of factories configured sources "[]" envs] assms
  by (simp add: convert2SpringProperties_def readyNames_def unique_names_def)

theorem convert2SpringProperties_names_witness:
  "\<exists>envs. convert2SpringProperties []
       [\<lparr>ds_Name = ''accountdb'', ds_Type = ''postgresql'', Properties = [plainEnv ''jdbcUrl'' ''jdbc:x'']\<rparr>]
       [\<lparr>dsi_Name = ''accountdb'', dsi_Type = ''postgresql''\<rparr>] = Inr envs \<and>
     envs = [plainEnv ''SPRING_TEIID_DATA_POSTGRESQL_ACCOUNTDB_JDBC_URL'' ''jdbc:x''] \<and>
     unique_names envs \<and> list_all (list_all envChar) (names envs)"
proof -
  have "convert2SpringProperties []
       [\<lparr>ds_Name = ''accountdb'', ds_Type = ''postgresql'', Properties = [plainEnv ''jdbcUrl'' ''jdbc:x'']\<rparr>]
       [\<lparr>dsi_Name = ''accountdb'', dsi_Type = ''postgresql''\<rparr>] =
     Inr [plainEnv ''SPRING_TEIID_DATA_POSTGRESQL_ACCOUNTDB_JDBC_URL'' ''jdbc:x'']"
    by code_simp
  with convert2SpringProperties_names [OF this] show ?thesis by blast
qed

end
