(* ===== verification/Default_Envs.thy ===== *)
theory Default_Envs
  imports Proxy Convert_Ds
begin

text \<open>
  \<open>default_envs.go\<close>: the environment every container of a virtual database starts with, merged
  below what the user defines.
\<close>

section \<open>Operations\<close>

text \<open>\<open>for k, v := range properties { s = s + "-D" + k + "=" + v + " " }\<close>.\<close>

definition javaProperties :: "'w Reconciler \<Rightarrow> string gomap \<Rightarrow> ('w, string) M" where
  "javaProperties r properties =
     bindM (rangeM r properties) (\<lambda>kvs. returnM (concat (map (\<lambda>(k, v). ''-D'' @ k @ ''='' @ v @ '' '') kvs)))"

definition javaOptions :: string where
  "javaOptions =
     Join ['' '', ''-Djava.net.preferIPv4Stack=true'', ''-Duser.home=/tmp'',
       ''-Djava.net.preferIPv4Addresses=true'', ''-Djava.net.useSystemProxies=true''] '' ''"

definition fieldEnv :: "string \<Rightarrow> string \<Rightarrow> EnvVar" where
  "fieldEnv n path = \<lparr>ev_Name = n, ev_Value = [], ValueFrom = Some (fieldRefSource path)\<rparr>"

definition defaultEnv :: "string \<Rightarrow> EnvVar list" where
  "defaultEnv javaProps =
     [plainEnv ''JAVA_APP_DIR'' ''/deployments'',
      plainEnv ''JAVA_OPTIONS'' (javaProps @ javaOptions),
      plainEnv ''JAVA_DEBUG'' ''false'',
      plainEnv ''AB_JMX_EXPORTER_CONFIG'' ''/tmp/src/src/main/resources/prometheus-config.yml'',
      fieldEnv ''NAMESPACE'' ''metadata.namespace'',
      fieldEnv ''TEIID_NODENAME'' ''spec.nodeName'',
      fieldEnv ''TEIID_PODNAME'' ''metadata.name'']"

definition getDefaultEnvs :: "'w Reconciler \<Rightarrow> EnvVar list \<Rightarrow> ('w, EnvVar list) M" where
  "getDefaultEnvs r userDefined =
     (let envs = Clone userDefined;
          (allEnvs, properties) = HTTPSettings (osenv r) envs in
      bindM (javaProperties r properties) (\<lambda>javaProps.
        returnM (addMissing allEnvs (defaultEnv javaProps))))"

definition getDefaultJaegerEnvs :: "string \<Rightarrow> EnvVar list" where
  "getDefaultJaegerEnvs serviceName =
     SetVar (SetVar (SetVar [] (plainEnv ''JAEGER_AGENT_HOST'' ''localhost'')) (plainEnv ''JAEGER_AGENT_PORT'' ''6831''))
       (plainEnv ''JAEGER_SERVICE_NAME'' serviceName)"

section \<open>Lemmas\<close>

lemma getDefaultEnvs_Ok:
  "\<exists>props w'. getDefaultEnvs r userDefined w =
     (Ok (addMissing (fst (HTTPSettings (osenv r) (Clone userDefined))) (defaultEnv props)), w')"
proof -
  obtain envs ps where h: "HTTPSettings (osenv r) (Clone userDefined) = (envs, ps)" by fastforce
  obtain kvs w' where "rangeM r ps w = (Ok kvs, w')" using rangeM_total [of r ps w] by blast
  then show ?thesis by (simp add: getDefaultEnvs_def h javaProperties_def bindM_def returnM_def) blast
qed

definition defaultNames :: "string list" where
  "defaultNames =
     [''JAVA_APP_DIR'', ''JAVA_OPTIONS'', ''JAVA_DEBUG'', ''AB_JMX_EXPORTER_CONFIG'', ''NAMESPACE'', ''TEIID_NODENAME'',
      ''TEIID_PODNAME'']"

lemma defaultEnv_names: "names (defaultEnv props) = defaultNames"
  by (simp add: defaultEnv_def plainEnv_def fieldEnv_def defaultNames_def)

lemma getDefaultEnvs_base:
  "\<exists>envs w'. getDefaultEnvs r userDefined w = (Ok envs, w') \<and> unique_names envs \<and>
     (\<forall>n v. Get userDefined n = Some v \<longrightarrow> Get envs n = Some v) \<and>
     set (names userDefined) \<subseteq> set (names envs) \<and>
     set defaultNames \<subseteq> set (names envs)"
proof -
  let ?h = "fst (HTTPSettings (osenv r) (Clone userDefined))"
  obtain props w' where g: "getDefaultEnvs r userDefined w = (Ok (addMissing ?h (defaultEnv props)), w')"
    using getDefaultEnvs_Ok [of r userDefined w] by blast
  have keep: "Get (addMissing ?h (defaultEnv props)) n = Some v" if "Get userDefined n = Some v" for n v
    using that Get_HTTPSettings_mono [of "Clone userDefined" n "osenv r"] by (simp add: Get_Clone Get_addMissing)
  have "unique_names (addMissing ?h (defaultEnv props))"
    by (intro addMissing_unique HTTPSettings_unique Clone_unique)
  moreover have "set (names userDefined) \<subseteq> set (names (addMissing ?h (defaultEnv props)))"
    using keep Get_None_iff by (metis not_None_eq subsetI)
  moreover have "set (names (defaultEnv props)) \<subseteq> set (names (addMissing ?h (defaultEnv props)))"
    by (simp add: addMissing_set_names)
  ultimately show ?thesis using g keep by (simp add: defaultEnv_names)
qed

section \<open>Properties\<close>

text \<open>
  The user wins. A variable the user defines keeps its first definition, every default that the
  user leaves open is there, and no name occurs twice; computing the environment never fails.
\<close>

theorem getDefaultEnvs_user_wins:
  "\<exists>envs w'. getDefaultEnvs r userDefined w = (Ok envs, w') \<and> unique_names envs \<and>
     (\<forall>n v. Get userDefined n = Some v \<longrightarrow> Get envs n = Some v) \<and>
     set (names userDefined) \<subseteq> set (names envs) \<and>
     set defaultNames \<subseteq> set (names envs)"
  by (rule getDefaultEnvs_base)

theorem getDefaultEnvs_user_wins_witness:
  "\<exists>envs w'. getDefaultEnvs emptyCluster [plainEnv ''JAVA_DEBUG'' ''true''] () = (Ok envs, w') \<and>
     Get envs ''JAVA_DEBUG'' = Some (plainEnv ''JAVA_DEBUG'' ''true'') \<and> ''JAVA_OPTIONS'' \<in> set (names envs)"
proof -
  have "Get [plainEnv ''JAVA_DEBUG'' ''true''] ''JAVA_DEBUG'' = Some (plainEnv ''JAVA_DEBUG'' ''true'')"
    by (simp add: plainEnv_def)
  moreover have "''JAVA_OPTIONS'' \<in> set defaultNames" by (simp add: defaultNames_def)
  moreover note getDefaultEnvs_user_wins [of emptyCluster "[plainEnv ''JAVA_DEBUG'' ''true'']" "()"]
  ultimately show ?thesis by blast
qed

text \<open>
  The text of \<open>JAVA_OPTIONS\<close> depends on the order in which a Go map happens to be visited. With a
  proxy of a host and a port there are two visiting orders, both permutations, that give different
  environments for the same user input.
\<close>

theorem getDefaultEnvs_order_dependent:
  "\<exists>(r :: unit Reconciler) r'. range_permutes r \<and> range_permutes r' \<and> (\<exists>f. r' = r\<lparr>rangeKeys := f\<rparr>) \<and>
     fst (getDefaultEnvs r [plainEnv ''HTTP_PROXY'' ''http://p:80''] ()) \<noteq>
     fst (getDefaultEnvs r' [plainEnv ''HTTP_PROXY'' ''http://p:80''] ())"
proof -
  let ?r' = "emptyCluster\<lparr>rangeKeys := (\<lambda>ks w. (rev ks, w))\<rparr>"
  have "range_permutes emptyCluster" "range_permutes ?r'"
    by (simp_all add: range_permutes_def emptyCluster_def)
  moreover have p: "parseHTTPProxy ''http://p:80'' = [(''http.proxyHost'', ''p''), (''http.proxyPort'', ''80'')]"
    using parseHTTPProxy_props [of "''p''" "''80''"] by (simp add: char_ranges)
  moreover have "fst (getDefaultEnvs emptyCluster [plainEnv ''HTTP_PROXY'' ''http://p:80''] ()) \<noteq>
     fst (getDefaultEnvs ?r' [plainEnv ''HTTP_PROXY'' ''http://p:80''] ())"
    by (simp add: getDefaultEnvs_def HTTPSettings_def Clone_def plainEnv_def SetVar_def p javaProperties_def rangeM_def
        emptyCluster_def map_filter_simps monad_defs Getenv_def defaultEnv_def fieldEnv_def)
  ultimately show ?thesis by blast
qed

end
