(* ===== verification/Pom.thy ===== *)
theory Pom
  imports Default_Envs
begin

text \<open>
  \<open>pom.go\<close>: the Maven project of a build, generated from the specification, the data sources of the
  DDL and the operator's configuration; and the settings file of the build.
\<close>

section \<open>The base project\<close>

definition snapshotsRepo :: Repository where
  "snapshotsRepo =
     \<lparr>repo_ID = ''snapshots-repo'', repo_Name = [], URL = ''https://oss.sonatype.org/content/repositories/snapshots'',
      Snapshots = emptyPolicy\<lparr>Enabled := True\<rparr>, Releases = emptyPolicy\<lparr>Enabled := False\<rparr>\<rparr>"

definition plainExecution :: "string \<Rightarrow> string \<Rightarrow> string list \<Rightarrow> PluginConfiguration \<Rightarrow> Execution" where
  "plainExecution i p goals c = \<lparr>exec_ID = i, exec_Phase = p, Goals = goals, exec_Configuration = c\<rparr>"

definition createMavenProject :: "Configuration \<Rightarrow> string \<Rightarrow> Project" where
  "createMavenProject conf name =
     \<lparr>XMLName = ''project'', XMLNs = ''http://maven.apache.org/POM/4.0.0'',
      XMLNsXsi = ''http://www.w3.org/2001/XMLSchema-instance'',
      XsiSchemaLocation = ''http://maven.apache.org/POM/4.0.0 http://maven.apache.org/xsd/maven-4.0.0.xsd'',
      ModelVersion = ''4.0.0'', p_GroupID = ''io.integration'', p_ArtifactID = name, p_Version = ''1.0.0'',
      Packaging = ''jar'',
      p_Parent = \<lparr>par_GroupID = ''org.basepom'', par_ArtifactID = ''basepom-oss'', par_Version = ''30''\<rparr>,
      p_Properties = [], DependencyManagement = [],
      p_Dependencies =
        [gavDependency ''org.teiid'' ''teiid-spring-boot-starter'' (TeiidSpringBootVersion conf),
         gavDependency ''org.springframework.boot'' ''spring-boot-starter-actuator'' (SpringBootVersion conf),
         gavDependency ''io.opentracing.contrib'' ''opentracing-spring-jaeger-web-starter'' ''1.0.1'',
         gavDependency ''com.h2database'' ''h2'' ''1.4.199''],
      Repositories = [snapshotsRepo], PluginRepositories = [snapshotsRepo],
      p_Build = \<lparr>DefaultGoal = [], Plugins =
        [\<lparr>plug_GroupID = ''org.springframework.boot'', plug_ArtifactID = ''spring-boot-maven-plugin'',
          plug_Version = SpringBootVersion conf,
          Executions = [plainExecution ''repackage'' ''package'' [''repackage''] emptyPluginConfiguration],
          plug_Dependencies = []\<rparr>]\<rparr>\<rparr>"

definition createPlainMavenProject :: "string \<Rightarrow> Project" where
  "createPlainMavenProject name =
     \<lparr>XMLName = ''project'', XMLNs = ''http://maven.apache.org/POM/4.0.0'',
      XMLNsXsi = ''http://www.w3.org/2001/XMLSchema-instance'',
      XsiSchemaLocation = ''http://maven.apache.org/POM/4.0.0 http://maven.apache.org/xsd/maven-4.0.0.xsd'',
      ModelVersion = ''4.0.0'', p_GroupID = ''io.integration'', p_ArtifactID = name, p_Version = ''1.0.0'',
      Packaging = ''pom'', p_Parent = \<lparr>par_GroupID = [], par_ArtifactID = [], par_Version = []\<rparr>,
      p_Properties = [], DependencyManagement = [], p_Dependencies = [],
      Repositories = [snapshotsRepo], PluginRepositories = [snapshotsRepo],
      p_Build = \<lparr>DefaultGoal = [], Plugins = []\<rparr>\<rparr>"

section \<open>Generation\<close>

definition teiidDependency :: "Configuration \<Rightarrow> string \<Rightarrow> Dependency" where
  "teiidDependency conf artifact = gavDependency ''org.teiid'' artifact (TeiidSpringBootVersion conf)"

definition addDependency :: "Configuration \<Rightarrow> ConnectionFactory \<Rightarrow> Project \<Rightarrow> Project" where
  "addDependency conf cf project =
     AddDependencies [teiidDependency conf (''spring-data-'' @ cf_Name cf)] project"

fun addCoordinates :: "string list \<Rightarrow> Project \<Rightarrow> error + Project" where
  "addCoordinates [] project = Inr project"
| "addCoordinates (str # strs) project =
     (case ParseGAV str of
        Inl e \<Rightarrow> Inl e
      | Inr d \<Rightarrow> addCoordinates strs (AddDependencies [d] project))"

definition addExpose :: "Configuration \<Rightarrow> ExposeType \<Rightarrow> Project \<Rightarrow> Project" where
  "addExpose conf exposeType project =
     (if exposeType = ExposeVia3scale then AddDependencies [teiidDependency conf ''spring-keycloak''] project
      else project)"

definition addSource :: "Configuration \<Rightarrow> ConnectionFactory gomap \<Rightarrow> DatasourceInfo \<Rightarrow> Project \<Rightarrow> Project" where
  "addSource conf factories s project =
     (case map_of factories (dsi_Type s) of
        Some v \<Rightarrow> addDependency conf v project
      | None \<Rightarrow> project)"

definition GenerateVdbPom ::
  "'w Reconciler \<Rightarrow> VirtualDatabase \<Rightarrow> DatasourceInfo list \<Rightarrow> bool \<Rightarrow> bool \<Rightarrow> bool \<Rightarrow> ('w, Project) M" where
  "GenerateVdbPom r vdb sources includeAllDependencies includeOpenAPIAdependency includeIspnDependency =
     bindM (resM (of_sum (addCoordinates (Dependencies (vdb_Source vdb))
              (createMavenProject (Config r) (vdb_Name vdb))))) (\<lambda>project.
     bindM (if includeAllDependencies
            then bindM (rangeM r (ConnectionFactories r)) (\<lambda>cfs.
                   returnM (fold (\<lambda>(k, v). addDependency (Config r) v) cfs project))
            else returnM (fold (addSource (Config r) (ConnectionFactories r)) sources project)) (\<lambda>project.
       let project = fold (addExpose (Config r)) (Expose (Spec vdb)) project;
           project = (if includeIspnDependency
                      then AddDependencies [teiidDependency (Config r) ''spring-data-infinispan-hotrod''] project
                      else project);
           project = (if includeAllDependencies \<or> Get (spec_Env (Spec vdb)) ''KEYCLOAK_AUTH_SERVER_URL'' \<noteq> None
                      then AddDependencies [teiidDependency (Config r) ''spring-keycloak''] project else project);
           project = (if includeOpenAPIAdependency \<or> includeAllDependencies
                      then AddDependencies [teiidDependency (Config r) ''spring-openapi''] project else project);
           project = (if \<not> includeOpenAPIAdependency \<or> includeAllDependencies
                      then AddDependencies [teiidDependency (Config r) ''spring-odata''] project else project) in
       returnM (AddDependencies [gavDependency ''me.snowdrop'' ''narayana-spring-boot-starter'' ''2.1.0''] project)))"

definition repositoryOf :: "string \<times> string \<Rightarrow> Repository" where
  "repositoryOf kv = NewRepository (snd kv @ ''@id='' @ fst kv)"

definition GenerateJarPom :: "'w Reconciler \<Rightarrow> VirtualDatabase \<Rightarrow> ('w, Project) M" where
  "GenerateJarPom r vdb =
     bindM (rangeM r (GetMavenRepositories (Config r) vdb)) (\<lambda>repos.
       returnM (fold (\<lambda>kv p. AddPluginRepository (repositoryOf kv) (AddRepository (repositoryOf kv) p)) repos
         (createPlainMavenProject (vdb_Name vdb))))"

definition addCopyPlugIn :: "Dependency \<Rightarrow> string \<Rightarrow> string \<Rightarrow> string \<Rightarrow> Project \<Rightarrow> Project" where
  "addCopyPlugIn vdbDependency artifactType targetName outputDirectory project =
     AddBuildPlugin
       \<lparr>plug_GroupID = ''org.apache.maven.plugins'', plug_ArtifactID = ''maven-dependency-plugin'', plug_Version = [],
        Executions = [plainExecution ''copy-vdb'' ''generate-sources'' [''copy'']
          (emptyPluginConfiguration\<lparr>ArtifactItems :=
             [\<lparr>ai_GroupID = GroupID vdbDependency, ai_ArtifactID = ArtifactID vdbDependency,
               ai_Version = dep_Version vdbDependency, ai_Type = artifactType, DestinationFileName = targetName\<rparr>],
             OutputDirectory := outputDirectory\<rparr>)],
        plug_Dependencies = []\<rparr> project"

definition addVdbCodeGenPlugIn :: "Configuration \<Rightarrow> string \<Rightarrow> bool \<Rightarrow> string \<Rightarrow> Project \<Rightarrow> Project" where
  "addVdbCodeGenPlugIn conf vdbFilePath materializationEnable version project =
     PrependBuildPlugin
       \<lparr>plug_GroupID = ''org.teiid'', plug_ArtifactID = ''vdb-codegen-plugin'',
        plug_Version = TeiidSpringBootVersion conf,
        Executions = [plainExecution ''codegen'' ''generate-sources'' [''vdb-codegen'']
          (emptyPluginConfiguration\<lparr>VdbFile := vdbFilePath, MaterializationType := ''infinispan-hotrod'',
             MaterializationEnable := materializationEnable, VdbVersion := version\<rparr>)],
        plug_Dependencies = []\<rparr> project"

section \<open>Documents\<close>

definition xmlHeader :: string where
  "xmlHeader = ''<?xml version='' @ [dq] @ ''1.0'' @ [dq] @ '' encoding='' @ [dq] @ ''UTF-8'' @ [dq] @ ''?>'' @ [CHR 0x0A]"

definition EncodeXML :: "('c \<Rightarrow> error + string) \<Rightarrow> 'c \<Rightarrow> ('w, string) M" where
  "EncodeXML encode content =
     (case encode content of
        Inl e \<Rightarrow> failM e
      | Inr s \<Rightarrow> returnM (xmlHeader @ s))"

definition settingsSelector :: "string \<Rightarrow> KeySelector" where
  "settingsSelector nam = \<lparr>sel_Name = nam, sel_Key = ''settings.xml'', sel_Optional = None\<rparr>"

definition readMavenSettingsFile :: "'w Reconciler \<Rightarrow> VirtualDatabase \<Rightarrow> Repository list \<Rightarrow> ('w, string) M" where
  "readMavenSettingsFile r vdb configuredRepositories =
     (let own = vdb_Name vdb @ ''-maven-settings''; ns = vdb_Namespace vdb in
      tryM (EncodeXML (xmlSettings r) (NewDefaultSettings configuredRepositories)) (\<lambda>encoded.
      bindM (HasSecret r own ns) (\<lambda>b.
        if b then GetSecretRefValue r ns (settingsSelector own)
        else bindM (HasConfigMap r own ns) (\<lambda>b.
          if b then GetConfigMapRefValue r ns (settingsSelector own)
          else bindM (HasSecret r ''teiid-maven-settings'' ns) (\<lambda>b.
            if b then GetSecretRefValue r ns (settingsSelector ''teiid-maven-settings'')
            else bindM (HasConfigMap r ''teiid-maven-settings'' ns) (\<lambda>b.
              if b then GetConfigMapRefValue r ns (settingsSelector ''teiid-maven-settings'')
              else resM (of_sum encoded)))))))"

section \<open>Lemmas\<close>

lemma noPanic_pom [np]:
  "noPanic (GenerateVdbPom r v s a b c)" "noPanic (GenerateJarPom r v)" "noPanic (EncodeXML enc x)"
  "noPanic (readMavenSettingsFile r v rs)"
  unfolding GenerateVdbPom_def GenerateJarPom_def readMavenSettingsFile_def EncodeXML_def
  by (rule np of_sum_not_Panic)+

text \<open>Every step of the generation adds dependencies and nothing else.\<close>

definition grows :: "Project \<Rightarrow> Project \<Rightarrow> bool" where
  "grows p q \<longleftrightarrow> (\<exists>ds. q = AddDependencies ds p)"

lemma grows_refl [simp]: "grows p p"
  unfolding grows_def by (metis AddDependencies_def fold_simps(1))

lemma grows_trans: "grows p q \<Longrightarrow> grows q u \<Longrightarrow> grows p u"
  unfolding grows_def by (metis AddDependencies_append)

lemma grows_add [simp]: "grows p (AddDependencies ds p)"
  by (auto simp: grows_def)

lemma grows_fold: "(\<And>x p. grows p (f x p)) \<Longrightarrow> grows p (fold f xs p)"
  by (induction xs arbitrary: p) (auto intro: grows_trans)

lemma grows_steps [simp]:
  "grows p (addDependency c cf p)" "grows p (addExpose c e p)" "grows p (addSource c fs s p)"
  by (auto simp: addDependency_def addExpose_def addSource_def split: option.split)

lemma addCoordinates_deps:
  "addCoordinates strs p = Inr q \<Longrightarrow> \<exists>ds. map ParseGAV strs = map Inr ds \<and> q = AddDependencies ds p"
proof (induction strs arbitrary: p)
  case Nil
  then show ?case by (simp add: AddDependencies_def)
next
  case (Cons s strs)
  then obtain d where d: "ParseGAV s = Inr d" "addCoordinates strs (AddDependencies [d] p) = Inr q"
    by (auto split: sum.splits)
  then obtain ds where "map ParseGAV strs = map Inr ds" "q = AddDependencies ds (AddDependencies [d] p)"
    using Cons.IH by blast
  with d show ?case by (intro exI [of _ "d # ds"]) (simp add: AddDependencies_def)
qed

lemma addCoordinates_fails: "(\<exists>e. addCoordinates strs p = Inl e) \<longleftrightarrow> list_ex (\<lambda>s. isl (ParseGAV s)) strs"
  by (induction strs arbitrary: p) (auto split: sum.split)

lemma GenerateVdbPom_cases:
  "(\<exists>e. GenerateVdbPom r vdb sources a b c w = (Fail e, w) \<and>
      addCoordinates (Dependencies (vdb_Source vdb)) (createMavenProject (Config r) (vdb_Name vdb)) = Inl e) \<or>
   (\<exists>p q w'. GenerateVdbPom r vdb sources a b c w = (Ok p, w') \<and>
      addCoordinates (Dependencies (vdb_Source vdb)) (createMavenProject (Config r) (vdb_Name vdb)) = Inr q \<and> grows q p)"
proof (cases "addCoordinates (Dependencies (vdb_Source vdb)) (createMavenProject (Config r) (vdb_Name vdb))")
  case (Inl e)
  then show ?thesis by (simp add: GenerateVdbPom_def bindM_def resM_def)
next
  case (Inr q)
  obtain cfs w' where cfs: "rangeM r (ConnectionFactories r) w = (Ok cfs, w')"
    using rangeM_total [of r "ConnectionFactories r" w] by blast
  have "grows q (fold (\<lambda>(k, v). addDependency (Config r) v) cfs q)"
    by (rule grows_fold) (simp split: prod.split)
  moreover have "grows q (fold (addSource (Config r) (ConnectionFactories r)) sources q)"
    by (rule grows_fold) simp
  moreover have "grows p (fold (addExpose (Config r)) es p)" for es p
    by (rule grows_fold) simp
  ultimately have "\<exists>p w'. GenerateVdbPom r vdb sources a b c w = (Ok p, w') \<and> grows q p"
    using Inr cfs
    by (cases a) (simp_all add: GenerateVdbPom_def bindM_def resM_def returnM_def Let_def,
        (meson grows_add grows_trans)+)
  with Inr show ?thesis by blast
qed

lemma grows_deps: "grows p q \<Longrightarrow> \<exists>ds. p_Dependencies q = fold addDep ds (p_Dependencies p)"
  by (auto simp: grows_def AddDependencies_deps)

section \<open>Properties\<close>

text \<open>
  Generating the project of a build fails exactly when one of the coordinates the user lists as a
  dependency cannot be read.
\<close>

theorem GenerateVdbPom_fails_iff:
  "(\<exists>e w'. GenerateVdbPom r vdb sources a b c w = (Fail e, w')) \<longleftrightarrow>
     list_ex (\<lambda>s. isl (ParseGAV s)) (Dependencies (vdb_Source vdb))"
  using GenerateVdbPom_cases [of r vdb sources a b c w] addCoordinates_fails
  by (metis Pair_inject old.sum.distinct(1) res.distinct(1))

text \<open>
  The generated project has no two dependencies of the same group and artifact. It starts with
  the four built-in ones, and each dependency of the user is found with the version the user asked
  for first, unless it is one of the built-in ones, which win.
\<close>

theorem GenerateVdbPom_dependencies:
  assumes "GenerateVdbPom r vdb sources a b c w = (Ok p, w')"
  shows "distinct (map dep_key (p_Dependencies p)) \<and>
    (\<exists>ds. map ParseGAV (Dependencies (vdb_Source vdb)) = map Inr ds \<and>
      prefix (p_Dependencies (createMavenProject (Config r) (vdb_Name vdb))) (p_Dependencies p) \<and>
      (\<forall>d \<in> set ds. LookupDependency p d =
         find (\<lambda>x. dep_key x = dep_key d) (p_Dependencies (createMavenProject (Config r) (vdb_Name vdb)) @ ds)))"
proof -
  let ?base = "createMavenProject (Config r) (vdb_Name vdb)"
  obtain q where q: "addCoordinates (Dependencies (vdb_Source vdb)) ?base = Inr q" "grows q p"
    using GenerateVdbPom_cases [of r vdb sources a b c w] assms by auto
  obtain ds where ds: "map ParseGAV (Dependencies (vdb_Source vdb)) = map Inr ds" "q = AddDependencies ds ?base"
    using addCoordinates_deps [OF q(1)] by blast
  obtain es where es: "p_Dependencies p = fold addDep es (fold addDep ds (p_Dependencies ?base))"
    using grows_deps [OF q(2)] ds(2) by (auto simp: AddDependencies_deps)
  have base: "distinct (map dep_key (p_Dependencies ?base))"
    by (simp add: createMavenProject_def gavDependency_def)
  have "distinct (map dep_key (p_Dependencies p))"
    unfolding es by (intro dep_list.add_all_distinct base)
  moreover have "prefix (p_Dependencies ?base) (p_Dependencies p)"
    using dep_list.add_all_prefix [of "ds @ es" "p_Dependencies ?base"] unfolding es prefix_def by simp
  moreover have "LookupDependency p d = find (\<lambda>x. dep_key x = dep_key d) (p_Dependencies ?base @ ds)" if mem: "d \<in> set ds" for d
  proof -
    obtain x where x: "find (\<lambda>z. dep_key z = dep_key d) (fold addDep ds (p_Dependencies ?base)) = Some x"
        "find (\<lambda>z. dep_key z = dep_key d) (p_Dependencies ?base @ ds) = Some x"
      using dep_list.add_all_first [OF mem] by blast
    from dep_list.add_all_find [OF x(1), of es] show ?thesis
      by (simp only: es LookupDependency_def lookupDep_find x(2))
  qed
  ultimately show ?thesis using ds(1) by blast
qed

theorem GenerateVdbPom_dependencies_witness:
  "\<exists>p w'. GenerateVdbPom emptyCluster (withDeps [''a:b:1''] emptyVdb) [] False False False () = (Ok p, w') \<and>
     distinct (map dep_key (p_Dependencies p))"
proof -
  have "addCoordinates [''a:b:1''] q = Inr (AddDependencies [NewDependency ''a'' ''b'' ''1''] q)" for q
  proof -
    have "ParseGAV ''a:b:1'' = Inr (NewDependency ''a'' ''b'' ''1'')" by code_simp
    then show ?thesis by simp
  qed
  moreover have "Dependencies (vdb_Source (withDeps [''a:b:1''] emptyVdb)) = [''a:b:1'']" by simp
  ultimately have "addCoordinates (Dependencies (vdb_Source (withDeps [''a:b:1''] emptyVdb))) q \<noteq> Inl e" for q e
    by (simp only: sum.distinct(2)) simp
  with GenerateVdbPom_cases [of emptyCluster "withDeps [''a:b:1''] emptyVdb" "[]" False False False "()"]
  obtain p w' where p: "GenerateVdbPom emptyCluster (withDeps [''a:b:1''] emptyVdb) [] False False False () = (Ok p, w')"
    by metis
  from GenerateVdbPom_dependencies [OF p] p show ?thesis by blast
qed

end
