(* ===== verification/S2i_Builder.thy ===== *)
theory S2i_Builder
  imports Cachestore Image Pom
begin

text \<open>
  \<open>s2i_builder_image.go\<close>: building the base image from which the image of every virtual database in
  the namespace is built, and following the builds of it.
\<close>

section \<open>Operations\<close>

definition s2i_CanHandle :: "VirtualDatabase \<Rightarrow> bool" where
  "s2i_CanHandle vdb =
     (vdb_Phase vdb = ReconcilerPhaseS2IReady \<or> vdb_Phase vdb = ReconcilerPhaseBuilderImage)"

definition getBuilds :: "'w Reconciler \<Rightarrow> VirtualDatabase \<Rightarrow> ('w, Objects.Build list) M" where
  "getBuilds r vdb = listM (builds r) (vdb_Namespace vdb) (Some (''buildconfig'', BuilderImageTargetName))"

definition defaultBuildOptions :: string where
  "defaultBuildOptions =
     Join ['' '', ''-Djava.net.useSystemProxies=true'', ''-Dmaven.compiler.source=1.8'', ''-Dmaven.compiler.target=1.8'',
       ''-DskipTests'', ''-Dmaven.javadoc.skip=true'', ''-Dmaven.site.skip=true'', ''-Dmaven.source.skip=true'',
       ''-Djacoco.skip=true'', ''-Dcheckstyle.skip=true'', ''-Dfindbugs.skip=true'', ''-Dpmd.skip=true'',
       ''-Dfabric8.skip=true'', ''-Dbasepom.check.skip-dependency=true'', ''-Dbasepom.check.skip-duplicate-finder=true'',
       ''-Dbasepom.check.skip-spotbugs=true'', ''-Dbasepom.check.skip-dependency-versions-check=true'',
       ''-Dbasepom.check.skip-dependency-management=true'', ''-Dbasepom.check.skip-dependency-scope=true'',
       ''-Dbasepom.check.skip-license=true'', ''-Dbasepom.check.skip-pmd=true'', ''-Dbasepom.check.skip-checkstyle=true'',
       ''-Dbasepom.check.skip-javadoc=true'', ''-e'', ''-B''] '' ''"

definition emptyBuildConfig :: "string \<Rightarrow> string \<Rightarrow> BuildConfig" where
  "emptyBuildConfig nam ns =
     \<lparr>bc_Meta = objectMeta nam ns, OutputTo = None, SourceType = [], Binary = False, StrategyType = [],
      SourceStrategy = None, LastVersion = 0\<rparr>"

definition s2i_buildBC :: "'w Reconciler \<Rightarrow> VirtualDatabase \<Rightarrow> ('w, BuildConfig) M" where
  "s2i_buildBC r vdb =
     (let (envs, jp) = HTTPSettings (osenv r) [] in
      bindM (javaProperties r jp) (\<lambda>javaProps.
      let envs = SetVal envs ''DEPLOYMENTS_DIR'' ''/tmp'';
          envs = SetVal envs ''MAVEN_ARGS_APPEND'' (''clean package '' @ javaProps @ defaultBuildOptions);
          envs = SetVal envs ''ARTIFACT_DIR'' ''target/'';
          bi = conf_BuildImage (Config r);
          imageName = ImageName bi @ '':'' @ Tag bi in
      bindM (CheckImageStream r (ImageName bi) (vdb_Namespace vdb)) (\<lambda>found.
      bindM (if \<not> found
             then CreateImageStream r (ImageName bi) (vdb_Namespace vdb)
                    (Registry bi @ ''/'' @ ImagePrefix bi @ ''/'' @ ImageName bi) (Tag bi)
             else returnM ()) (\<lambda>_.
        returnM ((emptyBuildConfig BuilderImageTargetName (vdb_Namespace vdb))
          \<lparr>Binary := True,
           OutputTo := Some \<lparr>ref_Kind = ''ImageStreamTag'', ref_Name = Join [BuilderImageTargetName, ''latest''] '':'',
             ref_Namespace = []\<rparr>,
           StrategyType := ''Source'',
           SourceStrategy := Some \<lparr>From = \<lparr>ref_Kind = ''ImageStreamTag'', ref_Name = imageName,
               ref_Namespace = vdb_Namespace vdb\<rparr>, Incremental = Some True, ForcePull = False, strategy_Env = envs\<rparr>\<rparr>)))))"

definition ddlFile :: string where
  "ddlFile =
     ''CREATE DATABASE customer OPTIONS (ANNOTATION '' @ [sq] @ ''Customer VDB'' @ [sq] @ '');'' @ [CHR 0x09, CHR 0x0A] @
     [CHR 0x09] @ ''USE DATABASE customer;'' @ [CHR 0x0A] @
     [CHR 0x09] @ ''CREATE FOREIGN DATA WRAPPER h2;'' @ [CHR 0x0A] @
     [CHR 0x09] @ ''CREATE SERVER mydb FOREIGN DATA WRAPPER h2;''"

definition builderVdb :: "string \<Rightarrow> string gomap \<Rightarrow> VirtualDatabase" where
  "builderVdb namespace mavenRepositories =
     emptyVdb\<lparr>vdb_Meta := objectMeta ''virtualdatabase-image'' namespace,
       Spec := emptySpec\<lparr>Build := \<lparr>build_Env = [],
         build_Source = emptySource\<lparr>DDL := ddlFile, MavenRepositories := mavenRepositories\<rparr>\<rparr>\<rparr>\<rparr>"

definition s2i_triggerBuild :: "'w Reconciler \<Rightarrow> BuildConfig \<Rightarrow> string gomap \<Rightarrow> ('w, unit) M" where
  "s2i_triggerBuild r bc mavenRepositories =
     (let ns = Namespace (bc_Meta bc); vdbCopy = builderVdb ns mavenRepositories in
      bindM (getM (buildConfigs r) ns (Name (bc_Meta bc))) (\<lambda>buildConfig.
      bindM (resM (ParseDataSourcesInfoFromDdl (DDL (vdb_Source vdbCopy)))) (\<lambda>sources.
      bindM (GenerateVdbPom r vdbCopy sources True True True) (\<lambda>pom.
      bindM (resM (of_sum (ParseGAV ''org.teiid:teiid-common-core:12.3.1''))) (\<lambda>jarDependency.
      let pom = addCopyPlugIn jarDependency ''jar'' ''app.jar'' ''/tmp'' pom;
          pom = addVdbCodeGenPlugIn (Config r) ''/tmp/src/src/main/resources/teiid.ddl'' False ''0'' pom in
      bindM (EncodeXML (xmlProject r) pom) (\<lambda>pomContent.
      bindM (rangeM r (GetMavenRepositories (Config r) vdbCopy)) (\<lambda>mavenRepos.
      bindM (readMavenSettingsFile r vdbCopy (map repositoryOf mavenRepos)) (\<lambda>settingsContent.
      bindM (Tar r [(''/configuration/settings.xml'', settingsContent), (''/pom.xml'', pomContent),
              (''/src/main/resources/teiid.ddl'', ddlFile)]) (\<lambda>tarReader.
        callM (instantiateBinary r ns (Name (bc_Meta buildConfig)) tarReader))))))))))"

definition buildFailed :: "Objects.Build \<Rightarrow> bool" where
  "buildFailed b \<longleftrightarrow>
     build_Phase b = BuildPhaseError \<or> build_Phase b = BuildPhaseFailed \<or> build_Phase b = BuildPhaseCancelled"

fun retriggerFailed :: "'w Reconciler \<Rightarrow> VirtualDatabase \<Rightarrow> BuildConfig \<Rightarrow> Objects.Build list \<Rightarrow> ('w, unit) M" where
  "retriggerFailed r vdb bc [] = returnM ()"
| "retriggerFailed r vdb bc (b # bs) =
     bindM (if buildFailed b then s2i_triggerBuild r bc (GetMavenRepositories (Config r) vdb) else returnM ())
       (\<lambda>_. retriggerFailed r vdb bc bs)"

text \<open>The first half of \<open>Handle\<close>, up to the change of the phase.\<close>

definition s2i_prepare :: "'w Reconciler \<Rightarrow> VirtualDatabase \<Rightarrow> ('w, unit) M" where
  "s2i_prepare r vdb =
     tryM (getM (deployments r) (Getenv (osenv r) ''WATCH_NAMESPACE'') (Getenv (osenv r) ''OPERATOR_NAME'')) (\<lambda>d.
     let opDeployment = (case d of Inr x \<Rightarrow> x | Inl _ \<Rightarrow> emptyDeployment) in
     bindM (s2i_buildBC r vdb) (\<lambda>buildConfig.
     bindM (EnsureImageStream r (Name (bc_Meta buildConfig)) (vdb_Namespace vdb) True (dc_Meta opDeployment)) (\<lambda>_.
     case SourceStrategy buildConfig of
       None \<Rightarrow> panicM ''nil pointer dereference''
     | Some strategy \<Rightarrow>
     bindM (getM (imageStreamTags r) (ref_Namespace (From strategy)) (ref_Name (From strategy))) (\<lambda>_.
     tryM (getM (buildConfigs r) (Namespace (bc_Meta buildConfig)) (Name (bc_Meta buildConfig))) (\<lambda>x.
     bindM (case x of
              Inr bc \<Rightarrow> returnM bc
            | Inl e \<Rightarrow>
                if IsNotFound e
                then (let buildConfig =
                            (case setControllerReference r (dc_Meta opDeployment) (bc_Meta buildConfig) of
                               Inr m \<Rightarrow> buildConfig\<lparr>bc_Meta := m\<rparr>
                             | Inl _ \<Rightarrow> buildConfig) in
                      createM (buildConfigs r) buildConfig)
                else failM e) (\<lambda>bc.
       if LastVersion bc = 0
       then s2i_triggerBuild r bc (GetMavenRepositories (Config r) vdb)
       else bindM (getBuilds r vdb) (\<lambda>bs. retriggerFailed r vdb bc bs)))))))"

definition builderStep :: "Objects.Build \<Rightarrow> ReconcilerPhase \<Rightarrow> ReconcilerPhase" where
  "builderStep build phase =
     (if build_Phase build = BuildPhaseComplete \<and> phase \<noteq> ReconcilerPhaseBuilderImageFinished
      then ReconcilerPhaseBuilderImageFinished
      else if buildFailed build \<and> phase \<noteq> ReconcilerPhaseBuilderImageFailed
      then ReconcilerPhaseBuilderImageFailed
      else if build_Phase build = BuildPhaseRunning \<and> phase \<noteq> ReconcilerPhaseBuilderImage
      then ReconcilerPhaseBuilderImage
      else phase)"

definition s2i_Handle :: "'w Reconciler \<Rightarrow> 'w handler" where
  "s2i_Handle r =
     bindM getV (\<lambda>vdb.
       if vdb_Phase vdb = ReconcilerPhaseS2IReady
       then bindM (liftW (s2i_prepare r vdb)) (\<lambda>_. modV (setPhase ReconcilerPhaseBuilderImage))
       else if vdb_Phase vdb = ReconcilerPhaseBuilderImage
       then bindM (liftW (getBuilds r vdb)) (\<lambda>bs. modV (\<lambda>vdb. setPhase (fold builderStep bs (vdb_Phase vdb)) vdb))
       else returnM ())"

definition News2IBuilderImageAction :: "'w Reconciler \<Rightarrow> 'w Step" where
  [new_action]: "News2IBuilderImageAction r = \<lparr>step_Name = ''S2IBuilderImageAction'', CanHandle = s2i_CanHandle, Handle = s2i_Handle r\<rparr>"

section \<open>Lemmas\<close>

text \<open>What a build says about the phase, if anything.\<close>

definition verdict :: "Objects.Build \<Rightarrow> ReconcilerPhase option" where
  "verdict b =
     (if build_Phase b = BuildPhaseComplete then Some ReconcilerPhaseBuilderImageFinished
      else if buildFailed b then Some ReconcilerPhaseBuilderImageFailed
      else if build_Phase b = BuildPhaseRunning then Some ReconcilerPhaseBuilderImage
      else None)"

lemma builderStep_verdict: "builderStep b p = (case verdict b of None \<Rightarrow> p | Some q \<Rightarrow> q)"
  by (auto simp: builderStep_def verdict_def buildFailed_def)

lemma fold_builderStep:
  "fold builderStep bs p = (case List.map_filter verdict (rev bs) of [] \<Rightarrow> p | q # _ \<Rightarrow> q)"
proof (induction bs rule: rev_induct)
  case (snoc b bs)
  then show ?case by (simp add: builderStep_verdict map_filter_simps split: option.split)
qed (simp add: map_filter_simps)

definition builderEdges :: "(ReconcilerPhase \<times> ReconcilerPhase) set" where
  "builderEdges =
     {(ReconcilerPhaseS2IReady, ReconcilerPhaseBuilderImage),
      (ReconcilerPhaseBuilderImage, ReconcilerPhaseBuilderImageFinished),
      (ReconcilerPhaseBuilderImage, ReconcilerPhaseBuilderImageFailed)}"

lemma fold_builderStep_range:
  "fold builderStep bs p \<in> {p, ReconcilerPhaseBuilderImage, ReconcilerPhaseBuilderImageFinished, ReconcilerPhaseBuilderImageFailed}"
  by (induction bs arbitrary: p) (auto simp: builderStep_def)

lemma s2i_post:
  assumes "\<And>res. Q res v"
    and "vdb_Phase v = ReconcilerPhaseS2IReady \<Longrightarrow> Q (Ok ()) (setPhase ReconcilerPhaseBuilderImage v)"
    and "\<And>bs. vdb_Phase v = ReconcilerPhaseBuilderImage \<Longrightarrow> Q (Ok ()) (setPhase (fold builderStep bs ReconcilerPhaseBuilderImage) v)"
  shows "post v (s2i_Handle r) Q"
  unfolding s2i_Handle_def by (rule wp | simp add: assms)+

interpretation s2i_builder: action s2i_CanHandle "s2i_Handle r" builderEdges for r
proof unfold_locales
  fix v :: VirtualDatabase
  show "post v (s2i_Handle r) (\<lambda>res v'. vdb_Phase v' = vdb_Phase v \<or> (vdb_Phase v, vdb_Phase v') \<in> builderEdges)"
    using fold_builderStep_range [of _ ReconcilerPhaseBuilderImage]
    by (intro s2i_post) (auto simp: builderEdges_def)
qed (auto simp: s2i_CanHandle_def intro!: s2i_post)

section \<open>Properties\<close>

text \<open>
  While the base image is built, the phase follows the last build in the list the API server
  returns that is complete, failed or running; builds that are new or pending do not count, and
  without any such build nothing changes. The build numbers play no part.
\<close>

theorem s2i_Handle_last_verdict:
  assumes "vdb_Phase v = ReconcilerPhaseBuilderImage"
    and "rList (builds r) (vdb_Namespace v) (Some (''buildconfig'', BuilderImageTargetName)) w = (Inr bs, w')"
  shows "s2i_Handle r (v, w) =
    (Ok (), setPhase (case List.map_filter verdict (rev bs) of [] \<Rightarrow> ReconcilerPhaseBuilderImage | q # _ \<Rightarrow> q) v, w')"
  using assms
  by (simp add: s2i_Handle_def getBuilds_def bindM_def getV_def liftW_def modV_def listM_def callM_def fold_builderStep split: list.split)

theorem s2i_Handle_last_verdict_witness:
  "s2i_Handle (emptyCluster\<lparr>builds := constClient (emptyBuild\<lparr>build_Phase := BuildPhaseComplete\<rparr>)\<rparr>)
     (emptyVdb\<lparr>Status := emptyStatus\<lparr>Phase := ReconcilerPhaseBuilderImage\<rparr>\<rparr>, ()) =
   (Ok (), setPhase ReconcilerPhaseBuilderImageFinished
      (emptyVdb\<lparr>Status := emptyStatus\<lparr>Phase := ReconcilerPhaseBuilderImage\<rparr>\<rparr>), ())"
  by (subst s2i_Handle_last_verdict [where bs = "[emptyBuild\<lparr>build_Phase := BuildPhaseComplete\<rparr>]" and w' = "()"])
    (simp_all add: constClient_def map_filter_simps verdict_def)

end
