(* ===== verification/Prometheus_Config.thy ===== *)
theory Prometheus_Config
  imports Kubernetes_Util
begin

text \<open>
  \<open>prometheus-config.go\<close>: the rules of the metrics exporter, from a config map of the namespace when it
  has any, and otherwise the built-in ones. The built-in text is given line by line.
\<close>

definition defaultRules :: "string list" where
  "defaultRules =
     (let sq = CHR 0x27; dq = CHR 0x22; bs = CHR 0x5C in
     [[],
      ''    startDelaySecs: 5'',
      ''    ssl: false'',
      ''    blacklistObjectNames: ['' @ [dq] @ ''java.lang:*'' @ [dq] @ '']'',
      ''    rules:'',
      ''    # Runtime/Engine level'',
      ''      - pattern: '' @ [sq] @ ''org.teiid<type=Runtime><>TotalRequestsProcessed'' @ [sq],
      ''        name: org.teiid.TotalRequestsProcessed'',
      ''        help: Total Requests Processed'',
      ''        type: COUNTER'',
      ''        labels:'',
      ''            type: runtime'',
      ''      - pattern: '' @ [sq] @ ''org.teiid<type=Runtime><>WaitingRequestsCount'' @ [sq],
      ''        name: org.teiid.WaitingRequestsCount'',
      ''        help: Requests that are waiting to begin processing'',
      ''        type: GAUGE'',
      ''        labels:'',
      ''            type: runtime      '',
      ''      - pattern: '' @ [sq] @ ''org.teiid<type=Runtime><>ActiveEngineThreadCount'' @ [sq],
      ''        name: org.teiid.ActiveEngineThreadCount'',
      ''        help: Number of Engine Threads Currently Working'',
      ''        type: GAUGE'',
      ''        labels:'',
      ''            type: runtime'',
      ''      - pattern: '' @ [sq] @ ''org.teiid<type=Runtime><>QueuedEngineWorkItems'' @ [sq],
      ''        name: org.teiid.QueuedEngineWorkItems'',
      ''        help: Number of Queued Work Items'',
      ''        type: GAUGE'',
      ''        labels:'',
      ''            type: runtime'',
      ''      - pattern: '' @ [sq] @ ''org.teiid<type=Runtime><>LongRunningRequestCount'' @ [sq],
      ''        name: org.teiid.LongRunningRequestCount'',
      ''        help: Number of Long Running Requests'',
      ''        type: GAUGE'',
      ''        labels:'',
      ''            type: runtime'',
      ''      - pattern: '' @ [sq] @ ''org.teiid<type=Runtime><>TotalOutOfDiskErrors'' @ [sq],
      ''        name: org.teiid.TotalOutOfDiskErrors'',
      ''        help: Total Buffer Out Of Disk Errors'',
      ''        type: COUNTER'',
      ''        labels:'',
      ''            type: runtime'',
      ''      - pattern: '' @ [sq] @ ''org.teiid<type=Runtime><>PercentBufferDiskSpaceInUse'' @ [sq],
      ''        name: org.teiid.PercentBufferDiskSpaceInUse'',
      ''        help: Percent Buffer Disk Space In Use'',
      ''        type: GAUGE'',
      ''        labels:'',
      ''            type: runtime'',
      ''      - pattern: '' @ [sq] @ ''org.teiid<type=Runtime><EngineStatisticsBean>sessionCount'' @ [sq],
      ''        name: org.teiid.SessionCount'',
      ''        help: Number of Client Sessions'',
      ''        type: GAUGE'',
      ''        labels:'',
      ''            type: runtime'',
      ''      - pattern: '' @ [sq] @ ''org.teiid<type=Runtime><EngineStatisticsBean>diskSpaceUsedInMB'' @ [sq],
      ''        name: org.teiid.DiskSpaceUsedInMB'',
      ''        help: Amount of Disk MB in Use'',
      ''        type: GAUGE'',
      ''        labels:'',
      ''            type: runtime'',
      ''      - pattern: '' @ [sq] @ ''org.teiid<type=Runtime><EngineStatisticsBean>activePlanCount'' @ [sq],
      ''        name: org.teiid.ActiveRequestCount'',
      ''        help: Number of Actively Processing Requests'',
      ''        type: GAUGE'',
      ''        labels:'',
      ''            type: runtime'',
      ''            '',
      ''    #cache'',
      ''      - pattern: '' @ [sq] @ ''org.teiid<type=Cache, name=('' @ [bs] @ ''w*)><>RequestCount'' @ [sq],
      ''        name: org.teiid.CacheRequestCount'',
      ''        help: Number of Cache Reads'',
      ''        type: GAUGE'',
      ''        labels:'',
      ''            type: cache'',
      ''            entry: $1'',
      ''      - pattern: '' @ [sq] @ ''org.teiid<type=Cache, name=('' @ [bs] @ ''w*)><>TotalEntries'' @ [sq],
      ''        name: org.teiid.CacheTotalEntries'',
      ''        help: Number of Cache Entries'',
      ''        type: GAUGE'',
      ''        labels:'',
      ''            type: cache'',
      ''            entry: $1'',
      ''      - pattern: '' @ [sq] @ ''org.teiid<type=Cache, name=('' @ [bs] @ ''w*)><>HitRatio'' @ [sq],
      ''        name: org.teiid.CacheHitRatio'',
      ''        help: Hits / Total Attempts'',
      ''        type: GAUGE'',
      ''        labels:'',
      ''            type: cache'',
      ''            entry: $1'',
      [],
      ''    ''])"

definition PrometheusConfig :: "'w Reconciler \<Rightarrow> string \<Rightarrow> ('w, string) M" where
  "PrometheusConfig r namespace =
     tryM (GetConfigMap r ''teiid-prometheus-config'' namespace) (\<lambda>x. case x of
       Inr cm \<Rightarrow> if mapGet (cm_Data cm) ''rules'' \<noteq> [] then returnM (mapGet (cm_Data cm) ''rules'')
                 else returnM (Join defaultRules [CHR 0x0A])
     | Inl _ \<Rightarrow> returnM (Join defaultRules [CHR 0x0A]))"

lemma succeeds_PrometheusConfig: "succeeds (PrometheusConfig r namespace)"
  unfolding PrometheusConfig_def by (auto intro!: succeeds_tryM np split: sum.split)

lemmas noPanic_PrometheusConfig [np] = succeeds_noPanic [OF succeeds_PrometheusConfig]

end
