(* ===== verification/Service_Image.thy ===== *)
theory Service_Image
  imports S2i_Builder Prometheus_Config
begin

text \<open>
  \<open>service_image.go\<close>: the build configuration of a virtual database, the files of its binary build,
  the decision whether a build is due, and the monitoring of the build that runs.
\<close>

section \<open>Payloads\<close>

definition service_CanHandle :: "VirtualDatabase \<Rightarrow> bool" where
  "service_CanHandle vdb =
     (vdb_Phase vdb = ReconcilerPhaseBuilderImageFinished \<or> vdb_Phase vdb = ReconcilerPhaseServiceImage)"

definition isFatJarBuild :: "VirtualDatabase \<Rightarrow> bool" where
  "isFatJarBuild vdb =
     (if Maven (vdb_Source vdb) \<noteq> []
      then (if \<not> Contains (Maven (vdb_Source vdb)) '':vdb:'' then True else False)
      else False)"

definition newServiceBC :: "'w Reconciler \<Rightarrow> VirtualDatabase \<Rightarrow> ('w, BuildConfig) M" where
  "newServiceBC r vdb =
     (let baseImage = Join [BuilderImageTargetName, ''latest''] '':'';
          (envs, jp) = HTTPSettings (osenv r) (Clone (build_Env (Build (Spec vdb)))) in
      bindM (javaProperties r jp) (\<lambda>javaProps.
      let envs = SetVal envs ''DEPLOYMENTS_DIR'' ''/deployments'';
          envs = SetVal envs ''MAVEN_ARGS'' (''clean package '' @ javaProps @ defaultBuildOptions);
          envs = SetVal envs ''DIGEST'' (Digest (Status vdb)) in
      returnM ((emptyBuildConfig (vdb_Name vdb) (vdb_Namespace vdb))
        \<lparr>bc_Meta := (objectMeta (vdb_Name vdb) (vdb_Namespace vdb))\<lparr>Labels := [(''app'', vdb_Name vdb)]\<rparr>,
         OutputTo := Some \<lparr>ref_Kind = ''ImageStreamTag'', ref_Name = Join [vdb_Name vdb, ''latest''] '':'',
           ref_Namespace = []\<rparr>,
         SourceType := ''Binary'', Binary := True, StrategyType := ''Source'',
         SourceStrategy := Some \<lparr>From = \<lparr>ref_Kind = ''ImageStreamTag'', ref_Name = baseImage, ref_Namespace = []\<rparr>,
           Incremental = Some False, ForcePull = False, strategy_Env = envs\<rparr>\<rparr>)))"

definition applicationProperties :: "string \<Rightarrow> string \<Rightarrow> string" where
  "applicationProperties vdbProperty vdbName =
     Join [''logging.level.io.jaegertracing.internal.reporters=WARN'',
       ''logging.level.i.j.internal.reporters.LoggingReporter=WARN'', ''logging.level.org.teiid.SECURITY=WARN'',
       ''spring.main.allow-bean-definition-overriding=true'', ''teiid.jdbc-secure-enable=true'',
       ''teiid.pg-secure-enable=true'', ''teiid.jdbc-enable=true'', ''teiid.pg-enable=true'',
       ''teiid.ssl.keyStoreType=pkcs12'',
       ''teiid.ssl.keyStoreFileName='' @ KeystoreLocation @ ''/'' @ KeystoreName,
       ''teiid.ssl.keyStorePassword='' @ KeystorePassword,
       ''teiid.ssl.trustStoreFileName='' @ KeystoreLocation @ ''/'' @ TruststoreName,
       ''teiid.ssl.trustStorePassword='' @ KeystorePassword,
       ''keycloak.truststore='' @ KeystoreLocation @ ''/'' @ TruststoreName,
       ''keycloak.truststore-password='' @ KeystorePassword,
       ''springfox.documentation.swagger.v2.path=/openapi.json'', ''spring.teiid.model.package=io.integration'',
       ''spring.application.name='' @ vdbName, ''management.health.mongo.enabled=false'',
       ''management.health.db.enabled=false'', vdbProperty] [CHR 0x0A]"

definition buildJarBasedPayload :: "'w Reconciler \<Rightarrow> VirtualDatabase \<Rightarrow> ('w, string gomap) M" where
  "buildJarBasedPayload r vdb =
     bindM (GenerateJarPom r vdb) (\<lambda>pom.
     bindM (resM (of_sum (ParseGAV (Maven (vdb_Source vdb))))) (\<lambda>jarDependency.
     let pom = addCopyPlugIn jarDependency ''jar'' ''app.jar'' ''${project.build.directory}'' pom in
     bindM (EncodeXML (xmlProject r) pom) (\<lambda>pomContent.
     bindM (PrometheusConfig r (vdb_Namespace vdb)) (\<lambda>prom.
       returnM [(''/pom.xml'', pomContent), (''/src/main/resources/prometheus-config.yml'', prom)]))))"

definition buildVdbBasedPayload :: "'w Reconciler \<Rightarrow> VirtualDatabase \<Rightarrow> ('w, string gomap) M" where
  "buildVdbBasedPayload r vdb =
     (let addOpenAPI = (length (OpenAPI (vdb_Source vdb)) > 0);
          files = (if addOpenAPI then [(''/src/main/resources/openapi.json'', OpenAPI (vdb_Source vdb))] else []) in
      bindM (FetchDdl r vdb ''/tmp/teiid.vdb'') (\<lambda>ddlStr.
      bindM (IgnoreCacheStore r vdb) (\<lambda>ignoreIspn.
      let vdbNeedsCacheStore = (ShouldMaterialize ddlStr \<and> \<not> ignoreIspn) in
      bindM (resM (ParseDataSourcesInfoFromDdl ddlStr)) (\<lambda>dataSourceInfos.
      case ValidateDataSourceNames dataSourceInfos of
        Some e \<Rightarrow> failM e
      | None \<Rightarrow>
      bindM (GenerateVdbPom r vdb dataSourceInfos False addOpenAPI vdbNeedsCacheStore) (\<lambda>pom.
      let pom = addVdbCodeGenPlugIn (Config r) ''/tmp/src/src/main/resources/teiid.ddl'' vdbNeedsCacheStore
                  (Version (Status vdb)) pom;
          vdbFile = (if vdbNeedsCacheStore then ''teiid.vdb-file=materialized.ddl'' else ''teiid.vdb-file=teiid.ddl'') in
      bindM (EncodeXML (xmlProject r) pom) (\<lambda>pomContent.
      bindM (rangeM r (GetMavenRepositories (Config r) vdb)) (\<lambda>mavenRepos.
      bindM (readMavenSettingsFile r vdb (map repositoryOf mavenRepos)) (\<lambda>settingsContent.
      bindM (PrometheusConfig r (vdb_Namespace vdb)) (\<lambda>prom.
        returnM (files @ [(''/src/main/resources/teiid.ddl'', ddlStr), (''/configuration/settings.xml'', settingsContent),
          (''/pom.xml'', pomContent), (''/src/main/resources/prometheus-config.yml'', prom),
          (''/src/main/resources/application.properties'', applicationProperties vdbFile (vdb_Name vdb))]))))))))))"

section \<open>Builds\<close>

definition service_triggerBuild :: "'w Reconciler \<Rightarrow> BuildConfig \<Rightarrow> string gomap \<Rightarrow> ('w, unit) M" where
  "service_triggerBuild r bc files =
     bindM (getM (buildConfigs r) (Namespace (bc_Meta bc)) (Name (bc_Meta bc))) (\<lambda>buildConfig.
       if SourceType buildConfig = ''Binary''
       then bindM (Tar r files) (\<lambda>tarReader.
              case SourceStrategy buildConfig of
                None \<Rightarrow> panicM ''nil pointer dereference''
              | Some strategy \<Rightarrow>
                  tryM (getM (imageStreamTags r) (Namespace (bc_Meta buildConfig)) (ref_Name (From strategy))) (\<lambda>x.
                    case x of
                      Inl e \<Rightarrow> if IsNotFound e then returnM () else failM e
                    | Inr _ \<Rightarrow>
                        callM (instantiateBinary r (Namespace (bc_Meta bc)) (Name (bc_Meta buildConfig)) tarReader)))
       else callM (instantiate r (Namespace (bc_Meta buildConfig)) (Name (bc_Meta buildConfig))
              ''Triggered by VirtualDatabase operator''))"

definition onlyGit :: error where
  "onlyGit = Err ''Only Git and DDL Content based, Maven based VDBs are allowed, none of these types are defined''"

text \<open>\<open>digest.Value\<close> is only read when a build has run before; a missing \<open>DIGEST\<close> is then a nil dereference.\<close>

definition buildIsDue :: "VirtualDatabase \<Rightarrow> BuildConfig \<Rightarrow> SourceBuildStrategy \<Rightarrow> bool res" where
  "buildIsDue vdb bc strategy =
     (if LastVersion bc = 0 then Ok True
      else case Get (strategy_Env strategy) ''DIGEST'' of
        None \<Rightarrow> Panic ''nil pointer dereference''
      | Some digest \<Rightarrow> Ok (ev_Value digest \<noteq> Digest (Status vdb)))"

definition buildServiceImage :: "'w Reconciler \<Rightarrow> VirtualDatabase \<Rightarrow> ('w, unit) M" where
  "buildServiceImage r vdb =
     (if DDL (vdb_Source vdb) = [] \<and> Maven (vdb_Source vdb) = [] then failM onlyGit
      else
        bindM (EnsureImageStream r (vdb_Name vdb) (vdb_Namespace vdb) True (vdb_Meta vdb)) (\<lambda>_.
        tryM (getM (buildConfigs r) (vdb_Namespace vdb) (vdb_Name vdb)) (\<lambda>x.
        bindM (case x of
                 Inr bc \<Rightarrow> returnM bc
               | Inl e \<Rightarrow>
                   if IsNotFound e
                   then bindM (newServiceBC r vdb) (\<lambda>buildConfig.
                          let buildConfig =
                                (case setControllerReference r (vdb_Meta vdb) (bc_Meta buildConfig) of
                                   Inr m \<Rightarrow> buildConfig\<lparr>bc_Meta := m\<rparr>
                                 | Inl _ \<Rightarrow> buildConfig) in
                          createM (buildConfigs r) buildConfig)
                   else failM e) (\<lambda>bc.
        case SourceStrategy bc of
          None \<Rightarrow> panicM ''nil pointer dereference''
        | Some strategy \<Rightarrow>
        bindM (resM (buildIsDue vdb bc strategy)) (\<lambda>due.
          if due
          then bindM (updateM (buildConfigs r) (bc\<lparr>SourceStrategy := Some (strategy\<lparr>strategy_Env :=
                        SetVal (strategy_Env strategy) ''DIGEST'' (Digest (Status vdb))\<rparr>)\<rparr>)) (\<lambda>bc.
               bindM (if isFatJarBuild vdb then buildJarBasedPayload r vdb else buildVdbBasedPayload r vdb) (\<lambda>payload.
                 service_triggerBuild r bc payload))
          else returnM ())))))"

text \<open>The build with the highest number, or the empty build when no number is positive.\<close>

fun latestBuild :: "Objects.Build list \<Rightarrow> int \<Rightarrow> Objects.Build \<Rightarrow> Objects.Build" where
  "latestBuild [] maxBuildNumber build = build"
| "latestBuild (b # bs) maxBuildNumber build =
     (let i = fst (Atoi (annotation (build_Meta b) ''openshift.io/build.number'')) in
      if i > maxBuildNumber then latestBuild bs i b else latestBuild bs maxBuildNumber build)"

definition servicePhase :: "Objects.Build \<Rightarrow> ReconcilerPhase \<Rightarrow> ReconcilerPhase" where
  "servicePhase build phase =
     (if build_Phase build = BuildPhaseComplete then ReconcilerPhaseServiceImageFinished
      else if buildFailed build then ReconcilerPhaseServiceImageFailed
      else if build_Phase build = BuildPhaseRunning then ReconcilerPhaseServiceImage
      else phase)"

definition monitorServiceImage :: "'w Reconciler \<Rightarrow> 'w handler" where
  "monitorServiceImage r =
     bindM getV (\<lambda>vdb.
     bindM (liftW (listM (builds r) (vdb_Namespace vdb) (Some (''buildconfig'', vdb_Name vdb)))) (\<lambda>bs.
       modV (\<lambda>vdb. setPhase (servicePhase (latestBuild bs 0 emptyBuild) (vdb_Phase vdb)) vdb)))"

definition service_Handle :: "'w Reconciler \<Rightarrow> 'w handler" where
  "service_Handle r =
     bindM getV (\<lambda>vdb.
       if vdb_Phase vdb = ReconcilerPhaseBuilderImageFinished
       then bindM (modV (setPhase ReconcilerPhaseServiceImage)) (\<lambda>_.
            bindM getV (\<lambda>vdb.
            tryM (liftW (buildServiceImage r vdb)) (\<lambda>x. case x of
              Inr _ \<Rightarrow> returnM ()
            | Inl err \<Rightarrow>
                bindM (modV (setPhase ReconcilerPhaseError)) (\<lambda>_.
                bindM (modV (setFailure (Error err))) (\<lambda>_. failM err)))))
       else if vdb_Phase vdb = ReconcilerPhaseServiceImage then monitorServiceImage r
       else returnM ())"

definition NewServiceImageAction :: "'w Reconciler \<Rightarrow> 'w Step" where
  [new_action]: "NewServiceImageAction r = \<lparr>step_Name = ''ServiceImageAction'', CanHandle = service_CanHandle, Handle = service_Handle r\<rparr>"

section \<open>Lemmas\<close>

definition serviceEdges :: "(ReconcilerPhase \<times> ReconcilerPhase) set" where
  "serviceEdges =
     {(ReconcilerPhaseBuilderImageFinished, ReconcilerPhaseServiceImage),
      (ReconcilerPhaseBuilderImageFinished, ReconcilerPhaseError),
      (ReconcilerPhaseServiceImage, ReconcilerPhaseServiceImageFinished),
      (ReconcilerPhaseServiceImage, ReconcilerPhaseServiceImageFailed)}"

lemma service_post:
  assumes "\<And>res. Q res v"
    and "\<And>res. vdb_Phase v = ReconcilerPhaseBuilderImageFinished \<Longrightarrow> Q res (setPhase ReconcilerPhaseServiceImage v)"
    and "\<And>e m. vdb_Phase v = ReconcilerPhaseBuilderImageFinished \<Longrightarrow>
           Q (Fail e) (setFailure m (setPhase ReconcilerPhaseError (setPhase ReconcilerPhaseServiceImage v)))"
    and "\<And>b. vdb_Phase v = ReconcilerPhaseServiceImage \<Longrightarrow> Q (Ok ()) (setPhase (servicePhase b ReconcilerPhaseServiceImage) v)"
  shows "post v (service_Handle r) Q"
  unfolding service_Handle_def monitorServiceImage_def by (rule wp | simp add: assms)+

interpretation service_image: action service_CanHandle "service_Handle r" serviceEdges for r
proof unfold_locales
  fix v :: VirtualDatabase
  show "post v (service_Handle r) (\<lambda>res v'. vdb_Phase v' = vdb_Phase v \<or> (vdb_Phase v, vdb_Phase v') \<in> serviceEdges)"
    by (intro service_post) (auto simp: serviceEdges_def servicePhase_def)
qed (auto simp: service_CanHandle_def intro!: service_post)

abbreviation buildNumber :: "Objects.Build \<Rightarrow> int" where
  "buildNumber b \<equiv> fst (Atoi (annotation (build_Meta b) ''openshift.io/build.number''))"

lemma latestBuild_lower:
  "list_all (\<lambda>y. buildNumber y \<le> m) ys \<Longrightarrow> latestBuild ys m b = b"
  by (induction ys) auto

lemma latestBuild_max:
  assumes "m < buildNumber b" and "list_all (\<lambda>x. buildNumber x < buildNumber b) xs"
    and "list_all (\<lambda>y. buildNumber y \<le> buildNumber b) ys"
  shows "latestBuild (xs @ b # ys) m d = b"
  using assms by (induction xs arbitrary: m d) (auto simp: Let_def latestBuild_lower)

lemma buildServiceImage_current:
  assumes "DDL (vdb_Source vdb) \<noteq> []" and "CHR '':'' \<notin> set (vdb_Name vdb)"
    and "rGet (imageStreams r) (vdb_Namespace vdb) (vdb_Name vdb) w = (Inr ims, w)"
    and "rGet (buildConfigs r) (vdb_Namespace vdb) (vdb_Name vdb) w = (Inr bc, w)"
    and "LastVersion bc \<noteq> 0" and "SourceStrategy bc = Some st"
    and "Get (strategy_Env st) ''DIGEST'' = Some d" and "ev_Value d = Digest (Status vdb)"
  shows "buildServiceImage r vdb w = (Ok (), w)"
  using assms
  by (simp add: buildServiceImage_def EnsureImageStream_def CheckImageStream_def Split_no_occ buildIsDue_def
      bindM_def tryM_def returnM_def resM_def getM_def callM_def)

text \<open>
  A build whose builder image tag is missing is skipped without an error: the archive is made, no build is
  started, and as long as there is no build the watch leaves the phase as it is.
\<close>

lemma missing_builder_skipped:
  assumes "rGet (buildConfigs r) (Namespace (bc_Meta bc)) (Name (bc_Meta bc)) w = (Inr bc', w1)"
    and "SourceType bc' = ''Binary''" and "Tar r files w1 = (Ok archive, w2)" and "SourceStrategy bc' = Some st"
    and "rGet (imageStreamTags r) (Namespace (bc_Meta bc')) (ref_Name (From st)) w2 = (Inl (NotFound m), w3)"
  shows "service_triggerBuild r bc files w = (Ok (), w3)"
  using assms
  by (simp add: service_triggerBuild_def bindM_def tryM_def getM_def callM_def returnM_def)

lemma no_build_no_progress:
  assumes "rList (builds r) (vdb_Namespace v) (Some (''buildconfig'', vdb_Name v)) w = (Inr [], w')"
    and "vdb_Phase v = ReconcilerPhaseServiceImage"
  shows "service_Handle r (v, w) = (Ok (), v, w')"
proof -
  have "setPhase ReconcilerPhaseServiceImage v = v" using assms(2) by (simp add: vdb_set flip: assms(2))
  with assms show ?thesis
    by (simp add: service_Handle_def monitorServiceImage_def bindM_def getV_def liftW_def modV_def listM_def callM_def
        servicePhase_def buildFailed_def emptyBuild_def)
qed

section \<open>Properties\<close>

text \<open>
  C22: the phase of a virtual database whose image is built follows the build with the highest build
  number, wherever it stands in the list and whatever the older builds ended in: complete finishes the
  image, an error, a failure or a cancellation fails it, anything else leaves the phase.
\<close>

theorem monitorServiceImage_latest:
  assumes "rList (builds r) (vdb_Namespace v) (Some (''buildconfig'', vdb_Name v)) w = (Inr (xs @ b # ys), w')"
    and "0 < buildNumber b" and "list_all (\<lambda>x. buildNumber x < buildNumber b) (xs @ ys)"
    and "vdb_Phase v = ReconcilerPhaseServiceImage"
  shows "service_Handle r (v, w) =
    (Ok (), setPhase (if build_Phase b = BuildPhaseComplete then ReconcilerPhaseServiceImageFinished
        else if build_Phase b \<in> {BuildPhaseError, BuildPhaseFailed, BuildPhaseCancelled}
        then ReconcilerPhaseServiceImageFailed else ReconcilerPhaseServiceImage) v, w')"
proof -
  have "latestBuild (xs @ b # ys) 0 emptyBuild = b"
    using assms(2,3) by (intro latestBuild_max) (auto simp: list_all_iff intro: less_imp_le)
  then show ?thesis using assms(1,4)
    by (simp add: service_Handle_def monitorServiceImage_def bindM_def getV_def liftW_def modV_def listM_def callM_def
        servicePhase_def buildFailed_def)
qed

theorem monitorServiceImage_latest_witness:
  "service_Handle (emptyCluster\<lparr>builds := constClient (emptyBuild\<lparr>build_Phase := BuildPhaseComplete,
       build_Meta := (objectMeta ''b'' ''ns'')\<lparr>Annotations := Some [(''openshift.io/build.number'', ''2'')]\<rparr>\<rparr>)\<rparr>)
     (emptyVdb\<lparr>Status := emptyStatus\<lparr>Phase := ReconcilerPhaseServiceImage\<rparr>\<rparr>, ()) =
   (Ok (), setPhase ReconcilerPhaseServiceImageFinished
      (emptyVdb\<lparr>Status := emptyStatus\<lparr>Phase := ReconcilerPhaseServiceImage\<rparr>\<rparr>), ())"
proof -
  have "fst (Atoi ''2'') = 2" by code_simp
  then show ?thesis
    by (subst monitorServiceImage_latest [where xs = "[]" and ys = "[]" and w' = "()" and
          b = "emptyBuild\<lparr>build_Phase := BuildPhaseComplete,
            build_Meta := (objectMeta ''b'' ''ns'')\<lparr>Annotations := Some [(''openshift.io/build.number'', ''2'')]\<rparr>\<rparr>"])
      (simp_all add: constClient_def annotation_def mapGet_def)
qed

text \<open>
  a virtual database is not built twice for the same sources. When its image stream and its build
  configuration exist, a build has run and the recorded digest is that of the sources, preparing the
  image succeeds without any further call to the cluster.
\<close>

theorem buildServiceImage_not_due:
  assumes "DDL (vdb_Source vdb) \<noteq> []" and "CHR '':'' \<notin> set (vdb_Name vdb)"
    and "rGet (imageStreams r) (vdb_Namespace vdb) (vdb_Name vdb) w = (Inr ims, w)"
    and "rGet (buildConfigs r) (vdb_Namespace vdb) (vdb_Name vdb) w = (Inr bc, w)"
    and "LastVersion bc \<noteq> 0" and "SourceStrategy bc = Some st"
    and "Get (strategy_Env st) ''DIGEST'' = Some d" and "ev_Value d = Digest (Status vdb)"
  shows "buildServiceImage r vdb w = (Ok (), w)"
  using assms by (rule buildServiceImage_current)

theorem buildServiceImage_not_due_witness:
  "buildServiceImage (emptyCluster\<lparr>imageStreams := constClient (imageStream ''shop'' ''ns''),
      buildConfigs := constClient ((emptyBuildConfig ''shop'' ''ns'')\<lparr>LastVersion := 1,
        SourceStrategy := Some \<lparr>From = \<lparr>ref_Kind = [], ref_Name = [], ref_Namespace = []\<rparr>, Incremental = None,
          ForcePull = False, strategy_Env = [plainEnv ''DIGEST'' ''v1'']\<rparr>\<rparr>)\<rparr>)
    ((withDDL ''CREATE DATABASE shop;'' emptyVdb)\<lparr>vdb_Meta := objectMeta ''shop'' ''ns'',
       Status := emptyStatus\<lparr>Digest := ''v1''\<rparr>\<rparr>) () = (Ok (), ())"
  by (rule buildServiceImage_not_due [where d = "plainEnv ''DIGEST'' ''v1''" and ims = "imageStream ''shop'' ''ns''"
        and bc = "(emptyBuildConfig ''shop'' ''ns'')\<lparr>LastVersion := 1,
          SourceStrategy := Some \<lparr>From = \<lparr>ref_Kind = [], ref_Name = [], ref_Namespace = []\<rparr>, Incremental = None,
            ForcePull = False, strategy_Env = [plainEnv ''DIGEST'' ''v1'']\<rparr>\<rparr>"
        and st = "\<lparr>From = \<lparr>ref_Kind = [], ref_Name = [], ref_Namespace = []\<rparr>, Incremental = None,
            ForcePull = False, strategy_Env = [plainEnv ''DIGEST'' ''v1'']\<rparr>"])
    (simp_all add: constClient_def objectMeta_def emptyBuildConfig_def plainEnv_def)

text \<open>
  C24: what is built is what the user wrote. When the files of a build are put together, none of them is
  there twice; the DDL among them is that of the specification, unless it comes out of a Maven artifact,
  and its data sources passed the check of their names; the OpenAPI document is included exactly when
  there is one; and the project, the settings, the exporter rules and the application properties are there.
\<close>

theorem buildVdbBasedPayload_complete:
  assumes "buildVdbBasedPayload r vdb w = (Ok files, w')" and "Maven (vdb_Source vdb) = []"
  shows "distinct (map fst files) \<and>
    map_of files ''/src/main/resources/teiid.ddl'' = Some (DDL (vdb_Source vdb)) \<and>
    (\<exists>sources. ParseDataSourcesInfoFromDdl (DDL (vdb_Source vdb)) = Ok sources \<and> ValidateDataSourceNames sources = None) \<and>
    map_of files ''/src/main/resources/openapi.json'' =
      (if OpenAPI (vdb_Source vdb) = [] then None else Some (OpenAPI (vdb_Source vdb))) \<and>
    {''/pom.xml'', ''/configuration/settings.xml'', ''/src/main/resources/prometheus-config.yml'',
      ''/src/main/resources/application.properties''} \<subseteq> set (map fst files)"
    (is "?P files")
proof -
  have "ensures (buildVdbBasedPayload r vdb) ?P"
    unfolding buildVdbBasedPayload_def FetchDdl_def Let_def
    by (rule ens | auto simp: resM_def returnM_def assms(2))+
  then show ?thesis using assms(1) by (rule ensuresD)
qed

theorem buildVdbBasedPayload_complete_witness:
  "\<exists>files w'. buildVdbBasedPayload (emptyCluster :: unit Reconciler) (withDDL ''CREATE DATABASE shop;'' emptyVdb) () = (Ok files, w') \<and>
     map_of files ''/src/main/resources/teiid.ddl'' = Some ''CREATE DATABASE shop;''"
proof -
  let ?m = "buildVdbBasedPayload (emptyCluster :: unit Reconciler) (withDDL ''CREATE DATABASE shop;'' emptyVdb) ()"
  have "case fst ?m of Ok _ \<Rightarrow> True | _ \<Rightarrow> False" by code_simp
  then obtain files w' where f: "?m = (Ok files, w')" by (cases ?m; cases "fst ?m") auto
  from buildVdbBasedPayload_complete [OF f] f show ?thesis by (simp add: emptyVdb_def emptySpec_def emptySource_def)
qed

end
