(* ===== verification/Webconsole.thy ===== *)
theory Webconsole
  imports Kubernetes_Util
begin

text \<open>
  \<open>pkg/util/openshift/webconsole.go\<close>: the link to a virtual database on the dashboard of its
  namespace, and the YAML samples of the console. Errors are logged and dropped, so the operations on
  links return nothing.
\<close>

section \<open>Links\<close>

definition ConsoleLinkExists :: "'w Reconciler \<Rightarrow> ('w, unit) M" where
  "ConsoleLinkExists r = callM (crdExists r ''ConsoleLink'')"

definition consoleLinkText :: "Objects.Route \<Rightarrow> string" where
  "consoleLinkText route = ''VirtualDatabase - '' @ Name (route_Meta route)"

definition consoleLinkName :: "ObjectMeta \<Rightarrow> string" where
  "consoleLinkName m = Name m @ ''-'' @ Namespace m"

definition createNamespaceDashboardLink :: "string \<Rightarrow> Objects.Route \<Rightarrow> VirtualDatabase \<Rightarrow> ConsoleLink" where
  "createNamespaceDashboardLink linkName route vdb =
     \<lparr>link_Meta = (objectMeta linkName [])\<lparr>Labels := [(''teiid.io/name'', vdb_Name vdb)]\<rparr>,
      Text = consoleLinkText route, Href = ''https://'' @ Host route, Location = ''NamespaceDashboard'',
      Namespaces = [vdb_Namespace vdb]\<rparr>"

definition reconcileConsoleLink :: "'w Reconciler \<Rightarrow> Objects.Route \<Rightarrow> ConsoleLink \<Rightarrow> ('w, unit) M" where
  "reconcileConsoleLink r route link =
     (let url = ''https://'' @ Host route; linkTxt = consoleLinkText route in
      if url \<noteq> Href link \<or> linkTxt \<noteq> Text link
      then tryM (updateM (consoleLinks r) (link\<lparr>Href := url, Text := linkTxt\<rparr>)) (\<lambda>_. returnM ())
      else returnM ())"

definition checkConsoleLink :: "'w Reconciler \<Rightarrow> Objects.Route \<Rightarrow> string \<Rightarrow> VirtualDatabase \<Rightarrow> ('w, unit) M" where
  "checkConsoleLink r route linkName vdb =
     tryM (getM (consoleLinks r) [] linkName) (\<lambda>x. case x of
       Inl e \<Rightarrow>
         if IsNotFound e
         then tryM (createM (consoleLinks r) (createNamespaceDashboardLink linkName route vdb)) (\<lambda>_. returnM ())
         else returnM ()
     | Inr link \<Rightarrow> reconcileConsoleLink r route link)"

definition doCreateConsoleLink :: "'w Reconciler \<Rightarrow> string \<Rightarrow> Objects.Route option \<Rightarrow> VirtualDatabase \<Rightarrow> ('w, unit) M" where
  "doCreateConsoleLink r linkName route vdb =
     (case route of None \<Rightarrow> returnM () | Some x \<Rightarrow> checkConsoleLink r x linkName vdb)"

definition CreateConsoleLink :: "'w Reconciler \<Rightarrow> Objects.Route \<Rightarrow> VirtualDatabase \<Rightarrow> ('w, unit) M" where
  "CreateConsoleLink r route vdb = doCreateConsoleLink r (consoleLinkName (vdb_Meta vdb)) (Some route) vdb"

definition doDeleteConsoleLink :: "'w Reconciler \<Rightarrow> string \<Rightarrow> ('w, unit) M" where
  "doDeleteConsoleLink r linkName =
     tryM (getM (consoleLinks r) [] linkName) (\<lambda>x. case x of
       Inl _ \<Rightarrow> returnM ()
     | Inr link \<Rightarrow> tryM (deleteM (consoleLinks r) link) (\<lambda>_. returnM ()))"

definition RemoveConsoleLink :: "'w Reconciler \<Rightarrow> ObjectMeta \<Rightarrow> ('w, unit) M" where
  "RemoveConsoleLink r m = doDeleteConsoleLink r (consoleLinkName m)"

section \<open>Samples\<close>

text \<open>
  The files packed into the binary (\<open>packr\<close>), the YAML decoder, the conversion of a virtual database to
  a sample and the client that creates it are parameters. The result is the map from file names to
  outcomes, which the code writes to the log.
\<close>

record ('w, 'y) SampleBox =
  boxList :: "string list"
  boxFind :: "string \<Rightarrow> error + string"
  yamlVdb :: "string \<Rightarrow> error + VirtualDatabase"
  yamlSample :: "VirtualDatabase \<Rightarrow> error + 'y"
  createSample :: "'y \<Rightarrow> 'w \<Rightarrow> (error + unit) \<times> 'w"

definition ConsoleYAMLSampleExists :: "'w Reconciler \<Rightarrow> ('w, unit) M" where
  "ConsoleYAMLSampleExists r = callM (crdExists r ''ConsoleYAMLSample'')"

definition loadSample :: "('w, 'y) SampleBox \<Rightarrow> string \<Rightarrow> error + 'y" where
  "loadSample box filename =
     (case boxFind box filename of
        Inl e \<Rightarrow> Inl e
      | Inr yamlStr \<Rightarrow>
          (case yamlVdb box yamlStr of
             Inl e \<Rightarrow> Inl e
           | Inr teiid \<Rightarrow> yamlSample box teiid))"

fun createSamples :: "('w, 'y) SampleBox \<Rightarrow> string list \<Rightarrow> string gomap \<Rightarrow> ('w, string gomap) M" where
  "createSamples box [] resMap = returnM resMap"
| "createSamples box (filename # fs) resMap =
     (case loadSample box filename of
        Inl e \<Rightarrow> createSamples box fs (AList.update filename (Error e) resMap)
      | Inr sample \<Rightarrow>
          tryM (callM (createSample box sample)) (\<lambda>x. case x of
            Inl e \<Rightarrow> createSamples box fs (AList.update filename (Error e) resMap)
          | Inr _ \<Rightarrow> createSamples box fs (AList.update filename ''Applied'' resMap)))"

definition CreateConsoleYAMLSamples :: "('w, 'y) SampleBox \<Rightarrow> ('w, string gomap) M" where
  "CreateConsoleYAMLSamples box =
     (if boxList box = [] then returnM [] else createSamples box (boxList box) [])"

section \<open>Lemmas\<close>

text \<open>A sample that cannot be read or created does not keep the others from being tried.\<close>

lemma createSamples_all:
  "\<exists>m w'. createSamples box fs resMap w = (Ok m, w') \<and> set (map fst m) = set (map fst resMap) \<union> set fs"
proof (induction fs arbitrary: resMap w)
  case (Cons f fs)
  show ?case
  proof (cases "loadSample box f")
    case (Inl e)
    with Cons.IH [of "AList.update f (Error e) resMap" w] show ?thesis by (auto simp: dom_update)
  next
    case (Inr s)
    obtain x w1 where x: "createSample box s w = (x, w1)" by fastforce
    let ?m = "AList.update f (case x of Inl e \<Rightarrow> Error e | Inr _ \<Rightarrow> ''Applied'') resMap"
    have "createSamples box (f # fs) resMap w = createSamples box fs ?m w1"
      using Inr x by (cases x) (simp_all add: tryM_def callM_def)
    with Cons.IH [of ?m w1] show ?thesis by (auto simp: dom_update)
  qed
qed (simp add: returnM_def)

lemma CreateConsoleYAMLSamples_all:
  "\<exists>m w'. CreateConsoleYAMLSamples box w = (Ok m, w') \<and> set (map fst m) = set (boxList box)"
  using createSamples_all [of box "boxList box" "[]" w] by (simp add: CreateConsoleYAMLSamples_def returnM_def)

lemma succeeds_console:
  "succeeds (reconcileConsoleLink r route link)" "succeeds (checkConsoleLink r route n vdb)"
  "succeeds (CreateConsoleLink r route vdb)" "succeeds (RemoveConsoleLink r m)"
proof -
  show 1: "succeeds (reconcileConsoleLink r route link)" for route link
    unfolding reconcileConsoleLink_def by (auto simp: Let_def intro!: succeeds_tryM np)
  show 2: "succeeds (checkConsoleLink r route n vdb)" for n
    unfolding checkConsoleLink_def by (auto intro!: succeeds_tryM np 1 split: sum.split)
  show "succeeds (CreateConsoleLink r route vdb)"
    by (simp add: CreateConsoleLink_def doCreateConsoleLink_def 2)
  show "succeeds (RemoveConsoleLink r m)"
    unfolding RemoveConsoleLink_def doDeleteConsoleLink_def by (auto intro!: succeeds_tryM np split: sum.split)
qed

end
