(* ===== verification/Create_Service.thy ===== *)
theory Create_Service
  imports Action Webconsole
begin

text \<open>
  \<open>create-service.go\<close>: the service of a virtual database, its external services, its route and the
  link on the console, with the helpers on ports and labels that \<open>deployment.go\<close> shares with it.
\<close>

section \<open>Ports, labels and names\<close>

definition findSecret :: "'w Reconciler \<Rightarrow> VirtualDatabase \<Rightarrow> ('w, Secret) M" where
  "findSecret r vdb = getM (secrets r) (vdb_Namespace vdb) (vdb_Name vdb)"

definition getExposedPort :: "ContainerPort \<Rightarrow> int" where
  "getExposedPort port =
     (let p = ContainerPort port in if p = 35443 then 5433 else if p = 35432 then 5432 else p)"

definition tcpPort :: "string \<Rightarrow> int \<Rightarrow> ContainerPort" where
  "tcpPort n p = \<lparr>cp_Name = n, ContainerPort = p, cp_Protocol = ''TCP''\<rparr>"

definition containerPorts :: "bool \<Rightarrow> ContainerPort list" where
  "containerPorts externalOnly =
     (let ports = (if \<not> externalOnly
            then [tcpPort ''http'' 8080, tcpPort ''jolokia'' 8778, tcpPort ''prometheus'' 9779,
                  tcpPort ''teiid'' 31000, tcpPort ''pg'' 35432]
            else []) in
      ports @ [tcpPort ''teiid-secure'' 31443, tcpPort ''pg-secure'' 35443])"

definition matchLabels :: "string \<Rightarrow> string gomap" where
  "matchLabels vdbName =
     [(''app'', vdbName), (''teiid.io/VirtualDatabase'', vdbName), (''teiid.io/type'', ''VirtualDatabase'')]"

definition getKeystoreSecretName :: "VirtualDatabase \<Rightarrow> string" where
  "getKeystoreSecretName vdb = vdb_Name vdb @ ''-'' @ ''keystore''"

definition getCertificateSecretName :: "VirtualDatabase \<Rightarrow> string" where
  "getCertificateSecretName vdb = vdb_Name vdb @ ''-'' @ ''certificates''"

definition servicePorts :: "bool \<Rightarrow> ServicePort list" where
  "servicePorts externalOnly =
     map (\<lambda>port. \<lparr>sp_Name = cp_Name port, sp_Protocol = cp_Protocol port, Port = getExposedPort port,
       sp_TargetPort = ContainerPort port\<rparr>) (containerPorts externalOnly)"

section \<open>Services\<close>

definition ownedService :: "'w Reconciler \<Rightarrow> VirtualDatabase \<Rightarrow> Service \<Rightarrow> Service" where
  "ownedService r vdb service =
     (let service = (case setControllerReference r (vdb_Meta vdb) (svc_Meta service) of
                       Inl _ \<Rightarrow> service
                     | Inr m \<Rightarrow> service\<lparr>svc_Meta := m\<rparr>) in
      service\<lparr>svc_Meta := (svc_Meta service)\<lparr>ResourceVersion := []\<rparr>\<rparr>)"

definition ensureService :: "'w Reconciler \<Rightarrow> Service \<Rightarrow> ('w, Service) M" where
  "ensureService r service =
     tryM (getM (services r) (Namespace (svc_Meta service)) (Name (svc_Meta service))) (\<lambda>x.
       EnsureObject (services r) service (case x of Inl e \<Rightarrow> Some e | Inr _ \<Rightarrow> None))"

definition serviceAnnotations :: "VirtualDatabase \<Rightarrow> bool \<Rightarrow> string gomap" where
  "serviceAnnotations vdb hasCertSecret =
     (let apiLink = (if length (OpenAPI (vdb_Source vdb)) > 0 then ''/openapi.json'' else ''/odata/openapi.json'');
          annotations = [(''discovery.3scale.net/scheme'', ''http''), (''discovery.3scale.net/port'', ''8080''),
            (''discovery.3scale.net/description-path'', apiLink)] in
      if \<not> hasCertSecret
      then annotations @ [(''service.alpha.openshift.io/serving-cert-secret-name'', getCertificateSecretName vdb)]
      else annotations)"

definition createService :: "'w Reconciler \<Rightarrow> VirtualDatabase \<Rightarrow> bool \<Rightarrow> ('w, Service) M" where
  "createService r vdb hasCertSecret =
     (let labels = [(''app'', vdb_Name vdb), (''discovery.3scale.net'', ''true''),
            (''teiid.io/VirtualDatabase'', vdb_Name vdb), (''teiid.io/type'', ''VirtualDatabase''),
            (''teiid.io/deployment-version'', Version (Status vdb))];
          service = \<lparr>svc_Meta = (objectMeta (vdb_Name vdb) (vdb_Namespace vdb))\<lparr>Labels := labels,
              Annotations := Some (serviceAnnotations vdb hasCertSecret)\<rparr>,
            svc_Selector = matchLabels (vdb_Name vdb), svc_Type = ''ClusterIP'', svc_Ports = servicePorts False,
            SessionAffinity = ''ClientIP'', AffinityTimeout = Some 86400\<rparr> in
      ensureService r (ownedService r vdb service))"

definition createExternalService :: "'w Reconciler \<Rightarrow> VirtualDatabase \<Rightarrow> string \<Rightarrow> string \<Rightarrow> ('w, Service) M" where
  "createExternalService r vdb name serviceType =
     (let labels = [(''app'', vdb_Name vdb), (''teiid.io/VirtualDatabase'', vdb_Name vdb),
            (''teiid.io/type'', ''VirtualDatabase'')];
          service = \<lparr>svc_Meta = (objectMeta name (vdb_Namespace vdb))\<lparr>Labels := labels\<rparr>,
            svc_Selector = matchLabels (vdb_Name vdb), svc_Type = serviceType, svc_Ports = servicePorts True,
            SessionAffinity = ''ClientIP'', AffinityTimeout = Some 86400\<rparr> in
      ensureService r (ownedService r vdb service))"

section \<open>The route\<close>

text \<open>
  The wait for the route reads it up to 59 times, sleeping before each read. The second argument is
  the number of reads left, the third the variable \<open>err\<close>.
\<close>

fun waitForRoute :: "'w Reconciler \<Rightarrow> ObjectMeta \<Rightarrow> nat \<Rightarrow> error option \<Rightarrow> ('w, Objects.Route) M" where
  "waitForRoute r m 0 err = (case err of None \<Rightarrow> returnM emptyRoute | Some e \<Rightarrow> failM e)"
| "waitForRoute r m (Suc n) err =
     tryM (getM (routes r) (Namespace m) (Name m)) (\<lambda>x. case x of
       Inr found \<Rightarrow> returnM found
     | Inl e \<Rightarrow> waitForRoute r m n (Some e))"

definition createRoute :: "'w Reconciler \<Rightarrow> Service \<Rightarrow> VirtualDatabase \<Rightarrow> ('w, Objects.Route) M" where
  "createRoute r service vdb =
     (let metadata = (svc_Meta service)\<lparr>Labels := AList.update ''teiid.io/api'' ''odata'' (Labels (svc_Meta service))\<rparr>;
          route = \<lparr>route_Meta = metadata, route_TargetPort = 8080,
            route_To = \<lparr>ref_Kind = ''Service'', ref_Name = Name (svc_Meta service), ref_Namespace = []\<rparr>,
            Termination = ''edge'', Host = []\<rparr>;
          route = (case setControllerReference r (vdb_Meta vdb) (route_Meta route) of
                     Inl _ \<Rightarrow> route
                   | Inr m \<Rightarrow> route\<lparr>route_Meta := m\<rparr>) in
      tryM (getM (routes r) (Namespace (route_Meta route)) (Name (route_Meta route))) (\<lambda>x. case x of
        Inr _ \<Rightarrow> waitForRoute r (route_Meta route) 59 None
      | Inl e \<Rightarrow>
          if IsNotFound e
          then (let route = route\<lparr>route_Meta := (route_Meta route)\<lparr>ResourceVersion := []\<rparr>\<rparr> in
                tryM (EnsureObject (routes r) route (Some e)) (\<lambda>y. case y of
                  Inl e \<Rightarrow> waitForRoute r (route_Meta route) 59 (Some e)
                | Inr route \<Rightarrow> waitForRoute r (route_Meta route) 59 None))
          else waitForRoute r (route_Meta route) 59 (Some e)))"

section \<open>The action\<close>

definition createService_CanHandle :: "VirtualDatabase \<Rightarrow> bool" where
  "createService_CanHandle vdb = (vdb_Phase vdb = ReconcilerPhaseServiceImageFinished)"

definition failService :: "string \<Rightarrow> 'w handler" where
  "failService m = bindM (modV (setPhase ReconcilerPhaseError)) (\<lambda>_. modV (setFailure m))"

text \<open>The loop over \<open>vdb.Spec.Expose\<close>; its result is the local variable \<open>createRoute\<close>.\<close>

fun exposeServices :: "'w Reconciler \<Rightarrow> VirtualDatabase \<Rightarrow> ExposeType list \<Rightarrow> bool \<Rightarrow> (VirtualDatabase \<times> 'w, bool) M" where
  "exposeServices r vdb [] withRoute = returnM withRoute"
| "exposeServices r vdb (exposeType # exposeTypes) withRoute =
     (if exposeType = LoadBalancer
      then tryM (liftW (createExternalService r vdb (vdb_Name vdb @ ''-external'') ''LoadBalancer'')) (\<lambda>x.
           bindM (case x of
                    Inl _ \<Rightarrow> failService ''Failed to create External LoadBalancer Service''
                  | Inr _ \<Rightarrow> returnM ())
             (\<lambda>_. exposeServices r vdb exposeTypes withRoute))
      else if exposeType = NodePort
      then tryM (liftW (createExternalService r vdb (vdb_Name vdb @ ''-external'') ''NodePort'')) (\<lambda>x.
           bindM (case x of
                    Inl _ \<Rightarrow> failService ''Failed to create External NodePort Service''
                  | Inr _ \<Rightarrow> returnM ())
             (\<lambda>_. exposeServices r vdb exposeTypes withRoute))
      else if exposeType = ExposeVia3scale then exposeServices r vdb exposeTypes False
      else if exposeType = ExposeType.Route then exposeServices r vdb exposeTypes True
      else exposeServices r vdb exposeTypes withRoute)"

definition exposeRoute :: "'w Reconciler \<Rightarrow> VirtualDatabase \<Rightarrow> Service \<Rightarrow> 'w handler" where
  "exposeRoute r vdb service =
     tryM (liftW (createRoute r service vdb)) (\<lambda>x. case x of
       Inl _ \<Rightarrow> failService ''Failed to create route''
     | Inr route \<Rightarrow>
         bindM (modV (setRoute (''https://'' @ Host route @ ''/odata''))) (\<lambda>_.
         tryM (liftW (ConsoleLinkExists r)) (\<lambda>y. case y of
           Inr _ \<Rightarrow> liftW (CreateConsoleLink r route vdb)
         | Inl _ \<Rightarrow> returnM ())))"

definition createService_Handle :: "'w Reconciler \<Rightarrow> 'w handler" where
  "createService_Handle r =
     bindM getV (\<lambda>vdb.
     tryM (liftW (findSecret r vdb)) (\<lambda>s.
     let hasCertSecret = (case s of Inr _ \<Rightarrow> True | Inl _ \<Rightarrow> False) in
     tryM (liftW (GetService r (vdb_Name vdb) (vdb_Namespace vdb))) (\<lambda>g.
     bindM (case g of
              Inr _ \<Rightarrow> returnM ()
            | Inl _ \<Rightarrow>
                tryM (liftW (createService r vdb hasCertSecret)) (\<lambda>x. case x of
                  Inl _ \<Rightarrow> failService ''Failed to create Service''
                | Inr service \<Rightarrow>
                    bindM (exposeServices r vdb (Expose (Spec vdb)) True) (\<lambda>withRoute.
                      if withRoute then exposeRoute r vdb service else returnM ())))
       (\<lambda>_. modV (setPhase ReconcilerPhaseServiceCreated)))))"

definition NewCreateServiceAction :: "'w Reconciler \<Rightarrow> 'w Step" where
  [new_action]: "NewCreateServiceAction r = \<lparr>step_Name = ''createServiceAction'', CanHandle = createService_CanHandle, Handle = createService_Handle r\<rparr>"

section \<open>Lemmas\<close>

lemma noPanic_services [np]:
  "noPanic (findSecret r v)" "noPanic (ensureService r s)" "noPanic (createService r v b)"
  "noPanic (createExternalService r v n t)" "noPanic (ConsoleLinkExists r)"
  unfolding findSecret_def ensureService_def createService_def createExternalService_def Let_def ConsoleLinkExists_def
  by (rule np)+

lemma noPanic_waitForRoute [np]: "noPanic (waitForRoute r m n e)"
  by (induction n arbitrary: e) (auto intro!: np split: sum.split option.split)

lemma noPanic_createRoute [np]: "noPanic (createRoute r s v)"
  unfolding createRoute_def Let_def by (rule np)+

text \<open>What the action may have done to the status before it assigns the phase.\<close>

definition servicedFrom :: "VirtualDatabase \<Rightarrow> VirtualDatabase \<Rightarrow> bool" where
  "servicedFrom v v' \<longleftrightarrow> (\<exists>p m d. v' = setPhase p (setFailure m (setRoute d v)))"

lemma servicedFrom_refl [simp]: "servicedFrom v v"
  unfolding servicedFrom_def
  by (intro exI [of _ "vdb_Phase v"] exI [of _ "Failure (Status v)"] exI [of _ "status_Route (Status v)"])
    (simp add: vdb_set)

lemma servicedFrom_step [intro]:
  assumes "servicedFrom v v'"
  shows "servicedFrom v (setPhase p v')" "servicedFrom v (setFailure m v')" "servicedFrom v (setRoute d v')"
proof -
  obtain p0 m0 d0 where v': "v' = setPhase p0 (setFailure m0 (setRoute d0 v))"
    using assms unfolding servicedFrom_def by blast
  have "setPhase p v' = setPhase p (setFailure m0 (setRoute d0 v))"
    "setFailure m v' = setPhase p0 (setFailure m (setRoute d0 v))"
    "setRoute d v' = setPhase p0 (setFailure m0 (setRoute d v))"
    by (simp_all add: v' vdb_set)
  then show "servicedFrom v (setPhase p v')" "servicedFrom v (setFailure m v')" "servicedFrom v (setRoute d v')"
    unfolding servicedFrom_def by blast+
qed

lemma servicedFrom_final: "servicedFrom v v' \<Longrightarrow> \<exists>m d. setPhase p v' = setPhase p (setFailure m (setRoute d v))"
  unfolding servicedFrom_def by (fastforce simp: vdb_set)

lemma exposeServices_post:
  assumes "servicedFrom v u" and "\<And>b u'. servicedFrom v u' \<Longrightarrow> post u' (f b) Q"
  shows "post u (bindM (exposeServices r w ts b) f) Q"
  using assms(1)
proof (induction ts arbitrary: u b)
  case (Cons t ts)
  show ?case
    unfolding exposeServices.simps failService_def
    by (rule post_liftW_try_noPanic [OF noPanic_services(4)] wp | (rule Cons.IH, intro servicedFrom_step Cons.prems))+
qed (simp add: assms(2))

lemma exposeRoute_post:
  assumes "servicedFrom v u" and "\<And>u'. servicedFrom v u' \<Longrightarrow> post u' (f ()) Q"
  shows "post u (bindM (exposeRoute r w s) f) Q"
  unfolding exposeRoute_def failService_def
  by (rule post_liftW_try_noPanic [OF noPanic_createRoute] post_liftW_try_noPanic [OF noPanic_services(5)]
      post_liftW_bind_succeeds [OF succeeds_console(3)] wp |
      (rule assms(2), intro servicedFrom_step assms(1)) | simp)+

lemma createService_post:
  assumes "\<And>m d. Q (Ok ()) (setPhase ReconcilerPhaseServiceCreated (setFailure m (setRoute d v)))"
  shows "post v (createService_Handle r) Q"
proof -
  have final: "Q (Ok ()) (setPhase ReconcilerPhaseServiceCreated u)" if "servicedFrom v u" for u
    using servicedFrom_final [OF that] assms by metis
  show ?thesis
    unfolding createService_Handle_def Let_def failService_def
    by (rule post_liftW_try_noPanic [OF noPanic_services(1)] post_liftW_try_noPanic [OF noPanic_reads(5)]
        post_liftW_try_noPanic [OF noPanic_services(3)]
        exposeServices_post [OF servicedFrom_refl] exposeRoute_post wp |
        assumption | rule final, (assumption | intro servicedFrom_step servicedFrom_refl))+
qed

interpretation create_service: action createService_CanHandle "createService_Handle r"
  "{(ReconcilerPhaseServiceImageFinished, ReconcilerPhaseServiceCreated)}" for r
  by unfold_locales (auto simp: createService_CanHandle_def intro!: createService_post)

lemma waitForRoute_gives_up:
  assumes "\<And>w. \<exists>e w'. rGet (routes r) (Namespace m) (Name m) w = (Inl e, w')"
  shows "\<exists>e w'. waitForRoute r m (Suc n) err w = (Fail e, w')"
proof (induction n arbitrary: err w)
  case 0
  obtain e w' where "rGet (routes r) (Namespace m) (Name m) w = (Inl e, w')" using assms by blast
  then show ?case by (simp add: tryM_def getM_def callM_def failM_def)
next
  case (Suc n)
  obtain e w' where "rGet (routes r) (Namespace m) (Name m) w = (Inl e, w')" using assms by blast
  with Suc.IH [of "Some e" w'] show ?case
    by (subst waitForRoute.simps) (simp add: tryM_def getM_def callM_def del: waitForRoute.simps)
qed

section \<open>Properties\<close>

text \<open>
  The service action always succeeds and always moves to the phase in which the service counts
  as created, whatever the cluster answers; apart from the phase it changes only the failure message
  and the address of the route. The error phase it assigns on its way is never seen by the caller.
\<close>

theorem createService_Handle_total:
  "post v (createService_Handle r) (\<lambda>res v'. res = Ok () \<and>
     (\<exists>m d. v' = setPhase ReconcilerPhaseServiceCreated (setFailure m (setRoute d v))))"
  by (rule createService_post) blast

text \<open>
  C25: a service that cannot be created does not stop the deployment. When the cluster has no such
  service and refuses to create it, the handler reports no error and the phase says that the service
  was created; only the failure message tells.
\<close>

theorem createService_Handle_swallows:
  assumes "\<And>ns n w. \<exists>w'. rGet (services r) ns n w = (Inl (NotFound e), w')"
    and "\<And>s w. \<exists>e w'. rCreate (services r) s w = (Inl e, w')"
  shows "\<exists>w'. createService_Handle r (v, w) =
    (Ok (), setPhase ReconcilerPhaseServiceCreated (setFailure ''Failed to create Service'' v), w')"
proof -
  have refused: "\<exists>e w'. ensureService r s w = (Fail e, w')" for s w
  proof -
    obtain w1 where "rGet (services r) (Namespace (svc_Meta s)) (Name (svc_Meta s)) w = (Inl (NotFound e), w1)"
      using assms(1) by blast
    moreover obtain e' w2 where "rCreate (services r) s w1 = (Inl e', w2)" using assms(2) by blast
    ultimately show ?thesis by (simp add: ensureService_def EnsureObject_def tryM_def getM_def createM_def callM_def)
  qed
  obtain s w1 where s: "rGet (secrets r) (vdb_Namespace v) (vdb_Name v) w = (s, w1)" by fastforce
  obtain w2 where g: "rGet (services r) (vdb_Namespace v) (vdb_Name v) w1 = (Inl (NotFound e), w2)"
    using assms(1) by blast
  define b where "b = (case s of Inr _ \<Rightarrow> True | Inl _ \<Rightarrow> False)"
  obtain e' w3 where c: "createService r v b w2 = (Fail e', w3)"
    using refused unfolding createService_def Let_def by blast
  have "createService_Handle r (v, w) =
    (Ok (), setPhase ReconcilerPhaseServiceCreated (setFailure ''Failed to create Service'' (setPhase ReconcilerPhaseError v)), w3)"
    using c by (cases s) (simp_all add: createService_Handle_def findSecret_def GetService_def failService_def b_def
        bindM_def tryM_def getV_def modV_def liftW_def getM_def callM_def s g)
  moreover have "setPhase ReconcilerPhaseServiceCreated (setFailure m (setPhase ReconcilerPhaseError v)) =
      setPhase ReconcilerPhaseServiceCreated (setFailure m v)" for m
    by (simp add: vdb_set)
  ultimately show ?thesis by auto
qed

theorem createService_Handle_swallows_witness:
  "\<exists>w'. createService_Handle (emptyCluster\<lparr>services := emptyClient\<lparr>rCreate := nothing\<rparr>\<rparr>) (emptyVdb, ()) =
    (Ok (), setPhase ReconcilerPhaseServiceCreated (setFailure ''Failed to create Service'' emptyVdb), w')"
  by (rule createService_Handle_swallows [where e = "''not found''"]) (simp_all add: emptyClient_def nothing_def)

text \<open>
  The ports of the services fit the container. Names and exposed ports are pairwise distinct,
  every port of a service forwards to a port of the container under the same name, and the external
  service offers exactly the two secure ports, as the internal one does.
\<close>

theorem servicePorts_fit:
  "distinct (map sp_Name (servicePorts ext)) \<and> distinct (map Port (servicePorts ext)) \<and>
   map (\<lambda>p. (sp_Name p, sp_TargetPort p)) (servicePorts ext) =
     map (\<lambda>c. (cp_Name c, ContainerPort c)) (containerPorts ext) \<and>
   servicePorts True = filter (\<lambda>p. sp_Name p \<in> {''teiid-secure'', ''pg-secure''}) (servicePorts False) \<and>
   set (servicePorts ext) \<subseteq> set (servicePorts False)"
  by (cases ext) (simp_all add: servicePorts_def containerPorts_def tcpPort_def getExposedPort_def)

text \<open>
  The wait for a route is bounded. When no read of the route ever succeeds, creating the route
  ends with an error after its last read, whether or not the creation itself was accepted.
\<close>

theorem createRoute_gives_up:
  assumes "\<And>ns n w. \<exists>e w'. rGet (routes r) ns n w = (Inl e, w')"
  shows "\<exists>e w'. createRoute r service vdb w = (Fail e, w')"
proof -
  have wait: "\<exists>e w'. waitForRoute r m 59 err w = (Fail e, w')" for m err w
    using waitForRoute_gives_up [of r m 58] assms by (simp add: numeral_eq_Suc del: waitForRoute.simps)
  define route where "route = (case setControllerReference r (vdb_Meta vdb)
      ((svc_Meta service)\<lparr>Labels := AList.update ''teiid.io/api'' ''odata'' (Labels (svc_Meta service))\<rparr>) of
        Inl _ \<Rightarrow> (svc_Meta service)\<lparr>Labels := AList.update ''teiid.io/api'' ''odata'' (Labels (svc_Meta service))\<rparr>
      | Inr m \<Rightarrow> m)"
  obtain e w1 where g: "rGet (routes r) (Namespace route) (Name route) w = (Inl e, w1)" using assms by blast
  show ?thesis
    using g unfolding createRoute_def Let_def route_def
    by (auto simp: tryM_def getM_def callM_def EnsureObject_def createM_def wait
        split: sum.splits prod.splits res.splits simp del: waitForRoute.simps)
qed

theorem createRoute_gives_up_witness:
  "\<exists>e w'. createRoute emptyCluster \<lparr>svc_Meta = objectMeta ''shop'' ''ns'', svc_Selector = [], svc_Type = [],
     svc_Ports = [], SessionAffinity = [], AffinityTimeout = None\<rparr> emptyVdb () = (Fail e, w')"
  by (rule createRoute_gives_up) (simp add: emptyCluster_def emptyClient_def)

end
