(* ===== verification/Certificates.thy ===== *)
theory Certificates
  imports Create_Service
begin

text \<open>
  \<open>pkg/util/pkcs12/pcks12.go\<close> and the action of \<open>create-certificates.go\<close>: the key store is made of the
  certificate and the key in a secret, the trust store of every certificate in the service CA file.
  PEM, X.509 and PKCS#12 are parameters of the model; a nil PEM block that the code dereferences is a panic.
\<close>

section \<open>Key stores\<close>

definition parseCrt :: "'w Reconciler \<Rightarrow> string \<Rightarrow> string res" where
  "parseCrt r cert =
     (case pemDecode r cert of
        (None, _) \<Rightarrow> Panic ''nil pointer dereference''
      | (Some p, _) \<Rightarrow> of_sum (ParseCertificate r p))"

definition parsePKCS1Key :: "'w Reconciler \<Rightarrow> string \<Rightarrow> string res" where
  "parsePKCS1Key r key =
     (case pemDecode r key of
        (None, _) \<Rightarrow> Panic ''nil pointer dereference''
      | (Some p, _) \<Rightarrow> of_sum (ParsePKCS1PrivateKey r p))"

text \<open>The key of a PKCS#8 block is \<open>None\<close> when it is not an RSA key.\<close>

definition parsePKCS8Key :: "'w Reconciler \<Rightarrow> string \<Rightarrow> string option res" where
  "parsePKCS8Key r key =
     (case pemDecode r key of
        (None, _) \<Rightarrow> Panic ''nil pointer dereference''
      | (Some p, _) \<Rightarrow> of_sum (ParsePKCS8PrivateKey r p))"

definition parseKey :: "'w Reconciler \<Rightarrow> string \<Rightarrow> string res" where
  "parseKey r key =
     (case parsePKCS1Key r key of
        Ok privateKey \<Rightarrow> Ok privateKey
      | Panic p \<Rightarrow> Panic p
      | Fail _ \<Rightarrow>
          (case parsePKCS8Key r key of
             Ok (Some pk) \<Rightarrow> Ok pk
           | Panic p \<Rightarrow> Panic p
           | _ \<Rightarrow> Fail (Err ''Failed to Parse the Key supplied'')))"

definition CreatePkcs12Keystore :: "'w Reconciler \<Rightarrow> string \<Rightarrow> string \<Rightarrow> string \<Rightarrow> ('w, string) M" where
  "CreatePkcs12Keystore r cert key password =
     bindM (resM (parseCrt r cert)) (\<lambda>domainCert.
     bindM (resM (parseKey r key)) (\<lambda>privateKey.
       callM (pkcs12Encode r privateKey domainCert password)))"

section \<open>Trust stores\<close>

text \<open>
  The inner loop reads one PEM block after another as long as there is input left. The first argument
  bounds its iterations; the loop of the code has no bound and runs for ever where this one ends in
  \<open>no progress\<close>, which \<open>trustLoop_fuel\<close> excludes for a decoder that consumes its input.
\<close>

fun trustLoop :: "nat \<Rightarrow> 'w Reconciler \<Rightarrow> string \<Rightarrow> int \<times> string gomap \<Rightarrow> (int \<times> string gomap) res" where
  "trustLoop 0 r pemCert acc = Panic ''no progress''"
| "trustLoop (Suc fuel) r pemCert (i, certificates) =
     (case pemDecode r pemCert of
        (None, _) \<Rightarrow> Fail (Err ''The supplied Pem certificate for truststore could not be decoded'')
      | (Some blockCert, remaining) \<Rightarrow>
          (case ParseCertificate r blockCert of
             Inl e \<Rightarrow> Fail e
           | Inr trustedCert \<Rightarrow>
               (let acc = (i + 1, AList.update (''cert-'' @ Itoa i) trustedCert certificates) in
                if length remaining > 0 then trustLoop fuel r remaining acc else Ok acc)))"

fun trustCerts :: "'w Reconciler \<Rightarrow> string list \<Rightarrow> int \<times> string gomap \<Rightarrow> (int \<times> string gomap) res" where
  "trustCerts r [] acc = Ok acc"
| "trustCerts r (pemCert # certs) acc =
     bind_res (trustLoop (Suc (length pemCert)) r pemCert acc) (trustCerts r certs)"

definition CreatePkcs12Truststore :: "'w Reconciler \<Rightarrow> string \<Rightarrow> string list \<Rightarrow> ('w, string) M" where
  "CreatePkcs12Truststore r password certs =
     bindM (resM (trustCerts r certs (0, []))) (\<lambda>(_, certificates).
       callM (pkcs12EncodeTrustStore r certificates password))"

section \<open>The action\<close>

definition createCertificate_CanHandle :: "VirtualDatabase \<Rightarrow> bool" where
  "createCertificate_CanHandle vdb = (vdb_Phase vdb = ReconcilerPhaseServiceCreated)"

definition serviceCA :: string where
  "serviceCA = ''/var/run/secrets/kubernetes.io/serviceaccount/service-ca.crt''"

definition createCertificate_Handle :: "'w Reconciler \<Rightarrow> 'w handler" where
  "createCertificate_Handle r =
     bindM getV (\<lambda>vdb.
     tryM (liftW (GetSecret r (getKeystoreSecretName vdb) (vdb_Namespace vdb))) (\<lambda>x. case x of
       Inr _ \<Rightarrow> modV (setPhase ReconcilerPhaseKeystoreCreated)
     | Inl _ \<Rightarrow>
         bindM (liftW (GetSecret r (getCertificateSecretName vdb) (vdb_Namespace vdb))) (\<lambda>certs.
         bindM (liftW (CreatePkcs12Keystore r (mapGet (sec_Data certs) ''tls.crt'') (mapGet (sec_Data certs) ''tls.key'')
           KeystorePassword)) (\<lambda>keystorePkcs12.
         bindM (liftW (callM (ReadFile r serviceCA))) (\<lambda>defaultTrustCert.
         bindM (liftW (CreatePkcs12Truststore r KeystorePassword [defaultTrustCert])) (\<lambda>truststorePkcs12.
         bindM (liftW (CreateSecret r (getKeystoreSecretName vdb) (vdb_Namespace vdb) (Some (vdb_Meta vdb))
           [(KeystoreName, keystorePkcs12), (TruststoreName, truststorePkcs12)])) (\<lambda>_.
           modV (setPhase ReconcilerPhaseKeystoreCreated))))))))"

definition NewCreateCertificateAction :: "'w Reconciler \<Rightarrow> 'w Step" where
  [new_action]: "NewCreateCertificateAction r = \<lparr>step_Name = ''createCertificateAction'', CanHandle = createCertificate_CanHandle, Handle = createCertificate_Handle r\<rparr>"

section \<open>Lemmas\<close>

lemma createCertificate_post:
  assumes "\<And>e. Q (Fail e) v" "\<And>p. Q (Panic p) v" "Q (Ok ()) (setPhase ReconcilerPhaseKeystoreCreated v)"
  shows "post v (createCertificate_Handle r) Q"
  unfolding createCertificate_Handle_def by (rule wp | simp add: assms)+

interpretation create_certificate: action createCertificate_CanHandle "createCertificate_Handle r"
  "{(ReconcilerPhaseServiceCreated, ReconcilerPhaseKeystoreCreated)}" for r
  by unfold_locales (auto simp: createCertificate_CanHandle_def intro!: createCertificate_post)

text \<open>The decoder's documented behaviour: the rest it returns with a block comes after the block.\<close>

definition pem_consumes :: "'w Reconciler \<Rightarrow> bool" where
  "pem_consumes r \<longleftrightarrow> (\<forall>s b remaining. pemDecode r s = (Some b, remaining) \<longrightarrow> length remaining < length s)"

lemma trustLoop_fuel:
  assumes "pem_consumes r" and "length s < n"
  shows "trustLoop n r s acc \<noteq> Panic p"
  using assms(2)
proof (induction n arbitrary: s acc)
  case (Suc n)
  obtain i certs where acc: "acc = (i, certs)" by fastforce
  obtain b remaining where d: "pemDecode r s = (b, remaining)" by fastforce
  show ?case
  proof (cases b)
    case (Some x)
    with assms(1) d have "length remaining < length s" by (simp add: pem_consumes_def)
    with Suc.prems have "length remaining < n" by simp
    with Suc.IH show ?thesis by (simp add: acc d Some Let_def split: sum.split)
  qed (simp add: acc d)
qed simp

lemma trustCerts_no_panic:
  assumes "pem_consumes r"
  shows "trustCerts r certs acc \<noteq> Panic p"
proof (induction certs arbitrary: acc)
  case (Cons c certs)
  show ?case
    using Cons.IH trustLoop_fuel [OF assms, of c "Suc (length c)" acc]
    by (cases "trustLoop (Suc (length c)) r c acc") (simp_all del: trustLoop.simps)
qed simp

text \<open>A file as the decoder splits it into blocks.\<close>

inductive pem_blocks :: "'w Reconciler \<Rightarrow> string \<Rightarrow> string list \<Rightarrow> bool" for r where
  last_block: "pemDecode r s = (Some b, []) \<Longrightarrow> pem_blocks r s [b]"
| next_block: "pemDecode r s = (Some b, remaining) \<Longrightarrow> remaining \<noteq> [] \<Longrightarrow> pem_blocks r remaining bs \<Longrightarrow> pem_blocks r s (b # bs)"

lemma pem_consumesD: "pem_consumes r \<Longrightarrow> pemDecode r s = (Some b, remaining) \<Longrightarrow> length remaining < length s"
  by (simp add: pem_consumes_def)

lemma pem_blocks_length: "pem_blocks r s bs \<Longrightarrow> pem_consumes r \<Longrightarrow> length bs \<le> length s"
  by (induction rule: pem_blocks.induct) (auto simp: Suc_le_eq dest!: pem_consumesD)

abbreviation certName :: "int \<Rightarrow> string" where
  "certName i \<equiv> ''cert-'' @ Itoa i"

lemma natDigits_inj: "natDigits m = natDigits n \<Longrightarrow> m = n"
  using digitsVal_natDigits [of m] digitsVal_natDigits [of n] by (simp del: of_nat_eq_iff)

lemma certName_inj: "0 \<le> i \<Longrightarrow> 0 \<le> j \<Longrightarrow> certName i = certName j \<Longrightarrow> i = j"
  by (auto simp: Itoa_def dest: natDigits_inj)

lemma certName_fresh:
  assumes "0 \<le> i" and "fst ` set m \<subseteq> certName ` {0..<i}"
  shows "certName i \<notin> fst ` set m"
proof
  assume "certName i \<in> fst ` set m"
  with assms(2) obtain j where "j \<in> {0..<i}" and "certName i = certName j" by blast
  with certName_inj [of i j] assms(1) show False by simp
qed

lemma certName_grow:
  assumes "0 \<le> i" and "fst ` set m \<subseteq> certName ` {0..<i}"
  shows "fst ` set (m @ [(certName i, c)]) \<subseteq> certName ` {0..<i + 1}"
proof -
  have "{0..<i + 1} = insert i {0..<i}" using assms(1) by auto
  with assms(2) show ?thesis by auto
qed

lemma update_absent: "k \<notin> fst ` set m \<Longrightarrow> AList.update k v m = m @ [(k, v)]"
  by (induction m) auto

lemma trustLoop_blocks:
  assumes "pem_blocks r s bs" and "list_all2 (\<lambda>b c. ParseCertificate r b = Inr c) bs cs" and "length bs \<le> n"
    and "0 \<le> i" and "fst ` set m \<subseteq> certName ` {0..<i}"
  shows "trustLoop n r s (i, m) = Ok (i + int (length bs), m @ zip (map (\<lambda>k. certName (i + int k)) [0..<length bs]) cs)"
  using assms
proof (induction arbitrary: cs n i m rule: pem_blocks.induct)
  case (last_block s b)
  then obtain c n' where c: "cs = [c]" "ParseCertificate r b = Inr c" and n: "n = Suc n'"
    by (cases n) (auto simp: list_all2_Cons1)
  have "certName i \<notin> fst ` set m" using last_block.prems(3,4) by (rule certName_fresh)
  with c last_block.hyps show ?case by (simp add: n update_absent)
next
  case (next_block s b remaining bs)
  then obtain c cs' n' where c: "cs = c # cs'" "ParseCertificate r b = Inr c"
      "list_all2 (\<lambda>b c. ParseCertificate r b = Inr c) bs cs'" and n: "n = Suc n'"
    by (cases n) (auto simp: list_all2_Cons1)
  have fresh: "certName i \<notin> fst ` set m" using next_block.prems(3,4) by (rule certName_fresh)
  have "fst ` set (m @ [(certName i, c)]) \<subseteq> certName ` {0..<i + 1}"
    using next_block.prems(3,4) by (rule certName_grow)
  with next_block.IH [of cs' n' "i + 1" "m @ [(certName i, c)]"] c(3) next_block.prems(2,3) n
  have "trustLoop n' r remaining (i + 1, m @ [(certName i, c)]) =
      Ok (i + 1 + int (length bs), m @ [(certName i, c)] @ zip (map (\<lambda>k. certName (i + 1 + int k)) [0..<length bs]) cs')"
    by simp
  moreover have "map (\<lambda>k. certName (i + int k)) [0..<Suc (length bs)] =
      certName i # map (\<lambda>k. certName (i + 1 + int k)) [0..<length bs]"
    by (simp add: upt_rec [of 0] map_Suc_upt [symmetric] add.assoc del: upt_Suc)
  ultimately show ?case
    using next_block.hyps(1,2) c(1,2) fresh by (simp add: n update_absent del: upt_Suc)
qed

section \<open>Properties\<close>

text \<open>
  The phase follows the outcome. The certificate action moves to the phase in which the key store
  exists exactly when it succeeds, and otherwise leaves the virtual database as it was, so that the
  next reconciliation tries again.
\<close>

theorem createCertificate_Handle_atomic:
  "post v (createCertificate_Handle r) (\<lambda>res v'.
     v' = (if res = Ok () then setPhase ReconcilerPhaseKeystoreCreated v else v))"
  by (rule createCertificate_post) simp_all

text \<open>
  C28: building a trust store ends for every input: with a decoder that consumes the blocks it returns,
  the loop without a bound leaves after finitely many blocks, with a result or with an error.
\<close>

theorem CreatePkcs12Truststore_ends:
  assumes "pem_consumes r"
  shows "\<exists>res w'. CreatePkcs12Truststore r password certs w = (res, w') \<and> (\<forall>p. res \<noteq> Panic p)"
proof -
  have "noPanic (CreatePkcs12Truststore r password certs)"
    unfolding CreatePkcs12Truststore_def by (rule np trustCerts_no_panic [OF assms])+
  then show ?thesis by (metis noPanic_def prod.collapse)
qed

theorem CreatePkcs12Truststore_ends_witness:
  "\<exists>res w'. CreatePkcs12Truststore (emptyCluster\<lparr>pemDecode := (\<lambda>s. case s of [] \<Rightarrow> (None, []) | c # t \<Rightarrow> (Some [c], t))\<rparr>)
     ''changeit'' [''ab''] () = (res, w') \<and> (\<forall>p. res \<noteq> Panic p)"
  by (rule CreatePkcs12Truststore_ends) (auto simp: pem_consumes_def split: list.splits)

text \<open>
  C27: no certificate of the CA file is lost. When the file consists of blocks that all parse, the trust
  store holds each of their certificates, in order, under the names \<open>cert-0\<close>, \<open>cert-1\<close> and so on.
\<close>

theorem CreatePkcs12Truststore_complete:
  assumes "pem_consumes r" and "pem_blocks r pem bs" and "list_all2 (\<lambda>b c. ParseCertificate r b = Inr c) bs cs"
  shows "CreatePkcs12Truststore r password [pem] =
    callM (pkcs12EncodeTrustStore r (zip (map (\<lambda>k. ''cert-'' @ Itoa (int k)) [0..<length bs]) cs) password)"
proof -
  have "length bs \<le> Suc (length pem)" using pem_blocks_length [OF assms(2,1)] by simp
  from trustLoop_blocks [OF assms(2,3) this, of 0 "[]"] show ?thesis
    by (simp add: CreatePkcs12Truststore_def fun_eq_iff bindM_def resM_def del: trustLoop.simps)
qed

theorem CreatePkcs12Truststore_complete_witness:
  "CreatePkcs12Truststore (emptyCluster\<lparr>pemDecode := (\<lambda>s. case s of [] \<Rightarrow> (None, []) | c # t \<Rightarrow> (Some [c], t))\<rparr>)
     ''changeit'' [''ab''] =
   callM (pkcs12EncodeTrustStore (emptyCluster\<lparr>pemDecode := (\<lambda>s. case s of [] \<Rightarrow> (None, []) | c # t \<Rightarrow> (Some [c], t))\<rparr>)
     (zip (map (\<lambda>k. ''cert-'' @ Itoa (int k)) [0..<length [''a'', ''b'']]) [''a'', ''b'']) ''changeit'')"
  by (rule CreatePkcs12Truststore_complete)
    (auto simp: pem_consumes_def emptyCluster_def split: list.splits intro!: pem_blocks.intros)

text \<open>
  C29: a certificate secret without a PEM encoded certificate crashes the operator. When the secret is
  there but its \<open>tls.crt\<close> decodes to no block, for instance because the key is missing, the action
  dereferences the missing block instead of reporting an error.
\<close>

theorem createCertificate_Handle_crashes:
  assumes "\<And>w. rGet (secrets r) ns (vdb_Name v @ ''-keystore'') w = (Inl e, w)"
    and "\<And>w. rGet (secrets r) ns (vdb_Name v @ ''-certificates'') w = (Inr s, w)"
    and "vdb_Namespace v = ns" and "fst (pemDecode r (mapGet (sec_Data s) ''tls.crt'')) = None"
  shows "fst (createCertificate_Handle r (v, w)) = Panic ''nil pointer dereference''"
  using assms(4)
  by (cases "pemDecode r (mapGet (sec_Data s) ''tls.crt'')")
    (simp add: createCertificate_Handle_def GetSecret_def getKeystoreSecretName_def getCertificateSecretName_def
      CreatePkcs12Keystore_def parseCrt_def bindM_def tryM_def getV_def liftW_def resM_def getM_def callM_def assms(1-3))

theorem createCertificate_Handle_crashes_witness:
  "fst (createCertificate_Handle (emptyCluster\<lparr>secrets := emptyClient\<lparr>rGet := (\<lambda>ns n w.
       if n = ''shop-certificates''
       then (Inr \<lparr>sec_Meta = objectMeta n ns, sec_Type = ''Opaque'', sec_Data = [], StringData = []\<rparr>, w)
       else (Inl (NotFound n), w))\<rparr>\<rparr>)
     (emptyVdb\<lparr>vdb_Meta := objectMeta ''shop'' ''ns''\<rparr>, ())) = Panic ''nil pointer dereference''"
  by (rule createCertificate_Handle_crashes [where ns = "''ns''" and e = "NotFound ''shop-keystore''"
        and s = "\<lparr>sec_Meta = objectMeta ''shop-certificates'' ''ns'', sec_Type = ''Opaque'', sec_Data = [], StringData = []\<rparr>"])
    (simp_all add: objectMeta_def emptyCluster_def)

end
