(* ===== verification/Deployments.thy ===== *)
theory Deployments
  imports Certificates Service_Image Cachestore Convert_Ds Default_Envs
begin

text \<open>
  \<open>deployment.go\<close>: the deployment of a virtual database, the watch over its conditions, and the
  updates of a running deployment when the number of replicas, the environment or a referenced secret
  or config map changes.
\<close>

section \<open>Reading the deployment\<close>

definition findDC :: "'w Reconciler \<Rightarrow> VirtualDatabase \<Rightarrow> ('w, Deployment) M" where
  "findDC r vdb = getM (deployments r) (vdb_Namespace vdb) (vdb_Name vdb)"

text \<open>\<open>item, _ := findDC(vdb, r)\<close>: after an error the item is the zero value, never nil.\<close>

definition findItem :: "'w Reconciler \<Rightarrow> VirtualDatabase \<Rightarrow> ('w, Deployment) M" where
  "findItem r vdb =
     tryM (findDC r vdb) (\<lambda>x. case x of Inl _ \<Rightarrow> returnM emptyDeployment | Inr item \<Rightarrow> returnM item)"

definition hasCondition :: "string \<Rightarrow> Deployment \<Rightarrow> bool" where
  "hasCondition t dc = list_ex (\<lambda>condition. cond_Type condition = t \<and> cond_Status condition = ''True'') (Conditions dc)"

definition isDeploymentInReadyState :: "Deployment \<Rightarrow> bool" where
  "isDeploymentInReadyState dc =
     (if length (Conditions dc) > 0 then (if hasCondition ''Available'' dc then True else False) else False)"

definition isDeploymentProgressing :: "Deployment \<Rightarrow> bool" where
  "isDeploymentProgressing dc =
     (if length (Conditions dc) > 0
      then (if hasCondition ''Progressing'' dc then True else if ObservedGeneration dc < 4 then True else False)
      else True)"

definition HasJaeger :: "'w Reconciler \<Rightarrow> string \<Rightarrow> string \<Rightarrow> ('w, bool) M" where
  "HasJaeger r namespace name =
     tryM (listM (jaegers r) namespace None) (\<lambda>x. case x of
       Inr items \<Rightarrow> returnM (list_ex (\<lambda>item. name = ''true'' \<or> Name item = name) items)
     | Inl _ \<Rightarrow> returnM False)"

definition usesJaeger :: "'w Reconciler \<Rightarrow> VirtualDatabase \<Rightarrow> ('w, bool) M" where
  "usesJaeger r vdb =
     (if Jaeger (Spec vdb) \<noteq> [] then HasJaeger r (vdb_Namespace vdb) (Jaeger (Spec vdb)) else returnM False)"

section \<open>The environment of the container\<close>

definition deploymentEnvironments :: "'w Reconciler \<Rightarrow> VirtualDatabase \<Rightarrow> ('w, EnvVar list) M" where
  "deploymentEnvironments r vdb =
     bindM (FetchDdl r vdb ''/tmp/teiid.vdb'') (\<lambda>ddlString.
     bindM (resM (ParseDataSourcesInfoFromDdl ddlString)) (\<lambda>dataSourceInfos.
     bindM (resM (of_sum (convert2SpringProperties (ConnectionFactories r) (DataSources (Spec vdb)) dataSourceInfos)))
       (\<lambda>dataSourceConfig.
     bindM (getDefaultEnvs r (spec_Env (Spec vdb))) (\<lambda>defaultEnvs.
     bindM (usesJaeger r vdb) (\<lambda>jaeger.
     let defaultEnvs = (if jaeger then Combine defaultEnvs (getDefaultJaegerEnvs (vdb_Name vdb)) else defaultEnvs) in
     bindM (if CacheStore (Status vdb) \<noteq> []
            then bindM (CredentialsAsEnv r (vdb_Name vdb) (vdb_Namespace vdb)) (\<lambda>c. returnM (Combine defaultEnvs c))
            else returnM defaultEnvs) (\<lambda>defaultEnvs.
       returnM (Combine defaultEnvs dataSourceConfig)))))))"

section \<open>Building a deployment\<close>

definition healthProbe :: Probe where
  "healthProbe = \<lparr>TimeoutSeconds = 5, PeriodSeconds = 20, SuccessThreshold = 1, FailureThreshold = 5,
     InitialDelaySeconds = 15, HTTPGetPath = ''/actuator/health'', HTTPGetPort = 8080\<rparr>"

definition deploymentLabels :: "VirtualDatabase \<Rightarrow> string gomap \<Rightarrow> string gomap" where
  "deploymentLabels vdb custom = foldl (\<lambda>m (k, v). AList.update k v m)
     [(''app'', vdb_Name vdb), (''teiid.io/VirtualDatabase'', vdb_Name vdb), (''teiid.io/type'', ''VirtualDatabase'')] custom"

definition newDeployment :: "VirtualDatabase \<Rightarrow> string gomap \<Rightarrow> EnvVar list \<Rightarrow> string \<Rightarrow> Deployment" where
  "newDeployment vdb labels envs img =
     emptyDeployment\<lparr>dc_Meta := (objectMeta (vdb_Name vdb) (vdb_Namespace vdb))\<lparr>Labels := labels, Annotations := Some []\<rparr>,
       dc_Replicas := Replicas (Spec vdb), dc_Selector := matchLabels (vdb_Name vdb), Strategy := ''RollingUpdate'',
       Template := \<lparr>pod_Meta = (objectMeta (vdb_Name vdb) [])\<lparr>Labels := labels,
           Annotations := Some [(''configHash'', ConfigDigest (Status vdb))]\<rparr>,
         Containers = [\<lparr>c_Name = vdb_Name vdb, Env = envs, c_Resources = GetComputingResources vdb, Image = img,
           ImagePullPolicy = ''Always'', c_Ports = containerPorts False, LivenessProbe = Some healthProbe,
           ReadinessProbe = Some healthProbe, WorkingDir = ''/deployments'',
           VolumeMounts = [\<lparr>vm_Name = ''keystore'', ReadOnly = True, MountPath = KeystoreLocation\<rparr>]\<rparr>],
         Volumes = [\<lparr>vol_Name = ''keystore'', SecretName = getKeystoreSecretName vdb\<rparr>]\<rparr>\<rparr>"

definition annotateDeployment :: "string \<Rightarrow> string \<Rightarrow> Deployment \<Rightarrow> Deployment" where
  "annotateDeployment k v dc =
     dc\<lparr>dc_Meta := (dc_Meta dc)\<lparr>Annotations := map_option (AList.update k v) (Annotations (dc_Meta dc))\<rparr>\<rparr>"

definition buildDeployment :: "'w Reconciler \<Rightarrow> VirtualDatabase \<Rightarrow> BuildConfig \<Rightarrow> ('w, Deployment) M" where
  "buildDeployment r vdb serviceBC =
     bindM (rangeM r (conf_Labels (Config r))) (\<lambda>custom.
     bindM (deploymentEnvironments r vdb) (\<lambda>deploymentEnvs.
     let deploymentEnvs = fst (HTTPSettings (osenv r) deploymentEnvs) in
     case OutputTo serviceBC of
       None \<Rightarrow> panicM ''nil pointer dereference''
     | Some to \<Rightarrow>
       (let dc = newDeployment vdb (deploymentLabels vdb custom) deploymentEnvs (ref_Name to) in
        bindM (usesJaeger r vdb) (\<lambda>jaeger.
        let dc = (if jaeger then annotateDeployment ''sidecar.jaegertracing.io/inject'' (Jaeger (Spec vdb)) dc else dc) in
        case setControllerReference r (vdb_Meta vdb) (dc_Meta dc) of
          Inl e \<Rightarrow> failM e
        | Inr m \<Rightarrow> returnM (dc\<lparr>dc_Meta := m\<rparr>)))))"

section \<open>A running deployment\<close>

definition setEnv :: "EnvVar list \<Rightarrow> Deployment \<Rightarrow> Deployment" where
  "setEnv envs item =
     item\<lparr>Template := (Template item)\<lparr>Containers :=
       (case Containers (Template item) of [] \<Rightarrow> [] | c # cs \<Rightarrow> c\<lparr>Env := envs\<rparr> # cs)\<rparr>\<rparr>"

definition setConfigHash :: "string \<Rightarrow> string gomap \<Rightarrow> Deployment \<Rightarrow> Deployment" where
  "setConfigHash digest annotations item =
     item\<lparr>Template := (Template item)\<lparr>pod_Meta := (pod_Meta (Template item))
       \<lparr>Annotations := Some (AList.update ''configHash'' digest annotations)\<rparr>\<rparr>\<rparr>"

text \<open>The comparisons at the start of \<open>ensureReplicas\<close>: the item and whether it has to be written.\<close>

definition desiredItem :: "VirtualDatabase \<Rightarrow> EnvVar list \<Rightarrow> Deployment \<Rightarrow> (Deployment \<times> bool) res" where
  "desiredItem vdb deploymentEnvs item =
     (case (Replicas (Spec vdb), dc_Replicas item) of
        (Some n, Some m) \<Rightarrow>
          (let (item, upd) = (if n \<noteq> m then (item\<lparr>dc_Replicas := Replicas (Spec vdb)\<rparr>, True) else (item, False)) in
           case Containers (Template item) of
             [] \<Rightarrow> Panic ''index out of range''
           | c # _ \<Rightarrow> if deploymentEnvs \<noteq> Env c then Ok (setEnv deploymentEnvs item, True) else Ok (item, upd))
      | _ \<Rightarrow> Panic ''nil pointer dereference'')"

definition ensureReplicas :: "'w Reconciler \<Rightarrow> Deployment \<Rightarrow> 'w handler" where
  "ensureReplicas r item =
     bindM getV (\<lambda>vdb.
     bindM (liftW (deploymentEnvironments r vdb)) (\<lambda>deploymentEnvs.
     bindM (liftW (resM (desiredItem vdb deploymentEnvs item))) (\<lambda>(item, upd).
     bindM (if \<not> upd
            then bindM (liftW (ComputeConfigDigest r vdb)) (\<lambda>configdigest.
                   if configdigest \<noteq> ConfigDigest (Status vdb)
                   then bindM (modV (setConfigDigest configdigest)) (\<lambda>_.
                     case Annotations (pod_Meta (Template item)) of
                       None \<Rightarrow> panicM ''assignment to entry in nil map''
                     | Some annotations \<Rightarrow> returnM (setConfigHash configdigest annotations item, True))
                   else returnM (item, False))
            else returnM (item, upd)) (\<lambda>(item, upd).
       if upd then bindM (liftW (updateM (deployments r) item)) (\<lambda>_. returnM ()) else returnM ()))))"

section \<open>The action\<close>

definition deployment_CanHandle :: "VirtualDatabase \<Rightarrow> bool" where
  "deployment_CanHandle vdb =
     (vdb_Phase vdb = ReconcilerPhaseKeystoreCreated \<or> vdb_Phase vdb = ReconcilerPhaseDeploying \<or>
      vdb_Phase vdb = ReconcilerPhaseRunning)"

definition rollout :: "'w Reconciler \<Rightarrow> VirtualDatabase \<Rightarrow> ('w, unit) M" where
  "rollout r vdb =
     bindM (getM (buildConfigs r) (vdb_Namespace vdb) (vdb_Name vdb)) (\<lambda>bc.
     tryM (findDC r vdb) (\<lambda>x. case x of
       Inl _ \<Rightarrow> bindM (buildDeployment r vdb bc) (\<lambda>dc. bindM (createM (deployments r) dc) (\<lambda>_. returnM ()))
     | Inr existing \<Rightarrow>
         (case (Containers (Template existing), OutputTo bc) of
            ([], _) \<Rightarrow> panicM ''index out of range''
          | (_, None) \<Rightarrow> panicM ''nil pointer dereference''
          | (c # cs, Some to) \<Rightarrow>
              if Image c \<noteq> ref_Name to
              then bindM (updateM (deployments r) (existing\<lparr>Template :=
                     (Template existing)\<lparr>Containers := c\<lparr>Image := ref_Name to\<rparr> # cs\<rparr>\<rparr>)) (\<lambda>_. returnM ())
              else returnM ())))"

definition deployment_Handle :: "'w Reconciler \<Rightarrow> 'w handler" where
  "deployment_Handle r =
     bindM getV (\<lambda>vdb.
       if vdb_Phase vdb = ReconcilerPhaseKeystoreCreated
       then bindM (liftW (rollout r vdb)) (\<lambda>_. modV (setPhase ReconcilerPhaseDeploying))
       else if vdb_Phase vdb = ReconcilerPhaseDeploying
       then bindM (liftW (findItem r vdb)) (\<lambda>item.
              if isDeploymentInReadyState item then modV (setPhase ReconcilerPhaseRunning)
              else if \<not> isDeploymentProgressing item then modV (setPhase ReconcilerPhaseError)
              else returnM ())
       else if vdb_Phase vdb = ReconcilerPhaseRunning
       then bindM (liftW (findItem r vdb)) (\<lambda>item.
              if isDeploymentInReadyState item then ensureReplicas r item else returnM ())
       else returnM ())"

definition NewDeploymentAction :: "'w Reconciler \<Rightarrow> 'w Step" where
  [new_action]: "NewDeploymentAction r = \<lparr>step_Name = ''DeploymentAction'', CanHandle = deployment_CanHandle, Handle = deployment_Handle r\<rparr>"

section \<open>Lemmas\<close>

definition deploymentEdges :: "(ReconcilerPhase \<times> ReconcilerPhase) set" where
  "deploymentEdges =
     {(ReconcilerPhaseKeystoreCreated, ReconcilerPhaseDeploying),
      (ReconcilerPhaseDeploying, ReconcilerPhaseRunning),
      (ReconcilerPhaseDeploying, ReconcilerPhaseError)}"

lemma ensureReplicas_post:
  assumes "\<And>res. Q res v" and "\<And>res d. Q res (setConfigDigest d v)"
  shows "post v (ensureReplicas r item) Q"
  unfolding ensureReplicas_def by (rule wp | simp add: assms)+

lemma deployment_post:
  assumes "\<And>res. Q res v"
    and "vdb_Phase v = ReconcilerPhaseKeystoreCreated \<Longrightarrow> Q (Ok ()) (setPhase ReconcilerPhaseDeploying v)"
    and "vdb_Phase v = ReconcilerPhaseDeploying \<Longrightarrow> Q (Ok ()) (setPhase ReconcilerPhaseRunning v)"
    and "vdb_Phase v = ReconcilerPhaseDeploying \<Longrightarrow> Q (Ok ()) (setPhase ReconcilerPhaseError v)"
    and "\<And>res d. vdb_Phase v = ReconcilerPhaseRunning \<Longrightarrow> Q res (setConfigDigest d v)"
  shows "post v (deployment_Handle r) Q"
  unfolding deployment_Handle_def by (rule wp ensureReplicas_post | simp add: assms)+

interpretation deployment: action deployment_CanHandle "deployment_Handle r" deploymentEdges for r
proof unfold_locales
  fix v :: VirtualDatabase
  show "post v (deployment_Handle r) (\<lambda>res v'. vdb_Phase v' = vdb_Phase v \<or> (vdb_Phase v, vdb_Phase v') \<in> deploymentEdges)"
    by (intro deployment_post) (auto simp: deploymentEdges_def)
qed (auto simp: deployment_CanHandle_def intro!: deployment_post)

text \<open>An environment that answers for every name of another one as that one does.\<close>

definition extends :: "EnvVar list \<Rightarrow> EnvVar list \<Rightarrow> bool" where
  "extends base envs \<longleftrightarrow> unique_names envs \<and> (\<forall>n v. Get base n = Some v \<longrightarrow> Get envs n = Some v)"

lemma Combine_unique: "unique_names (Combine a b)"
  unfolding Combine_def by (intro addMissing_unique) (simp add: unique_names_def)

lemma Get_Combine: "Get (Combine a b) n = (case Get a n of None \<Rightarrow> Get b n | Some v \<Rightarrow> Some v)"
  by (simp add: Combine_def Get_addMissing)

lemma extends_Combine: "extends base a \<Longrightarrow> extends base (Combine a b)"
  by (auto simp: extends_def Combine_unique Get_Combine)

lemma extends_trans: "extends a b \<Longrightarrow> extends b c \<Longrightarrow> extends a c"
  by (auto simp: extends_def)

lemma extends_names: "extends a b \<Longrightarrow> set (names a) \<subseteq> set (names b)"
  unfolding extends_def using Get_None_iff by (metis not_None_eq subsetI)

lemma getDefaultEnvs_extends:
  assumes "getDefaultEnvs r user w = (Ok base, w')"
  shows "extends base base"
  using assms getDefaultEnvs_Ok [of r user w]
  by (auto simp: extends_def intro!: addMissing_unique HTTPSettings_unique Clone_unique)

lemma deploymentEnvironments_extends:
  assumes "deploymentEnvironments r vdb w = (Ok envs, w')"
  shows "\<exists>base w1 w2. getDefaultEnvs r (spec_Env (Spec vdb)) w1 = (Ok base, w2) \<and> extends base envs"
proof -
  let ?P = "\<lambda>envs. \<exists>base w1 w2. getDefaultEnvs r (spec_Env (Spec vdb)) w1 = (Ok base, w2) \<and> extends base envs"
  have P: "?P d" if "extends base d" "getDefaultEnvs r (spec_Env (Spec vdb)) w1 = (Ok base, w2)" for base d w1 w2
    using that by blast
  have cache: "ensures (if CacheStore (Status vdb) \<noteq> []
      then bindM (CredentialsAsEnv r (vdb_Name vdb) (vdb_Namespace vdb)) (\<lambda>c. returnM (Combine d c)) else returnM d) (extends base)"
    if "extends base d" for base d
    by (rule ens extends_Combine that)+
  have "ensures (deploymentEnvironments r vdb) ?P"
    unfolding deploymentEnvironments_def
    by (rule ens)+ (rule P, rule extends_Combine, erule ensuresD [OF cache, rotated],
        auto intro: extends_Combine getDefaultEnvs_extends)
  from ensuresD [where m = "deploymentEnvironments r vdb", OF this assms] show ?thesis .
qed

text \<open>The proxy settings are already part of the environment.\<close>

lemma getDefaultEnvs_proxy:
  assumes "getDefaultEnvs r user w = (Ok base, w')"
  shows "userProxy base \<or> \<not> clusterProxy (osenv r)"
proof -
  obtain props where base: "base = addMissing (fst (HTTPSettings (osenv r) (Clone user))) (defaultEnv props)"
    using assms getDefaultEnvs_Ok [of r user w] by auto
  have "userProxy (fst (HTTPSettings (osenv r) (Clone user)))" if "clusterProxy (osenv r)"
  proof (cases "userProxy (Clone user)")
    case False
    from that obtain n where n: "n \<in> set proxyNames" "osenv r n \<noteq> None"
      by (auto simp: clusterProxy_def Getenv_def split: option.splits)
    with Get_HTTPSettings_added [OF False that, of n] show ?thesis by (fastforce simp: userProxy_def)
  qed (simp add: HTTPSettings_envs)
  then show ?thesis by (auto simp: base userProxy_def Get_addMissing split: option.splits)
qed

lemma userProxy_extends: "extends base envs \<Longrightarrow> userProxy base \<Longrightarrow> userProxy envs"
  unfolding userProxy_def extends_def by (metis not_None_eq)

lemma HTTPSettings_deploymentEnvironments:
  assumes "deploymentEnvironments r vdb w = (Ok envs, w')"
  shows "fst (HTTPSettings (osenv r) envs) = envs"
proof -
  obtain base w1 w2 where "getDefaultEnvs r (spec_Env (Spec vdb)) w1 = (Ok base, w2)" and "extends base envs"
    using deploymentEnvironments_extends [OF assms] by blast
  then have "userProxy envs \<or> \<not> clusterProxy (osenv r)"
    using getDefaultEnvs_proxy by (metis userProxy_extends)
  then show ?thesis by (auto simp: HTTPSettings_envs)
qed

text \<open>Labels of the configuration do not hide the labels of the selector when they use other keys.\<close>

lemma map_of_foldl_update:
  "k \<notin> fst ` set kvs \<Longrightarrow> map_of (foldl (\<lambda>m (k, v). AList.update k v m) m kvs) k = map_of m k"
  by (induction kvs arbitrary: m) (auto simp: update_conv')

lemma deploymentLabels_select:
  assumes "fst ` set custom \<inter> fst ` set (matchLabels (vdb_Name vdb)) = {}"
  shows "\<forall>(k, v) \<in> set (matchLabels (vdb_Name vdb)). map_of (deploymentLabels vdb custom) k = Some v"
proof -
  have "map_of (deploymentLabels vdb custom) k = map_of (matchLabels (vdb_Name vdb)) k"
    if "k \<in> fst ` set (matchLabels (vdb_Name vdb))" for k
    using that assms map_of_foldl_update [of k custom] unfolding deploymentLabels_def matchLabels_def
    by (metis disjoint_iff)
  then show ?thesis by (force simp: matchLabels_def)
qed

lemma buildDeployment_shape:
  "ensures (buildDeployment r vdb bc) (\<lambda>dc. \<exists>to custom w1 w2 w3 w4 envs.
     rangeM r (conf_Labels (Config r)) w1 = (Ok custom, w2) \<and> deploymentEnvironments r vdb w3 = (Ok envs, w4) \<and>
     OutputTo bc = Some to \<and>
     (let d = newDeployment vdb (deploymentLabels vdb custom) envs (ref_Name to) in
      dc_Replicas dc = dc_Replicas d \<and> dc_Selector dc = dc_Selector d \<and> Template dc = Template d))"
  unfolding buildDeployment_def
  by (rule ens)+ (auto simp: HTTPSettings_deploymentEnvironments annotateDeployment_def Let_def, blast)

text \<open>A virtual database without sources on an empty cluster has an environment.\<close>

lemma getDefaultEnvs_upd: "getDefaultEnvs (r\<lparr>vdbs := x, deployments := c\<rparr>) user = getDefaultEnvs r user"
  by (simp add: getDefaultEnvs_def javaProperties_def rangeM_def [abs_def])

lemma emptyCluster_environment:
  assumes "CacheStore s = []"
  shows "\<exists>envs. \<forall>x c. deploymentEnvironments (emptyCluster\<lparr>vdbs := x, deployments := c\<rparr>)
    (emptyVdb\<lparr>Spec := emptySpec\<lparr>spec_Env := user, Replicas := n\<rparr>, Status := s\<rparr>) () = (Ok envs, ())"
proof -
  obtain base u where "getDefaultEnvs emptyCluster user () = (Ok base, u)"
    using getDefaultEnvs_base [of emptyCluster user "()"] by blast
  moreover have "ParseDataSourcesInfoFromDdl [] = Ok []" by code_simp
  ultimately show ?thesis
    using assms by (simp add: deploymentEnvironments_def FetchDdl_def usesJaeger_def convert2SpringProperties_def emptyVdb_def
        emptySpec_def emptySource_def bindM_def returnM_def resM_def getDefaultEnvs_upd)
qed

lemma emptyCluster_upd:
  "emptyCluster\<lparr>vdbs := vdbs emptyCluster, deployments := deployments emptyCluster\<rparr> = emptyCluster"
  "emptyCluster\<lparr>vdbs := vdbs emptyCluster, deployments := c\<rparr> = emptyCluster\<lparr>deployments := c\<rparr>"
  "emptyVdb\<lparr>Spec := emptySpec\<lparr>spec_Env := user, Replicas := None\<rparr>, Status := emptyStatus\<rparr> =
     emptyVdb\<lparr>Spec := emptySpec\<lparr>spec_Env := user\<rparr>\<rparr>"
  "emptyVdb\<lparr>Spec := emptySpec\<lparr>spec_Env := []\<rparr>\<rparr> = emptyVdb"
  by (simp_all add: emptyVdb_def emptySpec_def emptyStatus_def)

lemma empty_env: "\<exists>envs. deploymentEnvironments emptyCluster (emptyVdb\<lparr>Spec := emptySpec\<lparr>spec_Env := user\<rparr>\<rparr>) () = (Ok envs, ())"
  using emptyCluster_environment [where user = user and n = None and s = emptyStatus] unfolding emptyCluster_upd(3)
  by (metis emptyCluster_upd(1) emptyStatus_def VirtualDatabaseStatus.select_convs(7))

text \<open>
  When a referenced secret or config map changed and the write of the deployment then fails, the new
  digest is already in the status.
\<close>

lemma ensureReplicas_loses_change:
  assumes "vdb_Phase v = ReconcilerPhaseRunning" and "Replicas (Spec v) = Some n"
    and "rGet (deployments r) (vdb_Namespace v) (vdb_Name v) w = (Inr item, w1)"
    and "hasCondition ''Available'' item" and "dc_Replicas item = Some n" and "Containers (Template item) = c # cs"
    and "deploymentEnvironments r v w1 = (Ok (Env c), w2)" and "ComputeConfigDigest r v w2 = (Ok d, w3)"
    and "d \<noteq> ConfigDigest (Status v)" and "Annotations (pod_Meta (Template item)) = Some a"
    and "rUpdate (deployments r) (setConfigHash d a item) w3 = (Inl e, w4)"
  shows "deployment_Handle r (v, w) = (Fail e, setConfigDigest d v, w4)"
proof -
  have "isDeploymentInReadyState item" using assms(4) by (auto simp: isDeploymentInReadyState_def hasCondition_def)
  with assms show ?thesis
    by (simp add: deployment_Handle_def findItem_def findDC_def ensureReplicas_def desiredItem_def bindM_def tryM_def
        returnM_def getV_def modV_def liftW_def resM_def getM_def updateM_def callM_def)
qed

section \<open>Properties\<close>

text \<open>
  C19: the environment of the container. No name occurs twice, what the user defines wins over every
  default, over the credentials of the cache store and over the properties of the data sources, and
  every default variable is there.
\<close>

theorem deploymentEnvironments_user_wins:
  assumes "deploymentEnvironments r vdb w = (Ok envs, w')"
  shows "unique_names envs \<and> set defaultNames \<subseteq> set (names envs) \<and>
    (\<forall>n e. Get (spec_Env (Spec vdb)) n = Some e \<longrightarrow> Get envs n = Some e)"
proof -
  obtain base w1 w2 where b: "getDefaultEnvs r (spec_Env (Spec vdb)) w1 = (Ok base, w2)" "extends base envs"
    using deploymentEnvironments_extends [OF assms] by blast
  have "set defaultNames \<subseteq> set (names base)" "Get base n = Some e" if "Get (spec_Env (Spec vdb)) n = Some e" for n e
    using that b(1) getDefaultEnvs_base [of r "spec_Env (Spec vdb)" w1] by auto
  moreover have "set defaultNames \<subseteq> set (names base)"
    using b(1) getDefaultEnvs_base [of r "spec_Env (Spec vdb)" w1] by auto
  ultimately show ?thesis using b(2) extends_names [OF b(2)] by (auto simp: extends_def)
qed

theorem deploymentEnvironments_user_wins_witness:
  "\<exists>envs. deploymentEnvironments emptyCluster (emptyVdb\<lparr>Spec := emptySpec\<lparr>spec_Env := [plainEnv ''JAVA_DEBUG'' ''true'']\<rparr>\<rparr>) () =
     (Ok envs, ()) \<and> Get envs ''JAVA_DEBUG'' = Some (plainEnv ''JAVA_DEBUG'' ''true'')"
proof -
  obtain envs where e: "deploymentEnvironments emptyCluster
      (emptyVdb\<lparr>Spec := emptySpec\<lparr>spec_Env := [plainEnv ''JAVA_DEBUG'' ''true'']\<rparr>\<rparr>) () = (Ok envs, ())"
    using empty_env by blast
  with deploymentEnvironments_user_wins [OF e] show ?thesis by (simp add: plainEnv_def)
qed

text \<open>
  C20: the second pass of the proxy settings does nothing. \<open>buildDeployment\<close> applies the settings of the cluster proxy to
  an environment into which \<open>getDefaultEnvs\<close> has put them already. Without that pass it would give the same result in the
  same world, for every virtual database, build and cluster, errors and panics included: what a deployment is created with is computed as what
  \<open>ensureReplicas\<close> compares it with.
\<close>

theorem buildDeployment_once:
  "buildDeployment r vdb bc =
     bindM (rangeM r (conf_Labels (Config r))) (\<lambda>custom.
     bindM (deploymentEnvironments r vdb) (\<lambda>envs.
     case OutputTo bc of
       None \<Rightarrow> panicM ''nil pointer dereference''
     | Some to \<Rightarrow>
         bindM (usesJaeger r vdb) (\<lambda>jaeger.
         let dc = newDeployment vdb (deploymentLabels vdb custom) envs (ref_Name to);
             dc = (if jaeger then annotateDeployment ''sidecar.jaegertracing.io/inject'' (Jaeger (Spec vdb)) dc else dc) in
         case setControllerReference r (vdb_Meta vdb) (dc_Meta dc) of
           Inl e \<Rightarrow> failM e
         | Inr m \<Rightarrow> returnM (dc\<lparr>dc_Meta := m\<rparr>))))"
proof -
  have once: "bindM (deploymentEnvironments r vdb) (\<lambda>envs. f (fst (HTTPSettings (osenv r) envs))) = bindM (deploymentEnvironments r vdb) f" for f
    using HTTPSettings_deploymentEnvironments [of r vdb] by (fastforce simp: bindM_def fun_eq_iff split: prod.split res.split)
  show ?thesis
    unfolding buildDeployment_def Let_def by (rule arg_cong2 [where f = bindM], rule refl, rule ext, rule sym, rule once [symmetric])
qed

text \<open>
  C37: the deployment selects its own pods. As long as the labels of the operator's configuration use
  other keys, every label of the selector is on the pods, with the same value; the services select by
  the same labels.
\<close>

theorem buildDeployment_selects:
  assumes "buildDeployment r vdb bc w = (Ok dc, w')" and "range_permutes r" and "distinct (map fst (conf_Labels (Config r)))"
    and "fst ` set (conf_Labels (Config r)) \<inter> {''app'', ''teiid.io/VirtualDatabase'', ''teiid.io/type''} = {}"
  shows "dc_Selector dc = matchLabels (vdb_Name vdb) \<and>
    (\<forall>(k, v) \<in> set (dc_Selector dc). map_of (Labels (pod_Meta (Template dc))) k = Some v)"
proof -
  obtain to custom w1 w2 envs where custom: "rangeM r (conf_Labels (Config r)) w1 = (Ok custom, w2)"
      and dc: "dc_Selector dc = matchLabels (vdb_Name vdb)"
        "Labels (pod_Meta (Template dc)) = deploymentLabels vdb custom"
    using ensuresD [OF buildDeployment_shape assms(1)] by (auto simp: newDeployment_def Let_def emptyDeployment_def)
  have "set custom = set (conf_Labels (Config r))"
    using rangeM_mset [OF assms(2,3) custom] by (metis mset_eq_setD)
  with assms(4) have "fst ` set custom \<inter> fst ` set (matchLabels (vdb_Name vdb)) = {}"
    by (simp add: matchLabels_def)
  from deploymentLabels_select [OF this] show ?thesis by (simp add: dc)
qed

theorem buildDeployment_selects_witness:
  "\<exists>dc. buildDeployment emptyCluster emptyVdb ((emptyBuildConfig ''shop'' ''ns'')\<lparr>OutputTo :=
       Some \<lparr>ref_Kind = ''ImageStreamTag'', ref_Name = ''shop:latest'', ref_Namespace = []\<rparr>\<rparr>) () = (Ok dc, ()) \<and>
     dc_Selector dc = matchLabels (vdb_Name emptyVdb)"
proof -
  obtain envs where "deploymentEnvironments emptyCluster emptyVdb () = (Ok envs, ())"
    using empty_env [of "[]"] unfolding emptyCluster_upd by blast
  then obtain dc where b: "buildDeployment emptyCluster emptyVdb ((emptyBuildConfig ''shop'' ''ns'')\<lparr>OutputTo :=
       Some \<lparr>ref_Kind = ''ImageStreamTag'', ref_Name = ''shop:latest'', ref_Namespace = []\<rparr>\<rparr>) () = (Ok dc, ())"
    by (simp add: buildDeployment_def rangeM_def usesJaeger_def bindM_def returnM_def emptyCluster_def emptyConfiguration_def
        emptyVdb_def emptySpec_def)
  from buildDeployment_selects [OF this] b show ?thesis
    by (simp add: range_permutes_def emptyCluster_def emptyConfiguration_def)
qed

text \<open>
  In memory the comparisons are idempotent: applied to an item that they have corrected, they find nothing more. What the API
  server makes of the item it stores is another matter.
\<close>

theorem desiredItem_converges:
  assumes "desiredItem vdb envs item = Ok (item', upd)"
  shows "desiredItem vdb envs item' = Ok (item', False)"
  using assms
  by (auto simp: desiredItem_def setEnv_def Let_def split: option.splits if_splits list.splits)

theorem desiredItem_converges_witness:
  "desiredItem (setReplicas (Some 2) emptyVdb) []
     (newDeployment (setReplicas (Some 2) emptyVdb) [] [] ''img'') =
   Ok (newDeployment (setReplicas (Some 2) emptyVdb) [] [] ''img'', False)"
proof (rule desiredItem_converges)
  show "desiredItem (setReplicas (Some 2) emptyVdb) [] ((newDeployment (setReplicas (Some 2) emptyVdb) [] [] ''img'')\<lparr>dc_Replicas := Some 1\<rparr>) =
    Ok (newDeployment (setReplicas (Some 2) emptyVdb) [] [] ''img'', True)"
    by (simp add: desiredItem_def newDeployment_def setReplicas_def emptyDeployment_def)
qed

text \<open>
  C21: removing the number of replicas from a running virtual database crashes the operator. The default
  is only filled in while it initializes; a running and available deployment whose specification names
  no number of replicas is compared through a nil pointer.
\<close>

theorem ensureReplicas_crashes:
  assumes "vdb_Phase v = ReconcilerPhaseRunning" and "Replicas (Spec v) = None"
    and "rGet (deployments r) (vdb_Namespace v) (vdb_Name v) w = (Inr item, w1)"
    and "hasCondition ''Available'' item" and "deploymentEnvironments r v w1 = (Ok envs, w2)"
  shows "deployment_Handle r (v, w) = (Panic ''nil pointer dereference'', v, w2)"
proof -
  have "isDeploymentInReadyState item" using assms(4) by (auto simp: isDeploymentInReadyState_def hasCondition_def)
  with assms show ?thesis
    by (simp add: deployment_Handle_def findItem_def findDC_def ensureReplicas_def desiredItem_def bindM_def tryM_def
        returnM_def getV_def modV_def liftW_def resM_def getM_def updateM_def callM_def)
qed

theorem ensureReplicas_crashes_witness:
  "deployment_Handle (emptyCluster\<lparr>deployments := constClient (emptyDeployment\<lparr>Conditions :=
       [\<lparr>cond_Type = ''Available'', cond_Status = ''True''\<rparr>]\<rparr>)\<rparr>)
     (emptyVdb\<lparr>Spec := emptySpec\<lparr>spec_Env := [], Replicas := None\<rparr>, Status := emptyStatus\<lparr>Phase := ReconcilerPhaseRunning\<rparr>\<rparr>, ()) =
   (Panic ''nil pointer dereference'',
     emptyVdb\<lparr>Spec := emptySpec\<lparr>spec_Env := [], Replicas := None\<rparr>, Status := emptyStatus\<lparr>Phase := ReconcilerPhaseRunning\<rparr>\<rparr>, ())"
proof -
  let ?v = "emptyVdb\<lparr>Spec := emptySpec\<lparr>spec_Env := [], Replicas := None\<rparr>, Status := emptyStatus\<lparr>Phase := ReconcilerPhaseRunning\<rparr>\<rparr>"
  obtain envs where "\<And>x c. deploymentEnvironments (emptyCluster\<lparr>vdbs := x, deployments := c\<rparr>) ?v () = (Ok envs, ())"
    using emptyCluster_environment [where user = "[]" and n = None and s = "emptyStatus\<lparr>Phase := ReconcilerPhaseRunning\<rparr>"]
    by (auto simp: emptyStatus_def)
  from this [where x = "vdbs emptyCluster"] have env: "\<And>c. deploymentEnvironments (emptyCluster\<lparr>deployments := c\<rparr>) ?v () = (Ok envs, ())"
    by (simp only: emptyCluster_upd(2))
  show ?thesis
    by (rule ensureReplicas_crashes [where item = "emptyDeployment\<lparr>Conditions :=
        [\<lparr>cond_Type = ''Available'', cond_Status = ''True''\<rparr>]\<rparr>" and ?w1.0 = "()" and envs = envs])
      (use env in \<open>simp_all add: hasCondition_def constClient_def\<close>)
qed

end
