(* ===== verification/Prometheus_Monitor.thy ===== *)
theory Prometheus_Monitor
  imports Action
begin

text \<open>
  \<open>prometheus-monitor.go\<close>: a running virtual database gets a service monitor when a Prometheus
  instance of its namespace selects the monitors of the operator's labels.
\<close>

section \<open>The action\<close>

definition prometheus_CanHandle :: "VirtualDatabase \<Rightarrow> bool" where
  "prometheus_CanHandle vdb = (vdb_Phase vdb = ReconcilerPhaseRunning)"

definition monitorLabels :: "'w Reconciler \<Rightarrow> string gomap" where
  "monitorLabels r = (case MatchLabels (Config r) of None \<Rightarrow> [] | Some m \<Rightarrow> m)"

text \<open>The loop over the instances. A label that an instance lacks reads as the empty string.\<close>

fun selectsMonitors :: "'w Reconciler \<Rightarrow> Prometheus list \<Rightarrow> ('w, bool) M" where
  "selectsMonitors r [] = returnM False"
| "selectsMonitors r (item # items) =
     (case ServiceMonitorSelector item of
        None \<Rightarrow> selectsMonitors r items
      | Some labels \<Rightarrow>
          bindM (rangeM r (monitorLabels r)) (\<lambda>kvs.
            if list_ex (\<lambda>(k, v). mapGet labels k = v) kvs then returnM True else selectsMonitors r items))"

definition hasPrometheus :: "'w Reconciler \<Rightarrow> VirtualDatabase \<Rightarrow> ('w, bool) M" where
  "hasPrometheus r vdb =
     tryM (listM (prometheuses r) (vdb_Namespace vdb) None) (\<lambda>x. case x of
       Inl _ \<Rightarrow> returnM False
     | Inr items \<Rightarrow> selectsMonitors r items)"

definition hasServiceMonitor :: "'w Reconciler \<Rightarrow> VirtualDatabase \<Rightarrow> ('w, bool) M" where
  "hasServiceMonitor r vdb =
     tryM (listM (serviceMonitors r) (vdb_Namespace vdb) None) (\<lambda>x. case x of
       Inl _ \<Rightarrow> returnM False
     | Inr items \<Rightarrow> returnM (list_ex (\<lambda>item. Name (sm_Meta item) = vdb_Name vdb) items))"

definition serviceMonitor :: "'w Reconciler \<Rightarrow> VirtualDatabase \<Rightarrow> ServiceMonitor" where
  "serviceMonitor r vdb =
     (let monitor = \<lparr>sm_Meta = (objectMeta (vdb_Name vdb) (vdb_Namespace vdb))\<lparr>Labels := monitorLabels r\<rparr>,
            sm_Selector = [(''teiid.io/VirtualDatabase'', vdb_Name vdb), (''app'', vdb_Name vdb)],
            Endpoints = [''prometheus'']\<rparr> in
      case setControllerReference r (vdb_Meta vdb) (sm_Meta monitor) of
        Inl _ \<Rightarrow> monitor
      | Inr m \<Rightarrow> monitor\<lparr>sm_Meta := m\<rparr>)"

definition createServiceMonitor :: "'w Reconciler \<Rightarrow> VirtualDatabase \<Rightarrow> ('w, unit) M" where
  "createServiceMonitor r vdb =
     bindM (createM (serviceMonitors r) (serviceMonitor r vdb)) (\<lambda>_. returnM ())"

definition prometheus_Handle :: "'w Reconciler \<Rightarrow> 'w handler" where
  "prometheus_Handle r =
     bindM getV (\<lambda>vdb.
     bindM (liftW (hasPrometheus r vdb)) (\<lambda>prometheus.
       if prometheus
       then bindM (liftW (hasServiceMonitor r vdb)) (\<lambda>monitored.
              if \<not> monitored then liftW (createServiceMonitor r vdb) else returnM ())
       else returnM ()))"

definition NewPrometheusMonitorAction :: "'w Reconciler \<Rightarrow> 'w Step" where
  [new_action]: "NewPrometheusMonitorAction r = \<lparr>step_Name = ''PrometheusMonitorAction'', CanHandle = prometheus_CanHandle, Handle = prometheus_Handle r\<rparr>"

section \<open>Lemmas\<close>

lemma prometheus_post:
  assumes "\<And>res. Q res v"
  shows "post v (prometheus_Handle r) Q"
  unfolding prometheus_Handle_def by (rule wp | simp add: assms)+

interpretation prometheus_monitor: action prometheus_CanHandle "prometheus_Handle r" "{}" for r
  by unfold_locales (auto simp: prometheus_CanHandle_def intro!: prometheus_post)

definition wantsMonitor :: "'w Reconciler \<Rightarrow> Prometheus \<Rightarrow> bool" where
  "wantsMonitor r item \<longleftrightarrow>
     (\<exists>labels. ServiceMonitorSelector item = Some labels \<and> (\<exists>(k, v) \<in> set (monitorLabels r). mapGet labels k = v))"

lemma selectsMonitors_iff:
  assumes "range_permutes r" and "distinct (map fst (monitorLabels r))"
  shows "\<exists>w'. selectsMonitors r items w = (Ok (\<exists>item \<in> set items. wantsMonitor r item), w')"
proof (induction items arbitrary: w)
  case (Cons item items)
  show ?case
  proof (cases "ServiceMonitorSelector item")
    case None
    with Cons.IH show ?thesis by (simp add: wantsMonitor_def)
  next
    case (Some labels)
    obtain kvs w1 where kvs: "rangeM r (monitorLabels r) w = (Ok kvs, w1)" using rangeM_total [of r "monitorLabels r" w] by blast
    have "set kvs = set (monitorLabels r)" using rangeM_mset [OF assms kvs] by (metis mset_eq_setD)
    then have "list_ex (\<lambda>(k, v). mapGet labels k = v) kvs \<longleftrightarrow> wantsMonitor r item"
      by (auto simp: list_ex_iff wantsMonitor_def Some)
    moreover obtain w2 where "selectsMonitors r items w1 = (Ok (\<exists>item \<in> set items. wantsMonitor r item), w2)"
      using Cons.IH by blast
    ultimately show ?thesis by (cases "wantsMonitor r item") (simp_all add: Some bindM_def kvs returnM_def)
  qed
qed (simp add: returnM_def)

section \<open>Properties\<close>

text \<open>
  A service monitor is created exactly when it is wanted and missing. On readable lists the action
  creates one if some Prometheus instance selects monitors by one of the operator's labels and no monitor
  has the name of the virtual database, and does nothing to the virtual database in any case.
\<close>

theorem prometheus_Handle_creates:
  assumes "range_permutes r" and "distinct (map fst (monitorLabels r))"
    and "\<And>w. rList (prometheuses r) (vdb_Namespace v) None w = (Inr ps, w)"
    and "\<And>w. rList (serviceMonitors r) (vdb_Namespace v) None w = (Inr ms, w)"
  shows "\<exists>w'. prometheus_Handle r (v, w) =
    (if (\<exists>p \<in> set ps. wantsMonitor r p) \<and> vdb_Name v \<notin> (Name \<circ> sm_Meta) ` set ms
     then (case rCreate (serviceMonitors r) (serviceMonitor r v) w' of
             (Inl e, w'') \<Rightarrow> (Fail e, v, w'')
           | (Inr _, w'') \<Rightarrow> (Ok (), v, w''))
     else (Ok (), v, w'))"
proof -
  obtain w1 where "selectsMonitors r ps w = (Ok (\<exists>p \<in> set ps. wantsMonitor r p), w1)"
    using selectsMonitors_iff [OF assms(1,2)] by blast
  then have has: "hasPrometheus r v w = (Ok (\<exists>p \<in> set ps. wantsMonitor r p), w1)"
    by (simp add: hasPrometheus_def tryM_def listM_def callM_def assms(3))
  have mon: "hasServiceMonitor r v w1 = (Ok (vdb_Name v \<in> (Name \<circ> sm_Meta) ` set ms), w1)"
    by (simp add: hasServiceMonitor_def tryM_def listM_def callM_def assms(4) returnM_def list_ex_iff image_iff) metis
  show ?thesis
    by (intro exI [of _ w1])
      (auto simp: prometheus_Handle_def bindM_def getV_def liftW_def has mon returnM_def createServiceMonitor_def createM_def
        callM_def split: prod.split sum.split)
qed

theorem prometheus_Handle_creates_witness:
  "prometheus_Handle (emptyCluster\<lparr>Config := emptyConfiguration\<lparr>MatchLabels := Some [(''monitor'', ''teiid'')]\<rparr>,
      prometheuses := constClient \<lparr>prom_Meta = objectMeta ''p'' ''ns'', ServiceMonitorSelector = Some [(''monitor'', ''teiid'')]\<rparr>,
      serviceMonitors := emptyClient\<lparr>rCreate := nothing\<rparr>\<rparr>) (emptyVdb, ()) =
   (Fail (NotFound ''not found''), emptyVdb, ())"
proof -
  let ?p = "\<lparr>prom_Meta = objectMeta ''p'' ''ns'', ServiceMonitorSelector = Some [(''monitor'', ''teiid'')]\<rparr>"
  let ?r = "(emptyCluster :: unit Reconciler)\<lparr>Config := emptyConfiguration\<lparr>MatchLabels := Some [(''monitor'', ''teiid'')]\<rparr>,
      prometheuses := constClient ?p, serviceMonitors := emptyClient\<lparr>rCreate := nothing\<rparr>\<rparr>"
  have "wantsMonitor ?r ?p" by (simp add: wantsMonitor_def monitorLabels_def mapGet_def)
  moreover note prometheus_Handle_creates [of ?r emptyVdb "[?p]" "[]" "()"]
  ultimately show ?thesis
    by (simp add: range_permutes_def emptyCluster_def monitorLabels_def constClient_def emptyClient_def nothing_def)
qed

end
