(* ===== verification/Controller.thy ===== *)
theory Controller
  imports Initialize Cachestore Service_Image Certificates Deployments Prometheus_Monitor
begin

text \<open>
  \<open>virtualdatabase_controller.go\<close>: one reconciliation of a virtual database, and what it may decide to
  store. The actions enter through the interface of
  \<open>Action\<close>: what is proved here of the phases rests on their interpretations of the locale.
\<close>

section \<open>The reconciliation\<close>

definition buildSteps :: "'w Reconciler \<Rightarrow> 'w Step list" where
  "buildSteps r =
     [NewInitializeAction r,
      NewCacheStoreAction r,
      News2IBuilderImageAction r,
      NewServiceImageAction r,
      NewCreateServiceAction r,
      NewCreateCertificateAction r,
      NewDeploymentAction r,
      NewPrometheusMonitorAction r]"

record Result =
  RequeueAfter :: int

definition emptyResult :: Result where
  "emptyResult = \<lparr>RequeueAfter = 0\<rparr>"

text \<open>\<open>time.Second\<close> in nanoseconds.\<close>

definition Second :: int where
  "Second = 1000000000"

definition hasChanges :: "VirtualDatabase \<Rightarrow> VirtualDatabase \<Rightarrow> bool" where
  "hasChanges instance cached =
     (if Spec instance \<noteq> Spec cached then True
      else if Status instance \<noteq> Status cached then True
      else False)"

text \<open>The loop over the actions: \<open>target\<close> is the copy that the handlers change.\<close>

fun runSteps :: "'w Reconciler \<Rightarrow> VirtualDatabase \<Rightarrow> 'w Step list \<Rightarrow> VirtualDatabase \<Rightarrow> ('w, Result) M" where
  "runSteps r instance [] target = returnM \<lparr>RequeueAfter = 5 * Second\<rparr>"
| "runSteps r instance (a # as) target =
     (if CanHandle a target
      then (\<lambda>w. case Handle a (target, w) of
              (Panic p, _, w') \<Rightarrow> (Panic p, w')
            | (processError, target', w') \<Rightarrow>
                if hasChanges instance target'
                then bindM (updateM (vdbs r) target') (\<lambda>_.
                       case processError of Fail e \<Rightarrow> failM e | _ \<Rightarrow> returnM emptyResult) w'
                else runSteps r instance as target' w')
      else runSteps r instance as target)"

definition Reconcile :: "'w Reconciler \<Rightarrow> string \<Rightarrow> string \<Rightarrow> ('w, Result) M" where
  "Reconcile r namespace name =
     tryM (getM (vdbs r) namespace name) (\<lambda>x. case x of
       Inl e \<Rightarrow>
         if IsNotFound e
         then tryM (ConsoleLinkExists r) (\<lambda>y. case y of
                Inr _ \<Rightarrow> bindM (RemoveConsoleLink r (objectMeta name namespace)) (\<lambda>_. returnM emptyResult)
              | Inl _ \<Rightarrow> returnM emptyResult)
         else failM e
     | Inr instance \<Rightarrow>
         if IsVdbUpdated instance
         then bindM (updateM (vdbs r) (RedeployVdb instance)) (\<lambda>_. returnM emptyResult)
         else runSteps r instance (buildSteps r) instance)"

section \<open>What a reconciliation decides\<close>

text \<open>
  The decision apart from its execution: the object to write and the error to report, or nothing.
\<close>

fun planSteps :: "VirtualDatabase \<Rightarrow> 'w Step list \<Rightarrow> VirtualDatabase \<Rightarrow> ('w, (VirtualDatabase \<times> error option) option) M" where
  "planSteps instance [] target = returnM None"
| "planSteps instance (a # as) target =
     (if CanHandle a target
      then (\<lambda>w. case Handle a (target, w) of
              (Panic p, _, w') \<Rightarrow> (Panic p, w')
            | (Fail e, target', w') \<Rightarrow>
                if hasChanges instance target' then (Ok (Some (target', Some e)), w') else planSteps instance as target' w'
            | (Ok _, target', w') \<Rightarrow>
                if hasChanges instance target' then (Ok (Some (target', None)), w') else planSteps instance as target' w')
      else planSteps instance as target)"

definition plan :: "'w Reconciler \<Rightarrow> VirtualDatabase \<Rightarrow> ('w, (VirtualDatabase \<times> error option) option) M" where
  "plan r v = (if IsVdbUpdated v then returnM (Some (RedeployVdb v, None)) else planSteps v (buildSteps r) v)"

definition execute :: "'w Reconciler \<Rightarrow> (VirtualDatabase \<times> error option) option \<Rightarrow> ('w, Result) M" where
  "execute r d =
     (case d of
        None \<Rightarrow> returnM \<lparr>RequeueAfter = 5 * Second\<rparr>
      | Some (v, err) \<Rightarrow>
          bindM (updateM (vdbs r) v) (\<lambda>_. case err of Some e \<Rightarrow> failM e | None \<Rightarrow> returnM emptyResult))"

lemma execute_simps [simp]:
  "execute r None = returnM \<lparr>RequeueAfter = 5 * Second\<rparr>"
  "execute r (Some (v, None)) = bindM (updateM (vdbs r) v) (\<lambda>_. returnM emptyResult)"
  "execute r (Some (v, Some e)) = bindM (updateM (vdbs r) v) (\<lambda>_. failM e)"
  by (simp_all add: execute_def)

lemma runSteps_plan: "runSteps r v as target w = bindM (planSteps v as target) (execute r) w"
proof (induction as arbitrary: target w)
  case (Cons a as)
  obtain res t' w' where h: "Handle a (target, w) = (res, t', w')" by (metis prod_cases3)
  show ?case
    using Cons.IH [of target w] Cons.IH [of t' w']
    by (cases "CanHandle a target"; cases res; cases "hasChanges v t'") (simp_all add: h bindM_def)
qed (simp add: bindM_def returnM_def)

section \<open>Phases\<close>

definition phaseGraph :: "(ReconcilerPhase \<times> ReconcilerPhase) set" where
  "phaseGraph =
     {(ReconcilerPhaseInitial, ReconcilerPhaseCreateCacheStore), (ReconcilerPhaseCreateCacheStore, ReconcilerPhaseS2IReady)} \<union>
     builderEdges \<union> serviceEdges \<union>
     {(ReconcilerPhaseServiceImageFinished, ReconcilerPhaseServiceCreated), (ReconcilerPhaseServiceCreated, ReconcilerPhaseKeystoreCreated)} \<union>
     deploymentEdges"

lemma action_mono:
  assumes "action C H E" and "E \<subseteq> E'"
  shows "action C H E'"
proof (rule action.intro)
  fix v
  assume "C v"
  from action.handle_phase [OF assms(1) this]
  show "post v H (\<lambda>r v'. vdb_Phase v' = vdb_Phase v \<or> (vdb_Phase v, vdb_Phase v') \<in> E')"
    by (rule post_mono) (use assms(2) in auto)
qed (use action.handle_keeps [OF assms(1)] action.handle_digest [OF assms(1)] action.can_phase [OF assms(1)] in blast)+

lemma buildSteps_actions: "list_all (\<lambda>a. action (CanHandle a) (Handle a) phaseGraph) (buildSteps r)"
proof -
  note actions = initialize.action_axioms cache_store.action_axioms s2i_builder.action_axioms service_image.action_axioms
    create_service.action_axioms create_certificate.action_axioms deployment.action_axioms prometheus_monitor.action_axioms
  note graph = actions [THEN action_mono, where E' = phaseGraph]
  show ?thesis
    unfolding buildSteps_def new_action list.pred_inject Step.simps by (intro conjI TrueI graph) (auto simp: phaseGraph_def)
qed

lemma unchanged: "\<not> hasChanges v v' \<Longrightarrow> keeps v v' \<Longrightarrow> v' = v"
  by (cases v; cases v') (auto simp: hasChanges_def keeps_def split: if_splits)

text \<open>What the decision of a reconciliation may be, for an object that is not updated.\<close>

definition goodStep :: "VirtualDatabase \<Rightarrow> VirtualDatabase \<Rightarrow> bool" where
  "goodStep v v' \<longleftrightarrow>
     (vdb_Phase v' = vdb_Phase v \<or> (vdb_Phase v, vdb_Phase v') \<in> phaseGraph) \<and> keeps v v' \<and> \<not> IsVdbUpdated v'"

lemma action_goodStep:
  assumes "action C H phaseGraph" and "C v" and "\<not> IsVdbUpdated v" and "H (v, w) = (res, v', w')"
  shows "goodStep v v'"
  using action.handle_step [OF assms(1,2,4)] action.handle_frame [OF assms(1,4)] action.handle_not_updated [OF assms(1,3,4)]
  by (simp add: goodStep_def)

lemma planSteps_step:
  assumes "list_all (\<lambda>a. action (CanHandle a) (Handle a) phaseGraph) as" and "\<not> IsVdbUpdated v"
    and "planSteps v as v w = (Ok (Some (v', err)), w')"
  shows "hasChanges v v' \<and> goodStep v v'"
  using assms(1,3)
proof (induction as arbitrary: w)
  case (Cons a as)
  obtain res t' w1 where h: "Handle a (v, w) = (res, t', w1)" by (metis prod_cases3)
  show ?case
  proof (cases "CanHandle a v")
    case True
    with Cons.prems(1) h assms(2) have good: "goodStep v t'"
      using action_goodStep [of "CanHandle a" "Handle a" v w] by simp
    then have same: "t' = v" if "\<not> hasChanges v t'" using that unchanged by (simp add: goodStep_def)
    show ?thesis
    proof (cases "hasChanges v t'")
      case True
      with Cons.prems(2) \<open>CanHandle a v\<close> have "v' = t'" by (cases res) (simp_all add: h)
      with good True show ?thesis by simp
    next
      case False
      with same Cons.prems(2) \<open>CanHandle a v\<close> have "planSteps v as v w1 = (Ok (Some (v', err)), w')"
        by (cases res) (simp_all add: h)
      with Cons show ?thesis by simp
    qed
  next
    case False
    with Cons show ?thesis by simp
  qed
qed (simp add: returnM_def)

section \<open>Runs\<close>

text \<open>
  One reconciliation may replace the stored object \<open>v\<close> by \<open>v'\<close> when there is a behaviour of the cluster
  under which this is its decision.
\<close>

inductive vdb_step :: "'w Reconciler \<Rightarrow> VirtualDatabase \<Rightarrow> VirtualDatabase \<Rightarrow> bool" for r where
  decided: "plan r v w = (Ok (Some (v', err)), w') \<Longrightarrow> vdb_step r v v'"

inductive_cases vdb_stepE: "vdb_step r v v'"

lemma vdb_step_good:
  assumes "vdb_step r v v'"
  shows "if IsVdbUpdated v then v' = RedeployVdb v else hasChanges v v' \<and> goodStep v v'"
  using assms
proof (rule vdb_stepE)
  fix w err w'
  assume p: "plan r v w = (Ok (Some (v', err)), w')"
  show ?thesis
  proof (cases "IsVdbUpdated v")
    case True
    with p show ?thesis by (simp add: plan_def returnM_def)
  next
    case False
    with p planSteps_step [OF buildSteps_actions False] show ?thesis by (simp add: plan_def)
  qed
qed

text \<open>Two successive phases between redeployments.\<close>

definition phase_le :: "ReconcilerPhase \<Rightarrow> ReconcilerPhase \<Rightarrow> bool" where
  "phase_le p q \<longleftrightarrow> q = p \<or> (p, q) \<in> phaseGraph"

text \<open>The phases of a deployment that goes well, and the way to a phase from the initial one.\<close>

definition pipeline :: "ReconcilerPhase list" where
  "pipeline =
     [ReconcilerPhaseInitial, ReconcilerPhaseCreateCacheStore, ReconcilerPhaseS2IReady, ReconcilerPhaseBuilderImage,
      ReconcilerPhaseBuilderImageFinished, ReconcilerPhaseServiceImage, ReconcilerPhaseServiceImageFinished,
      ReconcilerPhaseServiceCreated, ReconcilerPhaseKeystoreCreated, ReconcilerPhaseDeploying, ReconcilerPhaseRunning]"

definition upTo :: "ReconcilerPhase \<Rightarrow> ReconcilerPhase list" where
  "upTo p = takeWhile (\<lambda>q. q \<noteq> p) pipeline @ [p]"

definition history :: "ReconcilerPhase \<Rightarrow> ReconcilerPhase list" where
  "history p =
     (if p = ReconcilerPhaseBuilderImageFailed then upTo ReconcilerPhaseBuilderImage @ [p]
      else if p = ReconcilerPhaseServiceImageFailed then upTo ReconcilerPhaseServiceImage @ [p]
      else upTo p)"

text \<open>The phase of an error has two predecessors, every other phase at most one.\<close>

lemma phaseGraph_history:
  "(p, q) \<in> phaseGraph \<Longrightarrow> q \<noteq> ReconcilerPhaseError \<Longrightarrow> history q = history p @ [q] \<and> p \<noteq> ReconcilerPhaseError"
  by (auto simp: phaseGraph_def builderEdges_def serviceEdges_def deploymentEdges_def history_def upTo_def pipeline_def)

lemma history_Initial [simp]: "history ReconcilerPhaseInitial = [ReconcilerPhaseInitial]"
  by (simp add: history_def upTo_def pipeline_def)

lemma path_history:
  assumes "successively phase_le ps" and "ps \<noteq> []" and "hd ps = ReconcilerPhaseInitial" and "last ps \<noteq> ReconcilerPhaseError"
  shows "remdups_adj ps = history (last ps)"
  using assms
proof (induction ps rule: rev_induct)
  case (snoc q ps)
  show ?case
  proof (cases ps rule: rev_cases)
    case (snoc ps' p)
    with snoc.prems have step: "phase_le p q" and ps: "successively phase_le ps"
      by (auto simp: successively_append_iff)
    have "p \<noteq> ReconcilerPhaseError \<and> (p \<noteq> q \<longrightarrow> history q = history p @ [q])"
      using step snoc.prems(4) phaseGraph_history [of p q] by (auto simp: phase_le_def)
    moreover from this have "remdups_adj ps = history p"
      using snoc.IH [OF ps] snoc.prems(3) snoc by (simp add: hd_append split: if_splits)
    ultimately show ?thesis by (simp add: snoc remdups_adj_append_two)
  qed (use snoc.prems in simp)
qed simp

text \<open>A rank that every change of the phase raises.\<close>

definition rank :: "ReconcilerPhase \<Rightarrow> nat" where
  "rank p = min 10 (length (history p) - 1)"

lemma rank_step: "(p, q) \<in> phaseGraph \<Longrightarrow> rank p < rank q"
proof -
  have "\<forall>(p, q) \<in> phaseGraph. rank p < rank q" by code_simp
  then show "(p, q) \<in> phaseGraph \<Longrightarrow> rank p < rank q" by blast
qed

lemma successively_rank:
  "successively phase_le ps \<Longrightarrow> successively (\<lambda>p q. rank p < rank q) (remdups_adj ps)"
proof (induction ps rule: remdups_adj.induct)
  case (3 x y xs)
  then have "x = y \<or> rank x < rank y" using rank_step [of x y] by (auto simp: phase_le_def)
  with 3 show ?case by (cases "x = y") (auto simp: successively_Cons)
qed simp_all

lemma path_length:
  assumes "successively phase_le ps"
  shows "length (remdups_adj ps) \<le> 11"
proof -
  let ?qs = "map rank (remdups_adj ps)"
  have "successively (<) ?qs" using successively_rank [OF assms] by (simp add: successively_map)
  then have "sorted_wrt (<) ?qs" by (simp add: successively_conv_sorted_wrt)
  then have "distinct ?qs" by (simp add: strict_sorted_iff)
  moreover have "set ?qs \<subseteq> {..10}" by (auto simp: rank_def)
  ultimately show ?thesis using card_mono [of "{..10::nat}" "set ?qs"] by (simp only: distinct_card) simp
qed

section \<open>Stored objects\<close>

definition knownPhases :: "ReconcilerPhase set" where
  "knownPhases = set pipeline \<union> {ReconcilerPhaseBuilderImageFailed, ReconcilerPhaseServiceImageFailed, ReconcilerPhaseError}"

lemma phaseGraph_known: "(p, q) \<in> phaseGraph \<Longrightarrow> q \<in> knownPhases \<and> q \<noteq> ReconcilerPhaseInitial"
  by (auto simp: phaseGraph_def builderEdges_def serviceEdges_def deploymentEdges_def knownPhases_def pipeline_def)

definition statusInv :: "VirtualDatabase \<Rightarrow> bool" where
  "statusInv v \<longleftrightarrow>
     vdb_Phase v \<in> knownPhases \<and>
     (Digest (Status v) = [] \<longrightarrow> Status v = emptyStatus) \<and>
     (Digest (Status v) \<noteq> [] \<longrightarrow> (\<exists>s. Digest (Status v) = hashSum CHR ''v'' s))"

lemma hashSum_not_Nil [simp]: "hashSum c s \<noteq> []" "[] \<noteq> hashSum c s"
  by (simp_all add: hashSum_def)

lemma statusInv_cong: "statusInv v \<Longrightarrow> Status v' = Status v \<Longrightarrow> statusInv v'"
  by (simp add: statusInv_def)

lemma statusInv_step:
  assumes "statusInv v" and "vdb_step r v x"
  shows "statusInv x"
proof (cases "IsVdbUpdated v")
  case True
  with vdb_step_good [OF assms(2)] have "x = RedeployVdb v" by simp
  then show ?thesis by (auto simp: statusInv_def RedeployVdb_frame(3,4) knownPhases_def pipeline_def)
next
  case False
  with vdb_step_good [OF assms(2)] have "goodStep v x" by simp
  then have "vdb_Phase x \<in> knownPhases" and d: "Digest (Status x) = hashSum CHR ''v'' (digestInput x)"
    using assms(1) phaseGraph_known [of "vdb_Phase v" "vdb_Phase x"] by (auto simp: goodStep_def statusInv_def IsVdbUpdated_eq)
  then show ?thesis unfolding statusInv_def d by auto
qed

section \<open>Single reconciliations\<close>

lemmas can_handle = initialize_CanHandle_def cacheStore_CanHandle_def s2i_CanHandle_def service_CanHandle_def
  createService_CanHandle_def createCertificate_CanHandle_def deployment_CanHandle_def prometheus_CanHandle_def

lemma Reconcile_found:
  assumes "rGet (vdbs r) ns n w = (Inr v, w')"
  shows "Reconcile r ns n w = bindM (plan r v) (execute r) w'"
  using assms
  by (simp add: Reconcile_def plan_def tryM_def getM_def callM_def runSteps_plan)

lemma planSteps_skip: "list_all (\<lambda>a. \<not> CanHandle a v) as \<Longrightarrow> planSteps u (as @ bs) v = planSteps u bs v"
  by (induction as) simp_all

text \<open>The only action of a phase decides, when it changes the object.\<close>

lemma planSteps_decides:
  assumes "as = bs @ a # cs" and "list_all (\<lambda>a. \<not> CanHandle a v) bs" and "CanHandle a v"
    and "Handle a (v, w) = (res, v', w')" and "hasChanges v v'" and "res = Ok () \<and> err = None \<or> (\<exists>e. res = Fail e \<and> err = Some e)"
  shows "planSteps v as v w = (Ok (Some (v', err)), w')"
  using assms by (auto simp: planSteps_skip)

lemma execute_world: "execute r (Some (x, err)) u = (result, u') \<Longrightarrow> u' = snd (rUpdate (vdbs r) x u)"
  by (cases "rUpdate (vdbs r) x u"; cases "fst (rUpdate (vdbs r) x u)"; cases err)
    (auto simp: bindM_def updateM_def callM_def returnM_def failM_def)

end
