(* ===== verification/Footprint.thy ===== *)
theory Footprint
  imports Controller
begin

text \<open>
  Where a reconciliation may write. \<open>within\<close> is a calculus in which a call moves the world only by steps of a
  relation \<open>R\<close>. \<open>permits R F r\<close> says so of every call that leaves the operator, but of writes only for the
  objects whose kind, namespace and name are in the scope \<open>F\<close>; the clients of virtual databases are left out.
  The result, \<open>plan_footprint\<close>, is that everything the actions do for a virtual database stays within \<open>R\<close>
  when \<open>F\<close> covers the objects that carry its name, \<open>own\<close>: in its namespace, the secrets, services, routes,
  builds, images, monitors and the deployment named after it and the builder image, and one console link.
\<close>

section \<open>The calculus\<close>

named_theorems rw \<open>rules of the relation \<open>within\<close>\<close>

text \<open>
  \<open>P\<close> is an invariant of the state and \<open>\<pi>\<close> takes the world out of it: for a call the state is the world; a
  handler keeps the key of its virtual database, the first component, and its world is the second.
\<close>

definition within :: "('s \<Rightarrow> bool) \<Rightarrow> ('s \<Rightarrow> 'w) \<Rightarrow> ('w \<Rightarrow> 'w \<Rightarrow> bool) \<Rightarrow> ('s \<Rightarrow> 'x \<times> 's) \<Rightarrow> bool" where
  "within P \<pi> R m \<longleftrightarrow> (\<forall>s. P s \<longrightarrow> P (snd (m s)) \<and> R\<^sup>*\<^sup>* (\<pi> s) (\<pi> (snd (m s))))"

definition keyOf :: "VirtualDatabase \<Rightarrow> string \<times> string" where
  "keyOf v = (vdb_Namespace v, vdb_Name v)"

definition keyed :: "string \<Rightarrow> string \<Rightarrow> VirtualDatabase \<times> 'w \<Rightarrow> bool" where
  "keyed ns n s \<longleftrightarrow> keyOf (fst s) = (ns, n)"

abbreviation calls :: "('w \<Rightarrow> 'w \<Rightarrow> bool) \<Rightarrow> ('w \<Rightarrow> 'x \<times> 'w) \<Rightarrow> bool" where
  "calls \<equiv> within (\<lambda>_. True) (\<lambda>w. w)"

abbreviation handles :: "string \<Rightarrow> string \<Rightarrow> ('w \<Rightarrow> 'w \<Rightarrow> bool) \<Rightarrow> (VirtualDatabase \<times> 'w, 'x) M \<Rightarrow> bool" where
  "handles ns n \<equiv> within (keyed ns n) snd"

lemma withinI: "(\<And>s x s'. P s \<Longrightarrow> m s = (x, s') \<Longrightarrow> P s' \<and> R\<^sup>*\<^sup>* (\<pi> s) (\<pi> s')) \<Longrightarrow> within P \<pi> R m"
  unfolding within_def by (metis prod.collapse)

lemma withinD: "within P \<pi> R m \<Longrightarrow> P s \<Longrightarrow> m s = (x, s') \<Longrightarrow> P s' \<and> R\<^sup>*\<^sup>* (\<pi> s) (\<pi> s')"
  unfolding within_def by (metis snd_conv)

lemma callsD: "calls R m \<Longrightarrow> m w = (x, w') \<Longrightarrow> R\<^sup>*\<^sup>* w w'"
  using withinD [where P = "\<lambda>_. True" and \<pi> = "\<lambda>w. w"] by fastforce

lemma handlesD: "handles ns n R h \<Longrightarrow> keyOf v = (ns, n) \<Longrightarrow> h (v, w) = (x, v', w') \<Longrightarrow> keyOf v' = (ns, n) \<and> R\<^sup>*\<^sup>* w w'"
  using withinD [of "keyed ns n" snd R h "(v, w)"] by (simp add: keyed_def)

lemma calls_mono:
  assumes "R \<le> R'" and "calls R m"
  shows "calls R' m"
proof (rule withinI)
  fix w x w'
  assume "m w = (x, w')"
  from callsD [OF assms(2) this] show "True \<and> R'\<^sup>*\<^sup>* w w'"
    using predicate2D [OF rtranclp_mono [OF assms(1)]] by simp
qed

lemma within_returnM [rw]: "within P \<pi> R (returnM x)"
  by (simp add: within_def returnM_def)

lemma within_failM [rw]: "within P \<pi> R (failM e)"
  by (simp add: within_def failM_def)

lemma within_panicM [rw]: "within P \<pi> R (panicM p)"
  by (simp add: within_def panicM_def)

lemma within_resM [rw]: "within P \<pi> R (resM x)"
  by (simp add: within_def resM_def)

lemma within_callM [rw]: "within P \<pi> R c \<Longrightarrow> within P \<pi> R (callM c)"
  by (simp add: within_def callM_def Let_def case_prod_unfold)

lemma within_seq:
  assumes "within P \<pi> R m" and "P s" and "m s = (x, s1)" and "within P \<pi> R k" and "k s1 = (y, s')"
  shows "P s' \<and> R\<^sup>*\<^sup>* (\<pi> s) (\<pi> s')"
proof -
  have 1: "P s1" "R\<^sup>*\<^sup>* (\<pi> s) (\<pi> s1)" using withinD [OF assms(1-3)] by blast+
  with withinD [OF assms(4) 1(1) assms(5)] show ?thesis using rtranclp_trans [OF 1(2)] by blast
qed

text \<open>In a sequence, the second part may use that the first one returned.\<close>

lemma within_bindM [rw]:
  assumes "within P \<pi> R m" and "\<And>x s s'. m s = (Ok x, s') \<Longrightarrow> within P \<pi> R (f x)"
  shows "within P \<pi> R (bindM m f)"
proof (rule withinI)
  fix s y s'
  assume s: "P s" and b: "bindM m f s = (y, s')"
  obtain x s1 where m: "m s = (x, s1)" by fastforce
  show "P s' \<and> R\<^sup>*\<^sup>* (\<pi> s) (\<pi> s')"
  proof (cases x)
    case (Ok x')
    with b m have "f x' s1 = (y, s')" by (simp add: bindM_def)
    then show ?thesis by (rule within_seq [OF assms(1) s m assms(2) [OF m [unfolded Ok]]])
  qed (use b m withinD [OF assms(1) s m] in \<open>simp_all add: bindM_def\<close>)
qed

lemma within_tryM_result:
  assumes "within P \<pi> R m" and "\<And>e. within P \<pi> R (f (Inl e))" and "\<And>x s s'. m s = (Ok x, s') \<Longrightarrow> within P \<pi> R (f (Inr x))"
  shows "within P \<pi> R (tryM m f)"
proof (rule withinI)
  fix s y s'
  assume s: "P s" and b: "tryM m f s = (y, s')"
  obtain x s1 where m: "m s = (x, s1)" by fastforce
  show "P s' \<and> R\<^sup>*\<^sup>* (\<pi> s) (\<pi> s')"
  proof (cases x)
    case (Ok x')
    with b m have "f (Inr x') s1 = (y, s')" by (simp add: tryM_def)
    then show ?thesis by (rule within_seq [OF assms(1) s m assms(3) [OF m [unfolded Ok]]])
  next
    case (Fail e)
    with b m have "f (Inl e) s1 = (y, s')" by (simp add: tryM_def)
    then show ?thesis by (rule within_seq [OF assms(1) s m assms(2)])
  qed (use b m withinD [OF assms(1) s m] in \<open>simp_all add: tryM_def\<close>)
qed

lemma within_tryM [rw]: "within P \<pi> R m \<Longrightarrow> (\<And>x. within P \<pi> R (f x)) \<Longrightarrow> within P \<pi> R (tryM m f)"
  by (rule within_tryM_result)

lemma within_if [rw]: "(b \<Longrightarrow> within P \<pi> R m) \<Longrightarrow> (\<not> b \<Longrightarrow> within P \<pi> R n) \<Longrightarrow> within P \<pi> R (if b then m else n)"
  by simp

lemma within_option [rw]:
  "within P \<pi> R m \<Longrightarrow> (\<And>y. x = Some y \<Longrightarrow> within P \<pi> R (n y)) \<Longrightarrow> within P \<pi> R (case x of None \<Rightarrow> m | Some y \<Rightarrow> n y)"
  by (cases x) simp_all

lemma within_sum [rw]:
  "(\<And>e. x = Inl e \<Longrightarrow> within P \<pi> R (m e)) \<Longrightarrow> (\<And>y. x = Inr y \<Longrightarrow> within P \<pi> R (n y)) \<Longrightarrow>
     within P \<pi> R (case x of Inl e \<Rightarrow> m e | Inr y \<Rightarrow> n y)"
  by (cases x) simp_all

lemma within_prod [rw]: "(\<And>a b. x = (a, b) \<Longrightarrow> within P \<pi> R (m a b)) \<Longrightarrow> within P \<pi> R (case x of (a, b) \<Rightarrow> m a b)"
  by (cases x) simp_all

lemma within_list [rw]:
  "within P \<pi> R m \<Longrightarrow> (\<And>y ys. within P \<pi> R (n y ys)) \<Longrightarrow> within P \<pi> R (case xs of [] \<Rightarrow> m | y # ys \<Rightarrow> n y ys)"
  by (cases xs) simp_all

lemma within_Let [rw]: "(\<And>x. x = y \<Longrightarrow> within P \<pi> R (m x)) \<Longrightarrow> within P \<pi> R (Let y m)"
  by simp

lemma within_liftW [rw]: "calls R m \<Longrightarrow> handles ns n R (liftW m)"
  by (simp add: within_def liftW_def keyed_def Let_def case_prod_unfold)

text \<open>A handler that looks at its object knows its key.\<close>

lemma within_getV [rw]:
  "(\<And>v. vdb_Namespace v = ns \<Longrightarrow> vdb_Name v = n \<Longrightarrow> handles ns n R (f v)) \<Longrightarrow> handles ns n R (bindM getV f)"
  unfolding within_def by (auto simp: bindM_def getV_def keyed_def keyOf_def)

lemma within_modV [rw]: "(\<And>v. vdb_Meta (g v) = vdb_Meta v) \<Longrightarrow> handles ns n R (modV g)"
  by (simp add: within_def modV_def keyed_def keyOf_def)

section \<open>Scopes\<close>

text \<open>The kinds of objects the actions write. The service of a virtual database, its external service and its
  route, and its own build and the builder image, are told apart.\<close>

datatype kind =
    OwnSecret | OwnInfinispan | OwnService | ExternalService | OwnDeployment | OwnBuild | BuilderBuild
  | OwnImage | OwnMonitor | OwnLink

text \<open>A scope gives the namespaces and the names in which objects of a kind may be written.\<close>

type_synonym scope = "kind \<Rightarrow> string set \<times> string set"

definition allowed :: "scope \<Rightarrow> kind \<Rightarrow> ObjectMeta \<Rightarrow> bool" where
  "allowed F k m \<longleftrightarrow> Namespace m \<in> fst (F k) \<and> Name m \<in> snd (F k)"

definition anywhere :: scope where
  "anywhere k = (UNIV, UNIV)"

definition nowhere :: scope where
  "nowhere k = ({}, {})"

text \<open>An image stream is looked up and created under the part of its name before a colon.\<close>

definition own :: "Configuration \<Rightarrow> string \<Rightarrow> string \<Rightarrow> scope" where
  "own c ns n k =
     (case k of
        OwnSecret \<Rightarrow> ({ns}, {n @ ''-keystore'', n @ ''-cache-store'', n @ ''-cache-store-identity''})
      | OwnInfinispan \<Rightarrow> ({ns}, {n @ ''-cache-store''})
      | ExternalService \<Rightarrow> ({ns}, {n @ ''-external''})
      | BuilderBuild \<Rightarrow> ({ns}, {BuilderImageTargetName})
      | OwnImage \<Rightarrow> ({ns}, {hd (Split n CHR '':''), BuilderImageTargetName, ImageName (conf_BuildImage c)})
      | OwnLink \<Rightarrow> ({[]}, {n @ ''-'' @ ns})
      | _ \<Rightarrow> ({ns}, {n}))"

definition covers :: "scope \<Rightarrow> scope \<Rightarrow> bool" where
  "covers F G \<longleftrightarrow> (\<forall>k. fst (G k) \<subseteq> fst (F k) \<and> snd (G k) \<subseteq> snd (F k))"

lemma covers_refl [simp]: "covers F F"
  by (simp add: covers_def)

lemma anywhere_covers [simp]: "covers anywhere F" "allowed anywhere k m"
  by (simp_all add: covers_def allowed_def anywhere_def)

lemma covers_allowed: "covers F G \<Longrightarrow> allowed G k m \<Longrightarrow> allowed F k m"
  by (auto simp: covers_def allowed_def)

text \<open>\<open>ok\<close> is the part of the scope for one client. An API server answers with the object that was asked for,
  or stored.\<close>

definition reads_within :: "('w \<Rightarrow> 'w \<Rightarrow> bool) \<Rightarrow> ('w, 'o) resource_client \<Rightarrow> bool" where
  "reads_within R c \<longleftrightarrow> (\<forall>ns n. calls R (rGet c ns n)) \<and> (\<forall>ns sel. calls R (rList c ns sel))"

definition client_within :: "('w \<Rightarrow> 'w \<Rightarrow> bool) \<Rightarrow> ('o \<Rightarrow> ObjectMeta) \<Rightarrow> (ObjectMeta \<Rightarrow> bool) \<Rightarrow> ('w, 'o) resource_client \<Rightarrow> bool" where
  "client_within R meta ok c \<longleftrightarrow>
     reads_within R c \<and>
     (\<forall>x. ok (meta x) \<longrightarrow> calls R (rCreate c x) \<and> calls R (rUpdate c x) \<and> calls R (rDelete c x)) \<and>
     (\<forall>ns n w x w'. rGet c ns n w = (Inr x, w') \<longrightarrow> ok (objectMeta n ns) \<longrightarrow> ok (meta x)) \<and>
     (\<forall>x w y w'. rCreate c x w = (Inr y, w') \<or> rUpdate c x w = (Inr y, w') \<longrightarrow> ok (meta x) \<longrightarrow> ok (meta y))"

definition host_within :: "('w \<Rightarrow> 'w \<Rightarrow> bool) \<Rightarrow> 'w Reconciler \<Rightarrow> bool" where
  "host_within R r \<longleftrightarrow>
     (\<forall>ks. calls R (rangeKeys r ks)) \<and> (\<forall>n. calls R (randIntn r n)) \<and> (\<forall>s. calls R (randShuffle r s)) \<and>
     (\<forall>p. calls R (fileCreate r p)) \<and> (\<forall>p s. calls R (fileWrite r p s)) \<and> (\<forall>p. calls R (ReadFile r p)) \<and>
     (\<forall>p. calls R (MkdirAll r p)) \<and> (\<forall>p. calls R (zipOpenReader r p)) \<and> (\<forall>e. calls R (zipEntryOpen r e)) \<and>
     (\<forall>u. calls R (httpGet r u)) \<and> (\<forall>k c p. calls R (pkcs12Encode r k c p)) \<and>
     (\<forall>m p. calls R (pkcs12EncodeTrustStore r m p)) \<and> calls R (ServerGroups r) \<and> (\<forall>n. calls R (crdExists r n))"

definition permits :: "('w \<Rightarrow> 'w \<Rightarrow> bool) \<Rightarrow> scope \<Rightarrow> 'w Reconciler \<Rightarrow> bool" where
  "permits R F r \<longleftrightarrow>
     host_within R r \<and> reads_within R (configMaps r) \<and> reads_within R (builds r) \<and> reads_within R (imageStreamTags r) \<and>
     reads_within R (prometheuses r) \<and> reads_within R (jaegers r) \<and>
     client_within R sec_Meta (allowed F OwnSecret) (secrets r) \<and>
     client_within R ispn_Meta (allowed F OwnInfinispan) (infinispans r) \<and>
     client_within R svc_Meta (allowed F OwnService) (services r) \<and>
     client_within R svc_Meta (allowed F ExternalService) (services r) \<and>
     client_within R route_Meta (allowed F OwnService) (routes r) \<and>
     client_within R dc_Meta (allowed F OwnDeployment) (deployments r) \<and>
     client_within R bc_Meta (allowed F OwnBuild) (buildConfigs r) \<and>
     client_within R bc_Meta (allowed F BuilderBuild) (buildConfigs r) \<and>
     client_within R is_Meta (allowed F OwnImage) (imageStreams r) \<and>
     client_within R sm_Meta (allowed F OwnMonitor) (serviceMonitors r) \<and>
     client_within R link_Meta (allowed F OwnLink) (consoleLinks r) \<and>
     (\<forall>k ns n t. k = OwnBuild \<or> k = BuilderBuild \<longrightarrow> ns \<in> fst (F k) \<longrightarrow> n \<in> snd (F k) \<longrightarrow>
        calls R (instantiateBinary r ns n t) \<and> calls R (instantiate r ns n t)) \<and>
     (\<forall>k owner m m'. setControllerReference r owner m = Inr m' \<longrightarrow> allowed F k m \<longrightarrow> allowed F k m')"

text \<open>A scope that is respected by steps of a relation is respected by those of a larger one.\<close>

lemma reads_within_mono: "R \<le> R' \<Longrightarrow> reads_within R c \<Longrightarrow> reads_within R' c"
  by (simp add: reads_within_def calls_mono [of R R'])

lemma client_within_mono: "R \<le> R' \<Longrightarrow> client_within R meta ok c \<Longrightarrow> client_within R' meta ok c"
  unfolding client_within_def by (elim conjE, intro conjI) (simp_all add: reads_within_mono [of R R'] calls_mono [of R R'])

lemma host_within_mono: "R \<le> R' \<Longrightarrow> host_within R r \<Longrightarrow> host_within R' r"
  unfolding host_within_def by (elim conjE, intro conjI) (simp_all add: calls_mono [of R R'])

lemma permits_mono:
  assumes "R \<le> R'" and "permits R F r"
  shows "permits R' F r"
  using assms(2) unfolding permits_def
  by (elim conjE, intro conjI)
    (simp_all add: host_within_mono [OF assms(1)] reads_within_mono [OF assms(1)] client_within_mono [OF assms(1)] calls_mono [OF assms(1)])

lemma permits_reads [rw]:
  assumes "permits R F r"
  shows "reads_within R (secrets r)" "reads_within R (configMaps r)" "reads_within R (services r)" "reads_within R (routes r)"
    "reads_within R (deployments r)" "reads_within R (buildConfigs r)" "reads_within R (builds r)" "reads_within R (imageStreams r)"
    "reads_within R (imageStreamTags r)" "reads_within R (serviceMonitors r)" "reads_within R (prometheuses r)"
    "reads_within R (infinispans r)" "reads_within R (consoleLinks r)" "reads_within R (jaegers r)"
  using assms by (simp_all add: permits_def client_within_def)

lemma permits_host [rw]:
  assumes "permits R F r"
  shows "calls R (rangeKeys r ks)" "calls R (randIntn r n)" "calls R (randShuffle r s)" "calls R (fileCreate r p)"
    "calls R (fileWrite r p s)" "calls R (ReadFile r p)" "calls R (MkdirAll r p)" "calls R (zipOpenReader r p)"
    "calls R (zipEntryOpen r e)" "calls R (httpGet r u)" "calls R (pkcs12Encode r k c p)"
    "calls R (pkcs12EncodeTrustStore r m p)" "calls R (ServerGroups r)" "calls R (crdExists r g)"
  using assms by (simp_all add: permits_def host_within_def)

lemma permits_clients:
  assumes "permits R F r"
  shows "client_within R sec_Meta (allowed F OwnSecret) (secrets r)"
    "client_within R ispn_Meta (allowed F OwnInfinispan) (infinispans r)"
    "client_within R svc_Meta (allowed F OwnService) (services r)"
    "client_within R svc_Meta (allowed F ExternalService) (services r)"
    "client_within R route_Meta (allowed F OwnService) (routes r)"
    "client_within R dc_Meta (allowed F OwnDeployment) (deployments r)"
    "client_within R bc_Meta (allowed F OwnBuild) (buildConfigs r)"
    "client_within R bc_Meta (allowed F BuilderBuild) (buildConfigs r)"
    "client_within R is_Meta (allowed F OwnImage) (imageStreams r)"
    "client_within R sm_Meta (allowed F OwnMonitor) (serviceMonitors r)"
    "client_within R link_Meta (allowed F OwnLink) (consoleLinks r)"
  using assms by (simp_all add: permits_def)

lemma permits_owner: "permits R F r \<Longrightarrow> setControllerReference r owner m = Inr m' \<Longrightarrow> allowed F k m \<Longrightarrow> allowed F k m'"
  unfolding permits_def by blast

lemma read_calls [rw]:
  "reads_within R c \<Longrightarrow> calls R (getM c ns n)" "reads_within R c \<Longrightarrow> calls R (listM c ns sel)"
  by (simp_all add: reads_within_def getM_def listM_def rw)

lemma write_calls:
  "client_within R meta ok c \<Longrightarrow> ok (meta x) \<Longrightarrow> calls R (createM c x)"
  "client_within R meta ok c \<Longrightarrow> ok (meta x) \<Longrightarrow> calls R (updateM c x)"
  "client_within R meta ok c \<Longrightarrow> ok (meta x) \<Longrightarrow> calls R (deleteM c x)"
  by (simp_all add: client_within_def createM_def updateM_def deleteM_def rw)

lemma callM_Ok: "callM c w = (Ok x, w') \<longleftrightarrow> c w = (Inr x, w')"
  by (auto simp: callM_def split: prod.split sum.split)

lemma answers:
  "client_within R meta ok c \<Longrightarrow> getM c ns n w = (Ok x, w') \<Longrightarrow> ok (objectMeta n ns) \<Longrightarrow> ok (meta x)"
  "client_within R meta ok c \<Longrightarrow> createM c y w = (Ok x, w') \<Longrightarrow> ok (meta y) \<Longrightarrow> ok (meta x)"
  "client_within R meta ok c \<Longrightarrow> updateM c y w = (Ok x, w') \<Longrightarrow> ok (meta y) \<Longrightarrow> ok (meta x)"
  unfolding client_within_def getM_def createM_def updateM_def callM_Ok by blast+

text \<open>The kinds of a virtual database in a scope that covers it.\<close>

lemma covered:
  assumes "covers F (own c ns n)"
  shows "Namespace m = ns \<Longrightarrow> Name m = n @ ''-keystore'' \<Longrightarrow> allowed F OwnSecret m"
    "Namespace m = ns \<Longrightarrow> Name m = n @ ''-cache-store'' \<Longrightarrow> allowed F OwnSecret m"
    "Namespace m = ns \<Longrightarrow> Name m = n @ ''-cache-store-identity'' \<Longrightarrow> allowed F OwnSecret m"
    "Namespace m = ns \<Longrightarrow> Name m = n @ ''-cache-store'' \<Longrightarrow> allowed F OwnInfinispan m"
    "Namespace m = ns \<Longrightarrow> Name m = n \<Longrightarrow> allowed F OwnService m"
    "Namespace m = ns \<Longrightarrow> Name m = n @ ''-external'' \<Longrightarrow> allowed F ExternalService m"
    "Namespace m = ns \<Longrightarrow> Name m = n \<Longrightarrow> allowed F OwnDeployment m"
    "Namespace m = ns \<Longrightarrow> Name m = n \<Longrightarrow> allowed F OwnBuild m"
    "Namespace m = ns \<Longrightarrow> Name m = BuilderImageTargetName \<Longrightarrow> allowed F BuilderBuild m"
    "Namespace m = ns \<Longrightarrow> Name m \<in> {hd (Split n CHR '':''), BuilderImageTargetName, ImageName (conf_BuildImage c)} \<Longrightarrow> allowed F OwnImage m"
    "Namespace m = ns \<Longrightarrow> Name m = n \<Longrightarrow> allowed F OwnMonitor m"
    "Namespace m = [] \<Longrightarrow> Name m = n @ ''-'' @ ns \<Longrightarrow> allowed F OwnLink m"
  by (rule covers_allowed [OF assms]; auto simp: allowed_def own_def)+

section \<open>The shared operations\<close>

lemma host_calls [rw]:
  assumes "permits R F r"
  shows "calls R (rangeM r m)" "calls R (randChar r s)"
  using permits_host(1) [OF assms, of "map fst m"] permits_host(2) [OF assms, of "length s"]
  by (simp_all add: within_def rangeM_def randChar_def case_prod_unfold)

lemma kubernetes_calls [rw]:
  assumes "permits R F r"
  shows "calls R (GetConfigMap r n ns)" "calls R (HasConfigMap r n ns)" "calls R (GetSecret r n ns)"
    "calls R (HasSecret r n ns)" "calls R (GetService r n ns)" "calls R (GetSecretRefValue r ns k)"
    "calls R (GetConfigMapRefValue r ns k)" "calls R (ResolveValueSource r ns vs)"
    "calls R (RevisionOfConfigMapOrSecret r ns e)" "calls R (HasServerGroup r g)"
  unfolding GetConfigMap_def HasConfigMap_def GetSecret_def HasSecret_def GetService_def GetSecretRefValue_def
    GetConfigMapRefValue_def ResolveValueSource_def RevisionOfConfigMapOrSecret_def HasServerGroup_def
  by (rule rw assms)+

lemma wrapper_calls [rw]:
  assumes "reads_within R c"
  shows "calls R (Fetch c meta x)"
  unfolding Fetch_def FetchWithKey_def by (rule rw assms)+

lemma EnvironmentPropertiesExists_calls [rw]: "permits R F r \<Longrightarrow> calls R (EnvironmentPropertiesExists r ns es)"
  by (induction es) (auto intro!: rw)

lemma writeRevisions_calls [rw]: "permits R F r \<Longrightarrow> calls R (writeRevisions r ns es acc)"
  by (induction es arbitrary: acc) (auto intro!: rw)

lemma writeSources_calls [rw]: "permits R F r \<Longrightarrow> calls R (writeSources r ns ds acc)"
  by (induction ds arbitrary: acc) (auto intro!: rw)

lemma randChars_calls [rw]: "permits R F r \<Longrightarrow> calls R (randChars r n)"
  by (induction n) (auto intro!: rw)

lemma unzipFiles_calls [rw]: "permits R F r \<Longrightarrow> calls R (unzipFiles r dest fs done_so_far)"
  by (induction fs arbitrary: done_so_far) (auto intro!: rw)

lemma RandomPassword_calls [rw]:
  assumes "permits R F r"
  shows "calls R (RandomPassword r)"
proof -
  have s: "calls R (\<lambda>w. case randShuffle r s w of (buf, w') \<Rightarrow> (Ok buf, w'))" for s
    using permits_host(3) [OF assms, of s] by (simp add: within_def case_prod_unfold)
  show ?thesis unfolding RandomPassword_def by (rule s rw assms)+
qed

lemma downloadFile_calls [rw]:
  assumes "permits R F r"
  shows "calls R (downloadFile r p u)"
  unfolding downloadFile_def
  by (rule rw assms)+

lemma snapshotLoop_calls [rw]: "permits R F r \<Longrightarrow> calls R (snapshotLoop r a repos)"
  by (induction repos) (auto intro!: rw)

lemma downloadLoop_calls [rw]: "permits R F r \<Longrightarrow> calls R (downloadLoop r p a repos)"
  by (induction repos) (auto intro!: rw)

lemma computations_calls [rw]:
  assumes "permits R F r"
  shows "calls R (ComputeConfigDigest r v)" "calls R (Unzip r src dest)"
    "calls R (getSnapshotVersion r d repos)" "calls R (DownloadDependency r d p repos)"
    "calls R (readDdlFromMavenRepo r v t)" "calls R (FetchDdl r v t)" "calls R (Tar r fs)"
    "calls R (javaProperties r ps)" "calls R (getDefaultEnvs r es)"
    "calls R (GenerateVdbPom r v ds b1 b2 b3)" "calls R (GenerateJarPom r v)" "calls R (EncodeXML enc y)"
    "calls R (readMavenSettingsFile r v rs)" "calls R (PrometheusConfig r ns)"
    "calls R (CheckImageStream r n ns)" "calls R (ConsoleLinkExists r)"
  unfolding ComputeConfigDigest_def Unzip_def getSnapshotVersion_def DownloadDependency_def readDdlFromMavenRepo_def
    FetchDdl_def Tar_def javaProperties_def getDefaultEnvs_def GenerateVdbPom_def GenerateJarPom_def EncodeXML_def
    readMavenSettingsFile_def PrometheusConfig_def CheckImageStream_def ConsoleLinkExists_def
  by (rule rw assms)+

text \<open>The writes that several actions share.\<close>

lemma bindM_unit [simp]: "bindM (returnM x) f = f x" "bindM (failM e) f = failM e"
  by (simp_all add: bindM_def returnM_def failM_def fun_eq_iff)

lemma owned_calls:
  assumes "permits R F r" and "allowed F k m" and "\<And>m'. allowed F k m' \<Longrightarrow> calls R (f (g m'))"
  shows "calls R (bindM (case setControllerReference r owner m of Inl e \<Rightarrow> failM e | Inr m' \<Rightarrow> returnM (g m')) f)"
  using assms permits_owner [OF assms(1) _ assms(2)] by (cases "setControllerReference r owner m") (simp_all add: rw)

lemma CreateSecret_calls:
  assumes "permits R F r" and "allowed F OwnSecret (objectMeta n ns)"
  shows "calls R (CreateSecret r n ns owner data)"
proof -
  have "calls R (bindM (createM (secrets r) s) (\<lambda>_. returnM ()))" if "allowed F OwnSecret (sec_Meta s)" for s
    by (rule rw write_calls permits_clients(1) assms(1) that)+
  with assms show ?thesis
    by (cases owner) (auto simp: CreateSecret_def Let_def intro!: owned_calls [where k = OwnSecret])
qed

lemma image_calls:
  assumes "permits R F r"
  shows "allowed F OwnImage (objectMeta n ns) \<Longrightarrow> calls R (CreateImageStream r n ns i t)"
    "allowed F OwnImage (objectMeta (hd (Split n CHR '':'')) ns) \<Longrightarrow> calls R (createLocalImageStream r n ns b owner)"
    "allowed F OwnImage (objectMeta (hd (Split n CHR '':'')) ns) \<Longrightarrow> calls R (EnsureImageStream r n ns b owner)"
proof -
  have c: "calls R (tryM (createM (imageStreams r) s) (\<lambda>_. returnM ()))" if "allowed F OwnImage (is_Meta s)" for s
    by (rule rw write_calls permits_clients(9) assms that)+
  show 1: "allowed F OwnImage (objectMeta n ns) \<Longrightarrow> calls R (CreateImageStream r n ns i t)" for n
    unfolding CreateImageStream_def Let_def by (rule c) (simp add: imageStream_def)
  show 2: "allowed F OwnImage (objectMeta (hd (Split n CHR '':'')) ns) \<Longrightarrow> calls R (createLocalImageStream r n ns b owner)"
    using owned_calls [OF assms, of OwnImage _ "\<lambda>s. tryM (createM (imageStreams r) s) (\<lambda>_. returnM ())"] c
    by (auto simp: createLocalImageStream_def Let_def imageStream_def hd_append)
  show "allowed F OwnImage (objectMeta (hd (Split n CHR '':'')) ns) \<Longrightarrow> calls R (EnsureImageStream r n ns b owner)"
    unfolding EnsureImageStream_def by (rule rw assms 2 | assumption)+
qed

lemma console_calls:
  assumes "permits R F r" and "allowed F OwnLink (objectMeta n [])"
  shows "calls R (checkConsoleLink r x n v)" "calls R (doDeleteConsoleLink r n)"
proof -
  note writes = write_calls [where c = "consoleLinks r", OF permits_clients(11) [OF assms(1)]]
  have link: "allowed F OwnLink (link_Meta l)" if "getM (consoleLinks r) [] n s = (Ok l, s')" for l s s'
    using answers(1) [OF permits_clients(11) [OF assms(1)] that assms(2)] .
  have update: "calls R (reconcileConsoleLink r x l)" if "allowed F OwnLink (link_Meta l)" for l
    unfolding reconcileConsoleLink_def Let_def by (rule rw writes | simp add: that)+
  have create: "allowed F OwnLink (link_Meta (createNamespaceDashboardLink n x v))"
    using assms(2) by (simp add: createNamespaceDashboardLink_def allowed_def objectMeta_def)
  show "calls R (checkConsoleLink r x n v)"
    unfolding checkConsoleLink_def
    by (rule within_tryM_result) (simp_all only: sum.case, (rule rw assms writes create update link | assumption)+)
  show "calls R (doDeleteConsoleLink r n)"
    unfolding doDeleteConsoleLink_def
    by (rule within_tryM_result) (simp_all only: sum.case, (rule rw assms writes link | assumption)+)
qed

lemma consoleLinks_calls:
  assumes "permits R F r" and "covers F (own c ns n)" and "Namespace m = ns" and "Name m = n"
  shows "vdb_Meta v = m \<Longrightarrow> calls R (CreateConsoleLink r x v)" "calls R (RemoveConsoleLink r m)"
proof -
  have "allowed F OwnLink (objectMeta (consoleLinkName m) [])"
    using assms(3,4) by (intro covered(12) [OF assms(2)]) (simp_all add: consoleLinkName_def objectMeta_def)
  with console_calls [OF assms(1)] show "vdb_Meta v = m \<Longrightarrow> calls R (CreateConsoleLink r x v)" "calls R (RemoveConsoleLink r m)"
    by (auto simp: CreateConsoleLink_def doCreateConsoleLink_def RemoveConsoleLink_def)
qed

section \<open>The actions\<close>

lemma sourcesExist_calls [rw]: "permits R F r \<Longrightarrow> calls R (sourcesExist r ns ds)"
  by (induction ds) (auto intro!: rw)

lemma initialize_init_meta [simp]: "vdb_Meta (initialize_init v) = vdb_Meta v"
  by (simp add: initialize_init_def Let_def split: sum.split)

lemma initialize_handles:
  assumes "permits R F r"
  shows "handles ns n R (initialize_Handle r)"
  unfolding initialize_Handle_def by (rule within_getV rw assms | simp)+

lemma cacheStore_calls [rw]:
  assumes "permits R F r"
  shows "calls R (configurationExists r n ns)" "calls R (Credentials r n ns)" "calls R (CredentialsAsEnv r n ns)"
    "calls R (IsInfinispanCRDAvailable r)" "calls R (IsInfinispanOperatorAvailable r ns)" "calls R (IgnoreCacheStore r v)"
  unfolding configurationExists_def Credentials_def CredentialsAsEnv_def IsInfinispanCRDAvailable_def
    IsInfinispanOperatorAvailable_def IgnoreCacheStore_def
  by (rule rw assms)+

lemma createCacheStore_calls:
  assumes "permits R F r" and "allowed F OwnSecret (objectMeta (ispn_Name d) (NameSpace d))"
    and "allowed F OwnSecret (objectMeta (ispn_Name d @ ''-identity'') (NameSpace d))"
    and "allowed F OwnInfinispan (objectMeta (ispn_Name d) (NameSpace d))"
  shows "calls R (createNewCacheStore r d m)" "calls R (createCacheStoreSecret r d m)"
proof -
  have "calls R (bindM (createM (infinispans r)
      (case setControllerReference r m (ispn_Meta i) of Inl e \<Rightarrow> i | Inr m' \<Rightarrow> i\<lparr>ispn_Meta := m'\<rparr>)) (\<lambda>_. returnM ()))"
    if "allowed F OwnInfinispan (ispn_Meta i)" for i
    using that permits_owner [OF assms(1) _ that, of m]
    by (intro within_bindM write_calls(1) [OF permits_clients(2) [OF assms(1)]] within_returnM) (simp split: sum.split)
  note create = this [of "NewInfinispanResource (NameSpace d) (ispn_Name d) (ispn_Name d @ ''-identity'') 3"]
  show "calls R (createNewCacheStore r d m)"
    unfolding createNewCacheStore_def Let_def
    by (rule rw assms(1) CreateSecret_calls create assms(3) | simp add: NewInfinispanResource_def assms(4))+
  show "calls R (createCacheStoreSecret r d m)"
    unfolding createCacheStoreSecret_def Let_def by (rule CreateSecret_calls assms)+
qed

text \<open>The details that a user stores in a secret never ask for a new cache store.\<close>

lemma ensures_liftW: "ensures m Q \<Longrightarrow> ensures (liftW m) Q"
  unfolding ensures_def liftW_def Let_def by (auto split: prod.splits)

lemma Credentials_existing: "ensures (Credentials r n ns) (\<lambda>d. \<not> CreateIfNotFound d)"
  unfolding Credentials_def by (rule ens)+ (simp add: readInfinispanDetails_def emptyDetails_def)

lemma defaultDetails_own:
  "ispn_Name (defaultDetails v pw) = vdb_Name v @ ''-cache-store''" "NameSpace (defaultDetails v pw) = vdb_Namespace v"
  by (simp_all add: defaultDetails_def emptyDetails_def)

lemma cacheStore_handles:
  assumes "permits R F r" and "covers F (own c ns n)"
  shows "handles ns n R (cacheStore_Handle r)"
proof -
  have create: "handles ns n R (bindM (if CreateIfNotFound d
        then tryM (liftW (createNewCacheStore r d m)) (\<lambda>x. case x of
               Inl _ \<Rightarrow> returnM ()
             | Inr _ \<Rightarrow>
                 bindM (modV (setCacheStore (NameSpace d @ ''/'' @ ispn_Name d))) (\<lambda>_.
                   if \<not> b then tryM (liftW (createCacheStoreSecret r d m)) (\<lambda>_. returnM ()) else returnM ()))
        else returnM ()) (\<lambda>_. modV (setPhase ReconcilerPhaseS2IReady)))"
    if "CreateIfNotFound d \<Longrightarrow> ispn_Name d = n @ ''-cache-store'' \<and> NameSpace d = ns" for d b m
    by (rule rw createCacheStore_calls assms(1) covered [OF assms(2)] | simp add: that objectMeta_def)+
  have found: "\<not> CreateIfNotFound d" if "liftW (Credentials r n ns) s = (Ok d, s')" for s d s'
    using ensuresD [OF ensures_liftW [OF Credentials_existing] that] .
  have default: "ispn_Name (fst x) = n @ ''-cache-store'' \<and> NameSpace (fst x) = ns"
    if "bindM (liftW (RandomPassword r)) (\<lambda>pw. returnM (defaultDetails v pw, False)) s = (Ok x, s')"
      and "vdb_Namespace v = ns" "vdb_Name v = n" for x s s' v
    using that by (auto simp: bindM_def returnM_def defaultDetails_own split: prod.splits res.splits)
  show ?thesis
    unfolding cacheStore_Handle_def
    apply (rule within_getV)
    apply (rule within_bindM)
     apply ((rule rw assms(1))+)[1]
    apply (rule within_if)
     apply (rule within_modV, simp)
    apply (rule within_tryM_result)
      apply ((rule rw assms(1))+)[1]
     apply (simp only: sum.case)
     apply (rule within_bindM)
      apply ((rule rw assms(1))+)[1]
     apply (rule within_prod)
     apply (rule create)
     apply (drule default, assumption, assumption, simp)
    apply (simp only: sum.case bindM_unit prod.case)
    apply (rule create)
    apply (drule found, simp)
    done
qed

lemma getBuilds_calls [rw]: "permits R F r \<Longrightarrow> calls R (getBuilds r v)"
  unfolding getBuilds_def by (rule rw)+

lemma Split_builder: "hd (Split BuilderImageTargetName CHR '':'') = BuilderImageTargetName"
  by code_simp

lemma s2i_buildBC_calls:
  assumes "permits R F r" and "allowed F OwnImage (objectMeta (ImageName (conf_BuildImage (Config r))) (vdb_Namespace v))"
  shows "calls R (s2i_buildBC r v)"
  unfolding s2i_buildBC_def by (rule rw image_calls assms | simp)+

lemma ensures_prod [ens]: "(\<And>a b. x = (a, b) \<Longrightarrow> ensures (m a b) Q) \<Longrightarrow> ensures (case x of (a, b) \<Rightarrow> m a b) Q"
  by (cases x) simp

lemma s2i_buildBC_meta: "ensures (s2i_buildBC r v) (\<lambda>bc. bc_Meta bc = objectMeta BuilderImageTargetName (vdb_Namespace v))"
  unfolding s2i_buildBC_def by (rule ens)+ (simp add: emptyBuildConfig_def)

text \<open>Builds are started under the name of a build configuration.\<close>

lemma instantiate_calls:
  assumes "permits R F r" and "k = OwnBuild \<or> k = BuilderBuild" and "allowed F k m" and "allowed F k m'"
  shows "calls R (instantiateBinary r (Namespace m) (Name m') t)" "calls R (instantiate r (Namespace m) (Name m') t)"
  using assms unfolding permits_def allowed_def by blast+

lemma s2i_triggerBuild_calls:
  assumes "permits R F r" and "allowed F BuilderBuild (bc_Meta bc)"
  shows "calls R (s2i_triggerBuild r bc repos)"
proof -
  have got: "allowed F BuilderBuild (bc_Meta x)"
    if "getM (buildConfigs r) (Namespace (bc_Meta bc)) (Name (bc_Meta bc)) s = (Ok x, s')" for x s s'
    using answers(1) [OF permits_clients(8) [OF assms(1)] that] assms(2) by (simp add: allowed_def objectMeta_def)
  show ?thesis
    unfolding s2i_triggerBuild_def Let_def
    by (rule rw assms(1) instantiate_calls [OF assms(1) disjI2 [OF refl] assms(2)] got | assumption)+
qed

lemma retriggerFailed_calls:
  "permits R F r \<Longrightarrow> allowed F BuilderBuild (bc_Meta bc) \<Longrightarrow> calls R (retriggerFailed r v bc bs)"
  by (induction bs) (auto intro!: within_bindM within_returnM s2i_triggerBuild_calls)

text \<open>Both builds look for their configuration and create it when it is missing.\<close>

lemma get_or_create:
  assumes "client_within R meta ok c" and "ok (objectMeta n ns)" and "calls R m" and "ensures m (\<lambda>y. ok (meta y))"
    and "\<And>y. ok (meta y) \<Longrightarrow> calls R (k y)"
  shows "calls R (tryM (getM c ns n) (\<lambda>x. bindM (case x of Inr y \<Rightarrow> returnM y | Inl e \<Rightarrow> if IsNotFound e then m else failM e) k))"
proof (rule within_tryM_result)
  show "calls R (getM c ns n)" using assms(1) by (simp add: client_within_def rw)
  show "calls R (bindM (case Inl e of Inr y \<Rightarrow> returnM y | Inl e \<Rightarrow> if IsNotFound e then m else failM e) k)" for e
    using assms(3,5) ensuresD [OF assms(4)] by (simp add: rw)
  fix y s s'
  assume "getM c ns n s = (Ok y, s')"
  from answers(1) [OF assms(1) this assms(2)] assms(5)
  show "calls R (bindM (case Inr y of Inr y \<Rightarrow> returnM y | Inl e \<Rightarrow> if IsNotFound e then m else failM e) k)" by simp
qed

lemma ensures_createM: "client_within R meta ok c \<Longrightarrow> ok (meta x) \<Longrightarrow> ensures (createM c x) (\<lambda>y. ok (meta y))"
  unfolding ensures_def by (blast dest: answers(2))

lemma owned_meta:
  assumes "permits R F r" and "allowed F k (bc_Meta x)"
  shows "allowed F k (bc_Meta (case setControllerReference r owner (bc_Meta x) of Inr m \<Rightarrow> x\<lparr>bc_Meta := m\<rparr> | Inl e \<Rightarrow> x))"
  using assms permits_owner [OF assms(1) _ assms(2), of owner] by (simp split: sum.split)

lemma s2i_prepare_calls:
  assumes "permits R F r" and "covers F (own (Config r) (vdb_Namespace v) n)"
  shows "calls R (s2i_prepare r v)"
proof -
  note cl = permits_clients(8) [OF assms(1)]
  have ok: "allowed F BuilderBuild (objectMeta BuilderImageTargetName (vdb_Namespace v))"
    by (intro covered [OF assms(2)]) (simp_all add: objectMeta_def)
  have builds: "calls R (if LastVersion b = 0 then s2i_triggerBuild r b repos else bindM (getBuilds r v) (\<lambda>bs. retriggerFailed r v b bs))"
    if "allowed F BuilderBuild (bc_Meta b)" for b repos
    by (rule rw assms(1) that s2i_triggerBuild_calls retriggerFailed_calls)+
  have key: "Namespace (bc_Meta x) = vdb_Namespace v" "Name (bc_Meta x) = BuilderImageTargetName" "allowed F BuilderBuild (bc_Meta x)"
    if "s2i_buildBC r v s = (Ok x, s')" for x s s'
    using ensuresD [OF s2i_buildBC_meta that] ok by (simp_all add: objectMeta_def)
  have image: "calls R (EnsureImageStream r BuilderImageTargetName (vdb_Namespace v) True m)" for m
    by (intro image_calls(3) [OF assms(1)] covered [OF assms(2)]) (simp_all add: Split_builder objectMeta_def)
  have base: "calls R (s2i_buildBC r v)"
    by (intro s2i_buildBC_calls [OF assms(1)] covered(10) [OF assms(2)]) (simp_all add: objectMeta_def)
  show ?thesis
    unfolding s2i_prepare_def Let_def
    by (simp only: key | rule image get_or_create [OF cl ok] base write_calls [OF cl] ensures_createM [OF cl]
        builds owned_meta [OF assms(1)] rw assms(1) | assumption)+
qed

lemma s2i_handles:
  assumes "permits R F r" and "covers F (own (Config r) ns n)"
  shows "handles ns n R (s2i_Handle r)"
  unfolding s2i_Handle_def by (rule within_getV rw assms s2i_prepare_calls | simp)+

lemma payload_calls [rw]:
  assumes "permits R F r"
  shows "calls R (newServiceBC r v)" "calls R (buildJarBasedPayload r v)" "calls R (buildVdbBasedPayload r v)"
  unfolding newServiceBC_def buildJarBasedPayload_def buildVdbBasedPayload_def by (rule rw assms)+

lemma newServiceBC_meta:
  "ensures (newServiceBC r v) (\<lambda>bc. Namespace (bc_Meta bc) = vdb_Namespace v \<and> Name (bc_Meta bc) = vdb_Name v)"
  unfolding newServiceBC_def by (rule ens)+ (simp add: emptyBuildConfig_def objectMeta_def)

lemma service_triggerBuild_calls:
  assumes "permits R F r" and "allowed F OwnBuild (bc_Meta bc)"
  shows "calls R (service_triggerBuild r bc files)"
proof -
  have got: "allowed F OwnBuild (bc_Meta x)"
    if "getM (buildConfigs r) (Namespace (bc_Meta bc)) (Name (bc_Meta bc)) s = (Ok x, s')" for x s s'
    using answers(1) [OF permits_clients(7) [OF assms(1)] that] assms(2) by (simp add: allowed_def objectMeta_def)
  show ?thesis
    unfolding service_triggerBuild_def
    by (rule rw assms instantiate_calls [OF assms(1) disjI1 [OF refl]] got | assumption)+
qed

lemma buildServiceImage_calls:
  assumes "permits R F r" and "covers F (own c (vdb_Namespace v) (vdb_Name v))"
  shows "calls R (buildServiceImage r v)"
proof -
  note cl = permits_clients(7) [OF assms(1)]
  have ok: "allowed F OwnBuild (objectMeta (vdb_Name v) (vdb_Namespace v))"
    by (intro covered [OF assms(2)]) (simp_all add: objectMeta_def)
  have meta: "bc_Meta (y\<lparr>SourceStrategy := st\<rparr>) = bc_Meta y" for y st by simp
  have new: "allowed F OwnBuild (bc_Meta x)" if "newServiceBC r v s = (Ok x, s')" for x s s'
    using ensuresD [OF newServiceBC_meta that] by (auto intro: covered [OF assms(2)])
  have image: "calls R (EnsureImageStream r (vdb_Name v) (vdb_Namespace v) True m)" for m
    by (intro image_calls(3) [OF assms(1)] covered [OF assms(2)]) (simp_all add: objectMeta_def)
  have stored: "allowed F OwnBuild (bc_Meta x)"
    if "updateM (buildConfigs r) (y\<lparr>SourceStrategy := st\<rparr>) s = (Ok x, s')" and "allowed F OwnBuild (bc_Meta y)" for x y st s s'
    using answers(3) [OF cl that(1)] that(2) by simp
  show ?thesis
    unfolding buildServiceImage_def Let_def
    by (rule image get_or_create [OF cl ok] ensures_createM [OF cl] service_triggerBuild_calls [OF assms(1)]
        owned_meta [OF assms(1)] write_calls [OF cl] ens rw assms(1) | assumption | erule new stored | simp only: meta)+
qed

lemma service_handles:
  assumes "permits R F r" and "covers F (own c ns n)"
  shows "handles ns n R (service_Handle r)"
  unfolding service_Handle_def monitorServiceImage_def
  by (rule within_getV rw assms buildServiceImage_calls [where c = c] | simp add: assms)+

text \<open>Services and routes.\<close>

lemma waitForRoute_calls [rw]: "permits R F r \<Longrightarrow> calls R (waitForRoute r m n err)"
  by (induction n arbitrary: err) (auto intro!: rw)

lemma findSecret_calls [rw]: "permits R F r \<Longrightarrow> calls R (findSecret r v)"
  unfolding findSecret_def by (rule rw)+

lemma ownedService_meta:
  assumes "permits R F r" and "allowed F k (svc_Meta x)"
  shows "allowed F k (svc_Meta (ownedService r v x))"
  using assms permits_owner [OF assms(1) _ assms(2), of "vdb_Meta v"] by (simp add: ownedService_def allowed_def Let_def split: sum.split)

lemma ensureService_calls:
  assumes "permits R F r" and "allowed F k (svc_Meta x)" and "k = OwnService \<or> k = ExternalService"
  shows "calls R (ensureService r x)" "ensures (ensureService r x) (\<lambda>y. allowed F k (svc_Meta y))"
proof -
  have cl: "client_within R svc_Meta (allowed F k) (services r)" using assms(3) permits_clients(3,4) [OF assms(1)] by auto
  show "calls R (ensureService r x)"
    unfolding ensureService_def EnsureObject_def by (rule rw write_calls [OF cl] assms)+
  have "ensures (EnsureObject (services r) x e) (\<lambda>y. allowed F k (svc_Meta y))" for e
    unfolding EnsureObject_def by (rule ens ensures_createM [OF cl] assms)+
  then show "ensures (ensureService r x) (\<lambda>y. allowed F k (svc_Meta y))"
    unfolding ensureService_def ensures_def tryM_def by (auto split: prod.splits res.splits)
qed

lemma createService_calls:
  assumes "permits R F r" and "covers F (own c (vdb_Namespace v) (vdb_Name v))"
  shows "calls R (createService r v b)" "ensures (createService r v b) (\<lambda>x. allowed F OwnService (svc_Meta x))"
    "calls R (createExternalService r v (vdb_Name v @ ''-external'') t)"
  unfolding createService_def createExternalService_def Let_def
  by (rule ensureService_calls [OF assms(1)] ownedService_meta [OF assms(1)] covered [OF assms(2)] | simp add: objectMeta_def)+

lemma createRoute_calls:
  assumes "permits R F r" and "allowed F OwnService (svc_Meta x)"
  shows "calls R (createRoute r x v)"
proof -
  note cl = permits_clients(5) [OF assms(1)]
  have route: "allowed F OwnService (route_Meta y\<lparr>ResourceVersion := []\<rparr>)" if "allowed F OwnService (route_Meta y)" for y
    using that by (simp add: allowed_def)
  have owned: "allowed F OwnService (route_Meta (case setControllerReference r m (route_Meta y) of
      Inl e \<Rightarrow> y | Inr m' \<Rightarrow> y\<lparr>route_Meta := m'\<rparr>))" if "allowed F OwnService (route_Meta y)" for m y
    using that permits_owner [OF assms(1) _ that, of m] by (simp split: sum.split)
  have create: "calls R (EnsureObject (routes r) (y\<lparr>route_Meta := route_Meta y\<lparr>ResourceVersion := []\<rparr>\<rparr>) e)"
    if "allowed F OwnService (route_Meta y)" for y e
    unfolding EnsureObject_def by (rule rw write_calls [OF cl] | simp add: route that)+
  show ?thesis
    unfolding createRoute_def Let_def
    by (rule rw assms create owned | simp add: allowed_def [of F OwnService] assms(2) [unfolded allowed_def])+
qed

lemma failService_handles [rw]: "handles ns n R (failService m)"
  unfolding failService_def by (rule rw | simp)+

lemma exposeServices_handles:
  assumes "permits R F r" and "covers F (own c ns n)" and "vdb_Namespace v = ns" and "vdb_Name v = n"
  shows "handles ns n R (exposeServices r v es b)"
proof (induction es arbitrary: b)
  case (Cons e es)
  have "calls R (createExternalService r v (vdb_Name v @ ''-external'') t)" for t
    using createService_calls(3) [OF assms(1)] assms(2-4) by blast
  then show ?case
    unfolding exposeServices.simps
    by (intro within_if within_tryM within_liftW within_bindM within_sum failService_handles within_returnM Cons.IH)
qed (simp add: rw)

lemma createService_handles:
  assumes "permits R F r" and "covers F (own c ns n)"
  shows "handles ns n R (createService_Handle r)"
proof -
  have made: "allowed F OwnService (svc_Meta x)" if "liftW (createService r v b) s = (Ok x, s')"
      and "vdb_Namespace v = ns" "vdb_Name v = n" for x v b s s'
    using ensuresD [OF ensures_liftW [OF createService_calls(2) [OF assms(1)]] that(1)] assms(2) that(2,3) by blast
  have route: "handles ns n R (exposeRoute r v x)"
    if "allowed F OwnService (svc_Meta x)" "vdb_Namespace v = ns" "vdb_Name v = n" for v x
    unfolding exposeRoute_def
    by (rule rw assms(1) createRoute_calls that consoleLinks_calls [OF assms] | simp)+
  have service: "handles ns n R (tryM (liftW (createService r v b)) (\<lambda>x. case x of
        Inl _ \<Rightarrow> failService m
      | Inr service \<Rightarrow> bindM (exposeServices r v es True) (\<lambda>withRoute. if withRoute then exposeRoute r v service else returnM ())))"
    if v: "vdb_Namespace v = ns" "vdb_Name v = n" for v b es m
  proof (rule within_tryM_result)
    show "handles ns n R (liftW (createService r v b))"
      using createService_calls(1) [OF assms(1)] assms(2) v by (blast intro: within_liftW)
  qed (simp_all only: sum.case, (rule rw route exposeServices_handles [OF assms v] v | erule made [OF _ v] | assumption)+)
  show ?thesis
    unfolding createService_Handle_def Let_def
    by (rule within_getV service rw assms(1) | assumption | simp)+
qed

text \<open>The key store, the deployment and the monitor.\<close>

lemma createCertificate_calls [rw]:
  assumes "permits R F r"
  shows "calls R (CreatePkcs12Keystore r c k p)" "calls R (CreatePkcs12Truststore r p cs)"
  unfolding CreatePkcs12Keystore_def CreatePkcs12Truststore_def by (rule rw assms)+

lemma createCertificate_handles:
  assumes "permits R F r" and "covers F (own c ns n)"
  shows "handles ns n R (createCertificate_Handle r)"
proof -
  have "calls R (CreateSecret r (getKeystoreSecretName v) (vdb_Namespace v) owner data)"
    if "vdb_Namespace v = ns" "vdb_Name v = n" for v owner data
    using that by (intro CreateSecret_calls [OF assms(1)] covered [OF assms(2)]) (simp_all add: getKeystoreSecretName_def objectMeta_def)
  then show ?thesis
    unfolding createCertificate_Handle_def Let_def by - (rule within_getV rw assms(1) | assumption | simp)+
qed

lemma deployment_calls [rw]:
  assumes "permits R F r"
  shows "calls R (findDC r v)" "calls R (findItem r v)" "calls R (HasJaeger r ns n)" "calls R (usesJaeger r v)"
    "calls R (deploymentEnvironments r v)" "calls R (buildDeployment r v bc)"
  unfolding findDC_def findItem_def HasJaeger_def usesJaeger_def deploymentEnvironments_def buildDeployment_def
  by (rule rw assms)+

lemma deployment_named:
  "ensures (buildDeployment r v bc) (\<lambda>dc. permits R F r \<longrightarrow> allowed F k (objectMeta (vdb_Name v) (vdb_Namespace v)) \<longrightarrow> allowed F k (dc_Meta dc))"
  unfolding buildDeployment_def
  by (rule ens)+ (auto simp: newDeployment_def annotateDeployment_def allowed_def objectMeta_def emptyDeployment_def
      elim!: permits_owner [unfolded allowed_def])

text \<open>The zero value that stands for a missing deployment is never ready.\<close>

lemma ready_item:
  assumes "permits R F r" and "allowed F OwnDeployment (objectMeta (vdb_Name v) (vdb_Namespace v))"
    and "findItem r v w = (Ok item, w')" and "isDeploymentInReadyState item"
  shows "allowed F OwnDeployment (dc_Meta item)"
proof -
  have "item \<noteq> emptyDeployment" using assms(4) by (auto simp: isDeploymentInReadyState_def emptyDeployment_def)
  with assms(3) have "findDC r v w = (Ok item, w')"
    by (auto simp: findItem_def tryM_def returnM_def split: prod.splits res.splits)
  then show ?thesis unfolding findDC_def by (rule answers(1) [OF permits_clients(6) [OF assms(1)] _ assms(2)])
qed

lemma ensureReplicas_handles:
  assumes "permits R F r" and "allowed F OwnDeployment (dc_Meta item)"
  shows "handles ns n R (ensureReplicas r item)"
proof -
  note wr = write_calls [OF permits_clients(6) [OF assms(1)]]
  have same: "dc_Meta i = dc_Meta item" if "liftW (resM (desiredItem v envs item)) s = (Ok (i, b), s')" for v envs i b s s'
    using that by (auto simp: liftW_def resM_def desiredItem_def setEnv_def Let_def split: option.splits list.splits if_splits prod.splits)
  have hash: "dc_Meta (fst x) = dc_Meta i"
    if "(if \<not> b
         then bindM (liftW (ComputeConfigDigest r v)) (\<lambda>d.
                if d \<noteq> ConfigDigest (Status v)
                then bindM (modV (setConfigDigest d)) (\<lambda>_.
                  case Annotations (pod_Meta (Template i)) of
                    None \<Rightarrow> panicM m
                  | Some a \<Rightarrow> returnM (setConfigHash d a i, True))
                else returnM (i, False))
         else returnM (i, b)) s = (Ok x, s')" for x i b v m s s'
    using that by (rule ensuresD [rotated]) (rule ens | simp add: setConfigHash_def)+
  show ?thesis
    unfolding ensureReplicas_def
    apply (rule within_getV)
    apply (rule within_bindM)
     apply ((rule rw assms(1))+)[1]
    apply (rule within_bindM)
     apply ((rule rw assms(1))+)[1]
    apply (rule within_prod)
    apply (rule within_bindM)
     apply ((rule rw assms(1) | simp)+)[1]
    apply (drule hash)
    apply (rule within_prod)
    apply (rule rw wr | simp add: same assms(2))+
    done
qed

lemma rollout_calls:
  assumes "permits R F r" and "allowed F OwnDeployment (objectMeta (vdb_Name v) (vdb_Namespace v))"
  shows "calls R (rollout r v)"
proof -
  note cl = permits_clients(6) [OF assms(1)]
  have made: "allowed F OwnDeployment (dc_Meta dc)" if "buildDeployment r v bc s = (Ok dc, s')" for bc dc s s'
    using ensuresD [OF deployment_named that] assms by blast
  have found: "allowed F OwnDeployment (dc_Meta dc)" if "findDC r v s = (Ok dc, s')" for dc s s'
    using answers(1) [OF cl that [unfolded findDC_def] assms(2)] .
  have "calls R (tryM (findDC r v) (\<lambda>x. case x of
       Inl _ \<Rightarrow> bindM (buildDeployment r v bc) (\<lambda>dc. bindM (createM (deployments r) dc) (\<lambda>_. returnM ()))
     | Inr existing \<Rightarrow>
         (case (Containers (Template existing), OutputTo bc) of
            ([], _) \<Rightarrow> panicM a
          | (_, None) \<Rightarrow> panicM b
          | (c # cs, Some to) \<Rightarrow>
              if Image c \<noteq> ref_Name to
              then bindM (updateM (deployments r) (existing\<lparr>Template :=
                     (Template existing)\<lparr>Containers := c\<lparr>Image := ref_Name to\<rparr> # cs\<rparr>\<rparr>)) (\<lambda>_. returnM ())
              else returnM ())))" for bc a b
  proof (rule within_tryM_result)
    show "calls R (findDC r v)" by (rule rw assms(1))+
  qed (simp_all only: sum.case, (rule rw assms(1) write_calls [OF cl] | erule made found | simp add: found split: list.split option.split)+)
  then show ?thesis unfolding rollout_def by (intro within_bindM read_calls permits_reads(6) [OF assms(1)])
qed

lemma deployment_handles:
  assumes "permits R F r" and "covers F (own c ns n)"
  shows "handles ns n R (deployment_Handle r)"
proof -
  have ok: "allowed F OwnDeployment (objectMeta n ns)" by (intro covered [OF assms(2)]) (simp_all add: objectMeta_def)
  have item: "allowed F OwnDeployment (dc_Meta i)"
    if "liftW (findItem r v) s = (Ok i, s')" and "isDeploymentInReadyState i" and v: "vdb_Namespace v = ns" "vdb_Name v = n" for v i s s'
    using that(1) ready_item [OF assms(1) _ _ that(2), of v] ok v by (auto simp: liftW_def Let_def case_prod_unfold prod_eq_iff)
  show ?thesis
    unfolding deployment_Handle_def
    by (rule within_getV rw assms(1) rollout_calls ensureReplicas_handles [OF assms(1)] | simp add: ok | erule (1) item, assumption+)+
qed

lemma monitor_calls [rw]:
  assumes "permits R F r"
  shows "calls R (hasPrometheus r v)" "calls R (hasServiceMonitor r v)"
proof -
  have "calls R (selectsMonitors r ps)" for ps
    by (induction ps) (simp_all only: selectsMonitors.simps, (rule rw assms | assumption)+)
  then show "calls R (hasPrometheus r v)" "calls R (hasServiceMonitor r v)"
    unfolding hasPrometheus_def hasServiceMonitor_def by - (rule rw assms | assumption)+
qed

lemma prometheus_handles:
  assumes "permits R F r" and "\<And>m. Namespace m = ns \<Longrightarrow> Name m = n \<Longrightarrow> allowed F OwnMonitor m"
  shows "handles ns n R (prometheus_Handle r)"
proof -
  have monitor: "calls R (createServiceMonitor r v)" if v: "vdb_Namespace v = ns" "vdb_Name v = n" for v
  proof -
    define mon where "mon = objectMeta (vdb_Name v) (vdb_Namespace v)\<lparr>Labels := monitorLabels r\<rparr>"
    have "allowed F OwnMonitor mon" using v by (intro assms(2)) (simp_all add: mon_def objectMeta_def)
    then have "allowed F OwnMonitor (sm_Meta (serviceMonitor r v))"
      using permits_owner [OF assms(1), of "vdb_Meta v" mon] by (simp add: serviceMonitor_def Let_def mon_def split: sum.split)
    then show ?thesis
      unfolding createServiceMonitor_def by (intro within_bindM within_returnM write_calls(1) [OF permits_clients(10) [OF assms(1)]])
  qed
  show ?thesis
    unfolding prometheus_Handle_def by (rule within_getV monitor rw assms(1) | assumption)+
qed

section \<open>A decision\<close>

lemma planSteps_calls:
  assumes "list_all (\<lambda>a. handles ns n R (Handle a)) as" and "keyOf t = (ns, n)"
  shows "calls R (planSteps v as t)"
  using assms
proof (induction as arbitrary: t)
  case (Cons a as)
  have "calls R (\<lambda>w. case Handle a (t, w) of
      (Panic p, _, w') \<Rightarrow> (Panic p, w')
    | (Fail e, t', w') \<Rightarrow> if hasChanges v t' then (Ok (Some (t', Some e)), w') else planSteps v as t' w'
    | (Ok _, t', w') \<Rightarrow> if hasChanges v t' then (Ok (Some (t', None)), w') else planSteps v as t' w')"
  proof (rule withinI)
    fix w y w'
    obtain x t' w1 where h: "Handle a (t, w) = (x, t', w1)" by (metis prod_cases3)
    have t': "keyOf t' = (ns, n)" "R\<^sup>*\<^sup>* w w1"
      using handlesD [of ns n R "Handle a", OF _ _ h] Cons.prems by auto
    have more: "R\<^sup>*\<^sup>* w w2" if "planSteps v as t' w1 = (z, w2)" for z w2
      using callsD [OF Cons.IH that] Cons.prems(1) t' rtranclp_trans [OF t'(2)] by simp
    show "(case Handle a (t, w) of
      (Panic p, _, w') \<Rightarrow> (Panic p, w')
    | (Fail e, t', w') \<Rightarrow> if hasChanges v t' then (Ok (Some (t', Some e)), w') else planSteps v as t' w'
    | (Ok _, t', w') \<Rightarrow> if hasChanges v t' then (Ok (Some (t', None)), w') else planSteps v as t' w') = (y, w') \<Longrightarrow>
      True \<and> R\<^sup>*\<^sup>* w w'"
      using h t'(2) more by (cases x) (auto split: if_splits)
  qed
  moreover have "calls R (planSteps v as t)" using Cons by simp
  ultimately show ?case unfolding planSteps.simps by (rule within_if)
qed (simp add: rw)

theorem plan_footprint:
  assumes "permits R F r" and "covers F (own (Config r) (vdb_Namespace v) (vdb_Name v))"
  shows "calls R (plan r v)"
proof -
  note actions = cacheStore_handles [OF assms] s2i_handles [OF assms] service_handles [OF assms] createService_handles [OF assms]
    createCertificate_handles [OF assms] deployment_handles [OF assms] prometheus_handles [OF assms(1) covered(11) [OF assms(2)]]
  have "list_all (\<lambda>a. handles (vdb_Namespace v) (vdb_Name v) R (Handle a)) (buildSteps r)"
    by (simp add: buildSteps_def new_action actions initialize_handles [OF assms(1)])
  then show ?thesis unfolding plan_def by (intro within_if within_returnM planSteps_calls) (simp_all add: keyOf_def)
qed

lemma Reconcile_not_read:
  assumes "permits R F r" and "covers F (own (Config r) ns n)" and "rGet (vdbs r) ns n w = (Inl e, w1)"
    and "Reconcile r ns n w = (result, w')"
  shows "R\<^sup>*\<^sup>* w1 w'"
proof -
  have "calls R (tryM (ConsoleLinkExists r) (\<lambda>y. case y of
              Inr _ \<Rightarrow> bindM (RemoveConsoleLink r (objectMeta n ns)) (\<lambda>_. returnM emptyResult)
            | Inl _ \<Rightarrow> returnM emptyResult))"
    by (rule rw assms(1) consoleLinks_calls(2) [OF assms(1,2)] | simp add: objectMeta_def)+
  from callsD [OF this, of w1 result w'] show ?thesis
    using assms(3,4) by (auto simp: Reconcile_def tryM_def getM_def callM_def failM_def split: if_splits)
qed

lemma vdb_step_meta:
  assumes "vdb_step r v x"
  shows "vdb_Meta x = vdb_Meta v"
  using vdb_step_good [OF assms] by (auto simp: goodStep_def keeps_def RedeployVdb_frame split: if_splits)

section \<open>Properties\<close>

text \<open>A cluster that records the namespaces and names of the objects that are written.\<close>

definition recorder :: "('o \<Rightarrow> ObjectMeta) \<Rightarrow> ((string \<times> string) list, 'o) resource_client" where
  "recorder meta =
     \<lparr>rGet = (\<lambda>ns n w. (Inl (NotFound ''not found''), w)), rList = (\<lambda>ns sel w. (Inr [], w)),
      rCreate = (\<lambda>x w. (Inr x, (Namespace (meta x), Name (meta x)) # w)),
      rUpdate = (\<lambda>x w. (Inr x, (Namespace (meta x), Name (meta x)) # w)),
      rDelete = (\<lambda>x w. (Inr (), (Namespace (meta x), Name (meta x)) # w))\<rparr>"

definition recordingCluster :: "VirtualDatabase \<Rightarrow> (string \<times> string) list Reconciler" where
  "recordingCluster v = emptyCluster\<lparr>
     vdbs := (recorder vdb_Meta)\<lparr>rGet := (\<lambda>ns n w. (if keyOf v = (ns, n) then Inr v else Inl (NotFound ''not found''), w))\<rparr>,
     secrets := recorder sec_Meta, infinispans := recorder ispn_Meta, services := recorder svc_Meta, routes := recorder route_Meta,
     deployments := recorder dc_Meta, buildConfigs := recorder bc_Meta, imageStreams := recorder is_Meta,
     serviceMonitors := recorder sm_Meta, consoleLinks := recorder link_Meta\<rparr>"

definition records :: "scope \<Rightarrow> (string \<times> string) list \<Rightarrow> (string \<times> string) list \<Rightarrow> bool" where
  "records F w w' \<longleftrightarrow> (\<exists>k ns n. w' = (ns, n) # w \<and> ns \<in> fst (F k) \<and> n \<in> snd (F k))"

lemma recorder_within:
  "client_within (records F) meta (allowed F k) (recorder meta)" "reads_within (records F) (recorder meta)"
  by (auto simp: client_within_def reads_within_def recorder_def within_def allowed_def objectMeta_def records_def intro!: r_into_rtranclp)

lemma recordingCluster_permits: "permits (records (own c ns n)) (own c ns n) (recordingCluster v)"
  unfolding permits_def host_within_def
  by (auto simp: recordingCluster_def emptyCluster_def recorder_within)
    (auto simp: within_def nothing_def reads_within_def emptyClient_def)

text \<open>
  C4: a reconciliation stays in its own footprint. Every write it makes, whatever the cluster answers, is of the
  virtual database itself or of an object that carries its name, in its namespace: its key store and
  cache store secrets, its cache store, its service, external service and route, its build, image, deployment and
  monitor; of the builder image of the namespace; or of its console link. So whatever a user puts into a virtual
  database, or into the secrets it names, no object of another name or namespace is written: the world moves only
  by steps \<open>R\<close> that reads and writes inside the footprint can make.
\<close>

theorem Reconcile_footprint:
  assumes "permits R (own (Config r) ns n) r" and "client_within R vdb_Meta (\<lambda>m. Namespace m = ns \<and> Name m = n) (vdbs r)"
    and "Reconcile r ns n w = (result, w')"
  shows "R\<^sup>*\<^sup>* w w'"
proof -
  obtain g w1 where g: "rGet (vdbs r) ns n w = (g, w1)" by fastforce
  have w1: "R\<^sup>*\<^sup>* w w1"
    using callsD [of R "rGet (vdbs r) ns n", OF _ g] assms(2) by (simp add: client_within_def reads_within_def)
  have "R\<^sup>*\<^sup>* w1 w'"
  proof (cases g)
    case (Inl e)
    with Reconcile_not_read [OF assms(1) covers_refl _ assms(3)] g show ?thesis by blast
  next
    case (Inr v)
    then have v: "vdb_Namespace v = ns" "vdb_Name v = n"
      using assms(2) g unfolding client_within_def by (auto simp: objectMeta_def)
    have decided: "calls R (plan r v)" using plan_footprint [OF assms(1)] v by simp
    have update: "calls R (updateM (vdbs r) x)" if "plan r v s = (Ok (Some (x, err)), s')" for x err s s'
    proof (rule write_calls(2) [OF assms(2)])
      have "vdb_step r v x" using that by (auto intro: vdb_step.decided)
      from vdb_step_meta [OF this] v show "vdb_Namespace x = ns \<and> vdb_Name x = n" by simp
    qed
    have "calls R (bindM (plan r v) (execute r))"
      unfolding execute_def by (rule decided rw | erule update | simp)+
    moreover have "bindM (plan r v) (execute r) w1 = (result, w')" using assms(3) Reconcile_found g Inr by metis
    ultimately show ?thesis by (rule callsD)
  qed
  with w1 show ?thesis by (rule rtranclp_trans)
qed

lemma records_all:
  "(records F)\<^sup>*\<^sup>* w w' \<Longrightarrow> list_all (\<lambda>(a, b). \<exists>k. a \<in> fst (F k) \<and> b \<in> snd (F k)) w \<Longrightarrow>
     list_all (\<lambda>(a, b). \<exists>k. a \<in> fst (F k) \<and> b \<in> snd (F k)) w'"
  by (induction rule: rtranclp_induct) (auto simp: records_def)

theorem Reconcile_footprint_witness:
  "list_all (\<lambda>(a, b). \<exists>k. a \<in> fst (own emptyConfiguration ''ns'' ''shop'' k) \<and> b \<in> snd (own emptyConfiguration ''ns'' ''shop'' k))
     (snd (Reconcile (recordingCluster (setPhase ReconcilerPhaseServiceImageFinished
       (RedeployVdb (emptyVdb\<lparr>vdb_Meta := objectMeta ''shop'' ''ns''\<rparr>)))) ''ns'' ''shop'' []))"
proof -
  let ?v = "setPhase ReconcilerPhaseServiceImageFinished (RedeployVdb (emptyVdb\<lparr>vdb_Meta := objectMeta ''shop'' ''ns''\<rparr>))"
  let ?F = "own emptyConfiguration ''ns'' ''shop''"
  obtain result w' where w': "Reconcile (recordingCluster ?v) ''ns'' ''shop'' [] = (result, w')" by fastforce
  have c: "Config (recordingCluster ?v) = emptyConfiguration" by (simp add: recordingCluster_def emptyCluster_def)
  have "client_within R vdb_Meta (\<lambda>m. Namespace m = ''ns'' \<and> Name m = ''shop'') (vdbs (recordingCluster ?v))"
    if "\<And>w. R w ((''ns'', ''shop'') # w)" for R
    using that by (auto simp: recordingCluster_def recorder_def client_within_def reads_within_def within_def keyOf_def
        objectMeta_def RedeployVdb_frame intro!: r_into_rtranclp)
  moreover have "records ?F w ((''ns'', ''shop'') # w)" for w
    by (auto simp: records_def own_def intro!: exI [of _ OwnBuild])
  ultimately have "(records ?F)\<^sup>*\<^sup>* [] w'"
    by (intro Reconcile_footprint [OF _ _ w']) (simp_all only: c recordingCluster_permits)
  with records_all [of ?F "[]" w'] w' show ?thesis by simp
qed

end
