(* ===== verification/Rely.thy ===== *)
theory Rely
  imports Footprint
begin

text \<open>
  What the rest of the world may do while the operator works. \<open>rely R r\<close> says that every call that leaves the
  operator, except those that read and write virtual databases, moves the world only by steps of \<open>R\<close>. Then
  everything an action does stays within \<open>R\<close>, by \<open>plan_footprint\<close>: no action writes a virtual database by itself,
  and an object that others change only in some way has changed only in that way when the decision is made. The
  controller library runs one reconciliation of an object at a time, so the other clients are not
  reconciliations of it.
\<close>

definition rely :: "('w \<Rightarrow> 'w \<Rightarrow> bool) \<Rightarrow> 'w Reconciler \<Rightarrow> bool" where
  "rely R r \<longleftrightarrow> permits R anywhere r"

theorem plan_within: "rely R r \<Longrightarrow> calls R (plan r v)"
  unfolding rely_def by (rule plan_footprint [OF _ anywhere_covers(1)])

section \<open>Other clients\<close>

text \<open>
  One step of the rest of the world, seen from one virtual database: it leaves the stored object alone, or
  somebody edits it. Who edits an object leaves its status to the operator and cannot rename it, and the API server
  gives the result a later version; \<open>ver\<close> is the order of the versions.
\<close>

abbreviation version :: "VirtualDatabase \<Rightarrow> string" where
  "version v \<equiv> ResourceVersion (vdb_Meta v)"

definition others :: "(string \<Rightarrow> nat) \<Rightarrow> ('w \<Rightarrow> VirtualDatabase) \<Rightarrow> 'w \<Rightarrow> 'w \<Rightarrow> bool" where
  "others ver stored w w' \<longleftrightarrow>
     stored w' = stored w \<or>
     Status (stored w') = Status (stored w) \<and> keyOf (stored w') = keyOf (stored w) \<and>
     ver (version (stored w)) < ver (version (stored w'))"

lemma others_rtranclp:
  assumes "(others ver stored)\<^sup>*\<^sup>* w w'"
  shows "Status (stored w') = Status (stored w)" and "keyOf (stored w') = keyOf (stored w)"
    and "version (stored w') = version (stored w) \<Longrightarrow> stored w' = stored w"
    and "ver (version (stored w)) \<le> ver (version (stored w'))"
proof -
  from assms have "others ver stored w w'"
    by (induction rule: rtranclp_induct) (auto simp: others_def)
  then show "Status (stored w') = Status (stored w)" and "keyOf (stored w') = keyOf (stored w)"
    and "version (stored w') = version (stored w) \<Longrightarrow> stored w' = stored w"
    and "ver (version (stored w)) \<le> ver (version (stored w'))"
    by (auto simp: others_def)
qed

text \<open>
  What the API server and the client of the operator promise. The client reads from a cache that follows the
  server, so a read answers with the stored object or an earlier version of it, of any content.
\<close>

definition seen :: "(string \<Rightarrow> nat) \<Rightarrow> VirtualDatabase \<Rightarrow> VirtualDatabase \<Rightarrow> bool" where
  "seen ver v u \<longleftrightarrow> keyOf v = keyOf u \<and> (v = u \<or> ver (version v) < ver (version u))"

text \<open>
  \<open>serves R\<close>: calls of the operator may coincide with steps of \<open>R\<close>, which are steps of others; a write of the
  object is accepted only for the version that is stored, and then replaces specification and status.
\<close>

definition serves :: "('w \<Rightarrow> 'w \<Rightarrow> bool) \<Rightarrow> (string \<Rightarrow> nat) \<Rightarrow> ('w \<Rightarrow> VirtualDatabase) \<Rightarrow> 'w Reconciler \<Rightarrow> string \<Rightarrow> string \<Rightarrow> bool" where
  "serves R ver stored r ns n \<longleftrightarrow>
     rely R r \<and> calls R (rGet (vdbs r) ns n) \<and>
     (\<forall>w v w'. rGet (vdbs r) ns n w = (Inr v, w') \<longrightarrow> seen ver v (stored w')) \<and>
     (\<forall>x w. keyOf x = keyOf (stored w) \<longrightarrow> (case rUpdate (vdbs r) x w of
        (Inl _, w') \<Rightarrow> R w w'
      | (Inr _, w') \<Rightarrow> version x = version (stored w) \<and> Spec (stored w') = Spec x \<and> Status (stored w') = Status x))"

abbreviation api_server :: "(string \<Rightarrow> nat) \<Rightarrow> ('w \<Rightarrow> VirtualDatabase) \<Rightarrow> 'w Reconciler \<Rightarrow> string \<Rightarrow> string \<Rightarrow> bool" where
  "api_server ver stored \<equiv> serves (others ver stored) ver stored"

lemma steps_of_others: "R \<le> others ver stored \<Longrightarrow> R\<^sup>*\<^sup>* w w' \<Longrightarrow> (others ver stored)\<^sup>*\<^sup>* w w'"
  using rtranclp_mono [of R "others ver stored"] by blast

text \<open>
  A write that was decided for what was read is accepted only when that is what is stored: the version of an outdated
  object is behind the stored one for good.
\<close>

lemma write_atomic:
  assumes "serves R ver stored r ns n" and "R \<le> others ver stored" and "seen ver v (stored w1)" and "R\<^sup>*\<^sup>* w1 w2"
    and "vdb_step r v x" and "rUpdate (vdbs r) x w2 = (y, w')"
  shows "\<exists>u. R\<^sup>*\<^sup>* w1 u \<and>
    (w' = u \<or> (\<exists>x. vdb_step r (stored u) x \<and> Spec (stored w') = Spec x \<and> Status (stored w') = Status x))"
proof -
  note meta = vdb_step_meta [OF assms(5)] and steps = steps_of_others [OF assms(2,4)]
  have "keyOf x = keyOf (stored w2)" using meta assms(3) others_rtranclp(2) [OF steps] by (simp add: keyOf_def seen_def)
  then have upd: "case rUpdate (vdbs r) x w2 of (Inl _, w') \<Rightarrow> R w2 w'
    | (Inr _, w') \<Rightarrow> version x = version (stored w2) \<and> Spec (stored w') = Spec x \<and> Status (stored w') = Status x"
    using assms(1) unfolding serves_def by simp
  show ?thesis
  proof (cases y)
    case (Inl e)
    with upd assms(4,6) show ?thesis by (auto intro: rtranclp.rtrancl_into_rtrancl)
  next
    case (Inr z)
    with upd assms(6) have x: "version x = version (stored w2)" "Spec (stored w') = Spec x" "Status (stored w') = Status x"
      by simp_all
    have v: "version v = version (stored w2)" using x(1) meta by simp
    with assms(3) others_rtranclp(4) [OF steps] have "v = stored w1" by (auto simp: seen_def)
    with v others_rtranclp(3) [OF steps] have "stored w2 = v" by simp
    with assms(5) have "vdb_step r (stored w2) x" by (simp only:)
    with x assms(4) show ?thesis by blast
  qed
qed

text \<open>
  A reconciliation takes effect at one moment: it amounts to steps of others, followed by at most one write,
  which is decided for exactly the object that it replaces, even though it was decided on what the cache held.
\<close>

lemma Reconcile_atomic:
  assumes "serves R ver stored r ns n" and "R \<le> others ver stored" and "Reconcile r ns n w = (result, w')"
  shows "\<exists>u. R\<^sup>*\<^sup>* w u \<and>
    (w' = u \<or> (\<exists>x. vdb_step r (stored u) x \<and> Spec (stored w') = Spec x \<and> Status (stored w') = Status x))"
proof -
  have rel: "rely R r" and get: "calls R (rGet (vdbs r) ns n)" using assms(1) by (simp_all add: serves_def)
  obtain g w1 where g: "rGet (vdbs r) ns n w = (g, w1)" by fastforce
  with callsD [of R "rGet (vdbs r) ns n", OF get] have w1: "R\<^sup>*\<^sup>* w w1" by simp
  moreover have "\<exists>u. R\<^sup>*\<^sup>* w1 u \<and>
    (w' = u \<or> (\<exists>x. vdb_step r (stored u) x \<and> Spec (stored w') = Spec x \<and> Status (stored w') = Status x))"
  proof (cases g)
    case (Inl e)
    with Reconcile_not_read [OF rel [unfolded rely_def] _ _ assms(3)] g anywhere_covers(1) show ?thesis by blast
  next
    case (Inr v)
    then have v: "seen ver v (stored w1)" using assms(1) g by (simp add: serves_def)
    obtain d w2 where d: "plan r v w1 = (d, w2)" by fastforce
    with callsD [OF plan_within [OF rel]] have w2: "R\<^sup>*\<^sup>* w1 w2" by simp
    have e: "bindM (plan r v) (execute r) w1 = (result, w')" using assms(3) Reconcile_found g Inr by metis
    show ?thesis
    proof (cases "\<exists>x err. d = Ok (Some (x, err))")
      case False
      with d e have "w' = w2" by (cases d) (auto simp: bindM_def returnM_def execute_def split: option.splits)
      with w2 show ?thesis by blast
    next
      case True
      then obtain x err where x: "d = Ok (Some (x, err))" by blast
      with d e have w': "w' = snd (rUpdate (vdbs r) x w2)" by (simp add: bindM_def execute_world)
      from x d have "vdb_step r v x" by (auto intro: vdb_step.decided)
      from write_atomic [OF assms(1,2) v w2 this prod.collapse [symmetric]] w' show ?thesis by simp
    qed
  qed
  ultimately show ?thesis by (blast intro: rtranclp_trans)
qed

text \<open>A reconciliation that fails to read the object, or reads an outdated one, writes nothing of it.\<close>

lemma Reconcile_outdated:
  assumes "serves R ver stored r ns n" and "R \<le> others ver stored" and "Reconcile r ns n w = (result, w')"
    and "rGet (vdbs r) ns n w = (g, w1)" and "g \<noteq> Inr (stored w1)"
  shows "R\<^sup>*\<^sup>* w1 w'"
proof (cases g)
  case (Inl e)
  have "rely R r" using assms(1) by (simp add: serves_def)
  from Reconcile_not_read [OF this [unfolded rely_def] _ _ assms(3)] assms(4) Inl anywhere_covers(1) show ?thesis by blast
next
  case (Inr v)
  then have v: "keyOf v = keyOf (stored w1)" "ver (version v) < ver (version (stored w1))"
    using assms(1,4,5) by (auto simp: serves_def seen_def)
  obtain d w2 where d: "plan r v w1 = (d, w2)" by fastforce
  have "rely R r" using assms(1) by (simp add: serves_def)
  from callsD [OF plan_within [OF this] d] have w2: "R\<^sup>*\<^sup>* w1 w2" .
  note steps = others_rtranclp [OF steps_of_others [OF assms(2) w2]]
  have e: "bindM (plan r v) (execute r) w1 = (result, w')" using assms(3,4) Reconcile_found Inr by metis
  show ?thesis
  proof (cases "\<exists>x err. d = Ok (Some (x, err))")
    case False
    with d e have "w' = w2" by (cases d) (auto simp: bindM_def returnM_def execute_def split: option.splits)
    with w2 show ?thesis by simp
  next
    case True
    then obtain x err where x: "d = Ok (Some (x, err))" by blast
    with d e have w': "w' = snd (rUpdate (vdbs r) x w2)" by (simp add: bindM_def execute_world)
    from x d have meta: "vdb_Meta x = vdb_Meta v" by (auto intro!: vdb_step_meta vdb_step.decided)
    have "keyOf x = keyOf (stored w2)" using meta v(1) steps(2) by (simp add: keyOf_def)
    moreover have old: "version x \<noteq> version (stored w2)" using meta v(2) steps(4) by auto
    ultimately have "case rUpdate (vdbs r) x w2 of (Inl _, w') \<Rightarrow> R w2 w'
      | (Inr _, w') \<Rightarrow> version x = version (stored w2) \<and> Spec (stored w') = Spec x \<and> Status (stored w') = Status x"
      using assms(1) unfolding serves_def by simp
    with old have "R w2 w'"
      unfolding w' by (cases "rUpdate (vdbs r) x w2"; cases "fst (rUpdate (vdbs r) x w2)") simp_all
    with w2 show ?thesis by (rule rtranclp.rtrancl_into_rtrancl)
  qed
qed

section \<open>The whole system\<close>

text \<open>A step of the system is a reconciliation, from its start to its end, or a step of others.\<close>

inductive system_step :: "(string \<Rightarrow> nat) \<Rightarrow> ('w \<Rightarrow> VirtualDatabase) \<Rightarrow> 'w Reconciler \<Rightarrow> string \<Rightarrow> string \<Rightarrow> 'w \<Rightarrow> 'w \<Rightarrow> bool"
  for ver stored r ns n where
  reconciles: "Reconcile r ns n w = (result, w') \<Longrightarrow> system_step ver stored r ns n w w'"
| others: "others ver stored w w' \<Longrightarrow> system_step ver stored r ns n w w'"

inductive_cases system_stepE: "system_step ver stored r ns n w w'"

lemma system_step_atomic:
  assumes "api_server ver stored r ns n" and "system_step ver stored r ns n w w'"
  shows "Status (stored w') = Status (stored w) \<or>
    (\<exists>v x. Status v = Status (stored w) \<and> vdb_step r v x \<and> Spec (stored w') = Spec x \<and> Status (stored w') = Status x)"
  using assms(2)
proof cases
  case (reconciles result)
  obtain u where u: "(others ver stored)\<^sup>*\<^sup>* w u"
      "w' = u \<or> (\<exists>x. vdb_step r (stored u) x \<and> Spec (stored w') = Spec x \<and> Status (stored w') = Status x)"
    using Reconcile_atomic [OF assms(1) order_refl reconciles] by blast
  with others_rtranclp(1) [OF u(1)] show ?thesis by metis
next
  case others
  then show ?thesis by (auto simp: others_def)
qed

text \<open>As long as the digest in the status stays the same, the phase moves along the phase graph.\<close>

lemma system_step_phase:
  assumes "api_server ver stored r ns n" and "system_step ver stored r ns n w w'"
    and "Digest (Status (stored w')) = Digest (Status (stored w))"
  shows "phase_le (vdb_Phase (stored w)) (vdb_Phase (stored w'))"
proof -
  have "phase_le (vdb_Phase (stored w)) (vdb_Phase (stored w'))"
    if v: "Status v = Status (stored w)" "vdb_step r v x" "Status (stored w') = Status x" for v x
  proof (cases "IsVdbUpdated v")
    case True
    with vdb_step_good [OF v(2)] v assms(3) show ?thesis by (simp add: IsVdbUpdated_eq RedeployVdb_frame)
  next
    case False
    with vdb_step_good [OF v(2)] v show ?thesis by (simp add: goodStep_def phase_le_def)
  qed
  moreover have "phase_le (vdb_Phase (stored w)) (vdb_Phase (stored w'))" if "Status (stored w') = Status (stored w)"
    using that by (simp add: phase_le_def)
  ultimately show ?thesis using system_step_atomic [OF assms(1,2)] by blast
qed

lemma system_statusInv:
  assumes "api_server ver stored r ns n" and "Status (stored w) = emptyStatus" and "(system_step ver stored r ns n)\<^sup>*\<^sup>* w w'"
  shows "statusInv (stored w')"
  using assms(3)
proof (induction rule: rtranclp_induct)
  case base
  with assms(2) show ?case by (simp add: statusInv_def emptyStatus_def knownPhases_def pipeline_def)
next
  case (step u u')
  from system_step_atomic [OF assms(1) step.hyps(2)] step.IH show ?case by (metis statusInv_cong statusInv_step)
qed

end
