(* ===== verification/Liveness.thy ===== *)
theory Liveness
  imports Rely
begin

text \<open>
  What it takes for a virtual database to get to the running phase: a cluster in which the stages have
  what they wait for, described by what its API answers. Reads of these objects leave it unchanged, writes of the
  stored version of the virtual database are accepted, and the builds, the service, the key store and the deployment
  are there. Nothing is said of the reads of the virtual database: a reconciliation that reads its present state takes
  it to the next phase.
\<close>

section \<open>A cluster with everything in place\<close>

abbreviation sourceDigest :: "VirtualDatabase \<Rightarrow> string" where
  "sourceDigest v \<equiv> hashSum CHR ''v'' (digestInput v)"

text \<open>
  \<open>stored\<close> reads the virtual database off the state of the cluster. A write of the stored version is
  accepted; the server may set a new version, count the generation and fill in other metadata.
\<close>

definition store_works :: "'w Reconciler \<Rightarrow> ('w \<Rightarrow> VirtualDatabase) \<Rightarrow> bool" where
  "store_works r stored \<longleftrightarrow>
     (\<forall>u w. keyOf u = keyOf (stored w) \<longrightarrow> version u = version (stored w) \<longrightarrow>
        (\<exists>w'. rUpdate (vdbs r) u w = (Inr (stored w'), w') \<and> Spec (stored w') = Spec u \<and> Status (stored w') = Status u \<and>
           vdb_Name (stored w') = vdb_Name u \<and> vdb_Namespace (stored w') = vdb_Namespace u))"

lemma store_writes:
  assumes "store_works r stored" and "vdb_Meta u = vdb_Meta (stored w)"
  obtains w' where "rUpdate (vdbs r) u w = (Inr (stored w'), w')" "Spec (stored w') = Spec u" "Status (stored w') = Status u"
    "vdb_Name (stored w') = vdb_Name u" "vdb_Namespace (stored w') = vdb_Namespace u"
proof -
  have "keyOf u = keyOf (stored w)" "version u = version (stored w)" using assms(2) by (simp_all add: keyOf_def)
  with assms(1) that show thesis unfolding store_works_def by blast
qed

definition quiet :: "'w Reconciler \<Rightarrow> bool" where
  "quiet r \<longleftrightarrow> pure_reads r \<and> (\<forall>ks w. snd (rangeKeys r ks w) = w) \<and>
     (\<exists>gs. (\<forall>w. ServerGroups r w = (Inr gs, w)) \<and> \<not> list_ex (\<lambda>g. Contains g ''infinispan.org'') gs)"

definition images_ready :: "'w Reconciler \<Rightarrow> string \<Rightarrow> bool" where
  "images_ready r ns \<longleftrightarrow>
     (\<forall>n. \<exists>x. \<forall>w. rGet (imageStreams r) ns n w = (Inr x, w)) \<and>
     (\<forall>n. \<exists>x. \<forall>w. rGet (imageStreamTags r) ns n w = (Inr x, w)) \<and>
     (\<exists>bc. LastVersion bc \<noteq> 0 \<and> (\<forall>w. rGet (buildConfigs r) ns BuilderImageTargetName w = (Inr bc, w))) \<and>
     (\<forall>sel. \<exists>b. build_Phase b = BuildPhaseComplete \<and> 0 < buildNumber b \<and> (\<forall>w. rList (builds r) ns sel w = (Inr [b], w)))"

definition deployed :: "'w Reconciler \<Rightarrow> string \<Rightarrow> string \<Rightarrow> string \<Rightarrow> bool" where
  "deployed r ns n digest \<longleftrightarrow>
     (\<exists>bc st d to dc c cs.
        (\<forall>w. rGet (buildConfigs r) ns n w = (Inr bc, w)) \<and> LastVersion bc \<noteq> 0 \<and> SourceStrategy bc = Some st \<and>
        Get (strategy_Env st) ''DIGEST'' = Some d \<and> ev_Value d = digest \<and> OutputTo bc = Some to \<and>
        (\<forall>w. rGet (deployments r) ns n w = (Inr dc, w)) \<and> Containers (Template dc) = c # cs \<and> Image c = ref_Name to \<and>
        hasCondition ''Available'' dc) \<and>
     (\<forall>m k w. snd (rGet (deployments r) m k w) = w) \<and>
     (\<exists>s. \<forall>w. rGet (services r) ns n w = (Inr s, w)) \<and>
     (\<exists>s. \<forall>w. rGet (secrets r) ns (n @ ''-keystore'') w = (Inr s, w))"

definition valid_config :: "'w Reconciler \<Rightarrow> VirtualDatabase \<Rightarrow> bool" where
  "valid_config r v \<longleftrightarrow>
     ValidateEnvironmentPropertyNames (spec_Env (Spec v)) = None \<and>
     (\<forall>w. list_all (refExists r (vdb_Namespace v) w) (spec_Env (Spec v))) \<and>
     (\<forall>w. list_all (\<lambda>d. list_all (refExists r (vdb_Namespace v) w) (Properties d)) (DataSources (Spec v))) \<and>
     DDL (vdb_Source v) \<noteq> [] \<and> CHR '':'' \<notin> set (vdb_Name v)"

section \<open>One stage after the other\<close>

text \<open>The stored object is \<open>v\<close>, digested, in phase \<open>p\<close>.\<close>

definition at_phase :: "VirtualDatabase \<Rightarrow> ReconcilerPhase \<Rightarrow> VirtualDatabase \<Rightarrow> bool" where
  "at_phase v p u \<longleftrightarrow>
     vdb_Name u = vdb_Name v \<and> vdb_Namespace u = vdb_Namespace v \<and> keeps v (u\<lparr>vdb_Meta := vdb_Meta v\<rparr>) \<and>
     Digest (Status u) = sourceDigest v \<and> vdb_Phase u = p"

lemma at_phase_digestInput: "at_phase v p u \<Longrightarrow> digestInput u = digestInput v"
  using digestInput_keeps [of v "u\<lparr>vdb_Meta := vdb_Meta v\<rparr>"] by (simp add: at_phase_def digestInput_def)

lemma at_phase_not_updated: "at_phase v p u \<Longrightarrow> \<not> IsVdbUpdated u"
  using at_phase_digestInput [of v p u] by (simp add: at_phase_def IsVdbUpdated_eq)

lemma at_phase_setPhase [simp]: "at_phase v p (setPhase q u) \<longleftrightarrow> p = q \<and> at_phase v (vdb_Phase u) u"
  by (auto simp: at_phase_def keeps_def)

lemma at_phase_keeps:
  "at_phase v p u \<Longrightarrow> keeps u u' \<Longrightarrow> Digest (Status u') = sourceDigest v \<Longrightarrow> vdb_Phase u' = q \<Longrightarrow> at_phase v q u'"
  by (auto simp: at_phase_def keeps_def)

lemma at_phase_stored:
  "at_phase v p u \<Longrightarrow> Spec u' = Spec u \<Longrightarrow> Status u' = Status u \<Longrightarrow> vdb_Name u' = vdb_Name u \<Longrightarrow>
     vdb_Namespace u' = vdb_Namespace u \<Longrightarrow> at_phase v p u'"
  by (simp add: at_phase_def keeps_def)

lemma at_phase_source:
  assumes "at_phase v p u"
  shows "vdb_Name u = vdb_Name v" "vdb_Namespace u = vdb_Namespace v" "vdb_Source u = vdb_Source v"
    "spec_Env (Spec u) = spec_Env (Spec v)" "DataSources (Spec u) = DataSources (Spec v)"
  using assms by (auto simp: at_phase_def keeps_def)

lemma pure_RevisionOf: "pure_reads r \<Longrightarrow> snd (RevisionOfConfigMapOrSecret r ns e w) = w"
  unfolding RevisionOfConfigMapOrSecret_def pure_reads_def
  by (auto simp: reads bindM_def returnM_def getM_def callM_def split: option.split prod.split res.split)
    (metis prod.sel(2))+

definition pureM :: "('w, 'a) M \<Rightarrow> bool" where
  "pureM m \<longleftrightarrow> (\<forall>w. snd (m w) = w)"

lemma pureM_returnM [simp]: "pureM (returnM x)"
  by (simp add: pureM_def returnM_def)

lemma pureM_bindM: "pureM m \<Longrightarrow> (\<And>x. pureM (f x)) \<Longrightarrow> pureM (bindM m f)"
  unfolding pureM_def bindM_def by (auto split: prod.split res.split) (metis snd_conv)+

lemma pureM_eq: "pureM m \<Longrightarrow> \<exists>x. m w = (x, w)"
  unfolding pureM_def by (metis prod.collapse)

lemma pure_ComputeConfigDigest:
  assumes "pure_reads r"
  shows "pureM (ComputeConfigDigest r v)"
proof -
  have 0: "pureM (RevisionOfConfigMapOrSecret r ns e)" for ns e
    using pure_RevisionOf [OF assms] by (simp add: pureM_def)
  have 1: "pureM (writeRevisions r ns es h)" for ns es h
    by (induction es arbitrary: h) (simp_all add: pureM_bindM 0)
  have 2: "pureM (writeSources r ns ds h)" for ns ds h
    by (induction ds arbitrary: h) (simp_all add: pureM_bindM 1)
  show ?thesis unfolding ComputeConfigDigest_def by (intro pureM_bindM 1 2) simp
qed

text \<open>The first stage checks the configuration; its result may be the error of the configuration digest.\<close>

lemma initialize_moves:
  assumes "quiet r" and "valid_config r v" and "at_phase v ReconcilerPhaseInitial u"
  shows "\<exists>res u'. initialize_Handle r (u, w) = (res, u', w) \<and> (\<forall>p. res \<noteq> Panic p) \<and>
    at_phase v ReconcilerPhaseCreateCacheStore u'"
proof -
  note pure = env_exists_pure [of r] sourcesExist_pure [of r]
  let ?s = "setDigest (hashSum CHR ''v'' (digestInput u))
      (initialize_init (setPhase ReconcilerPhaseCreateCacheStore (setFailure [] u)))"
  have r: "pure_reads r" using assms(1) by (simp add: quiet_def)
  have u: "vdb_Phase u = ReconcilerPhaseInitial" using assms(3) by (simp add: at_phase_def)
  note same = at_phase_source [OF assms(3)]
  obtain x where x: "ComputeConfigDigest r ?s w = (x, w)" "\<forall>p. x \<noteq> Panic p"
    using pureM_eq [OF pure_ComputeConfigDigest [OF r]] noPanic_digest unfolding noPanic_def by (metis fst_conv)
  have "keeps u (initialize_init (setPhase ReconcilerPhaseCreateCacheStore (setFailure [] u)))"
    by (intro keeps_initialize_init) simp
  then have at: "at_phase v ReconcilerPhaseCreateCacheStore (setConfigDigest d ?s)" for d
    by (intro at_phase_keeps [OF assms(3)]) (simp_all add: at_phase_digestInput [OF assms(3)])
  show ?thesis
  proof (cases x)
    case (Ok d)
    then have "initialize_Handle r (u, w) = (Ok (), setConfigDigest d ?s, w)"
      using assms(2) u x(1)
      by (simp add: initialize_Handle_def ComputeForVirtualDatabase_eq bindM_def tryM_def getV_def modV_def liftW_def
          pure r valid_config_def same)
    with at show ?thesis by blast
  next
    case (Fail e)
    then have "initialize_Handle r (u, w) = (Fail e, setConfigDigest [] ?s, w)"
      using assms(2) u x(1)
      by (simp add: initialize_Handle_def ComputeForVirtualDatabase_eq bindM_def tryM_def getV_def modV_def liftW_def failM_def
          pure r valid_config_def same)
    with at show ?thesis by blast
  qed (use x in blast)
qed

lemma cacheStore_moves:
  assumes "quiet r"
  shows "cacheStore_Handle r (u, w) = (Ok (), setPhase ReconcilerPhaseS2IReady u, w)"
proof -
  have "IsInfinispanOperatorAvailable r ns w = (Ok False, w)" for ns
    using assms by (cases "Discovery r") (auto simp: quiet_def IsInfinispanOperatorAvailable_def IsInfinispanCRDAvailable_def
        HasServerGroup_def bindM_def tryM_def returnM_def callM_def)
  then have "IgnoreCacheStore r u w = (Ok True, w)"
    by (simp add: IgnoreCacheStore_def tryM_def returnM_def Let_def)
  then show ?thesis by (simp add: cacheStore_Handle_def bindM_def getV_def liftW_def modV_def)
qed

lemma quiet_javaProperties:
  assumes "quiet r"
  shows "\<exists>p. javaProperties r jp w = (Ok p, w)"
proof -
  obtain m w' where m: "rangeM r jp w = (Ok m, w')" using rangeM_total [of r jp w] by blast
  moreover have "w' = w" using assms m by (auto simp: quiet_def rangeM_def split: prod.splits) (metis snd_conv)
  ultimately show ?thesis by (simp add: javaProperties_def bindM_def returnM_def)
qed

lemma images_ready_stream:
  assumes "images_ready r ns"
  shows "CheckImageStream r m ns w = (Ok True, w)"
proof -
  obtain x where "\<forall>w. rGet (imageStreams r) ns (hd (Split m CHR '':'')) w = (Inr x, w)"
    using assms unfolding images_ready_def by blast
  then show ?thesis by (simp add: CheckImageStream_def Let_def tryM_def returnM_def getM_def callM_def)
qed

lemma s2i_buildBC_ready:
  assumes "quiet r" and "images_ready r (vdb_Namespace u)"
  shows "\<exists>bc st. s2i_buildBC r u w = (Ok bc, w) \<and> SourceStrategy bc = Some st \<and> ref_Namespace (From st) = vdb_Namespace u \<and>
    bc_Meta bc = objectMeta BuilderImageTargetName (vdb_Namespace u)"
proof -
  obtain envs jp where h: "HTTPSettings (osenv r) [] = (envs, jp)" by fastforce
  obtain p where "javaProperties r jp w = (Ok p, w)" using quiet_javaProperties [OF assms(1), of jp w] by blast
  then show ?thesis
    by (simp add: s2i_buildBC_def h bindM_def images_ready_stream [OF assms(2)] returnM_def Let_def emptyBuildConfig_def)
qed

lemma s2i_starts:
  assumes "quiet r" and "images_ready r (vdb_Namespace u)" and "deployed r ns n d" and "vdb_Phase u = ReconcilerPhaseS2IReady"
  shows "s2i_Handle r (u, w) = (Ok (), setPhase ReconcilerPhaseBuilderImage u, w)"
proof -
  obtain bc st where bc: "s2i_buildBC r u w = (Ok bc, w)" "SourceStrategy bc = Some st" "ref_Namespace (From st) = vdb_Namespace u"
      "bc_Meta bc = objectMeta BuilderImageTargetName (vdb_Namespace u)"
    using s2i_buildBC_ready [OF assms(1,2), of w] by blast
  obtain x where x: "\<forall>w. rGet (imageStreamTags r) (vdb_Namespace u) (ref_Name (From st)) w = (Inr x, w)"
    using assms(2) unfolding images_ready_def by blast
  obtain bc' where bc': "LastVersion bc' \<noteq> 0" "\<forall>w. rGet (buildConfigs r) (vdb_Namespace u) BuilderImageTargetName w = (Inr bc', w)"
    using assms(2) unfolding images_ready_def by blast
  obtain b where b: "build_Phase b = BuildPhaseComplete"
      "\<forall>w. rList (builds r) (vdb_Namespace u) (Some (''buildconfig'', BuilderImageTargetName)) w = (Inr [b], w)"
    using assms(2) unfolding images_ready_def by blast
  obtain dres where dres: "rGet (deployments r) (Getenv (osenv r) ''WATCH_NAMESPACE'') (Getenv (osenv r) ''OPERATOR_NAME'') w = (dres, w)"
    using assms(3) unfolding deployed_def by (metis prod.collapse)
  have "s2i_prepare r u w = (Ok (), w)"
    using bc x bc' b
    by (cases dres) (simp_all add: s2i_prepare_def dres Let_def bindM_def tryM_def returnM_def getM_def listM_def callM_def
        EnsureImageStream_def images_ready_stream [OF assms(2)] objectMeta_def getBuilds_def buildFailed_def)
  with assms(4) show ?thesis by (simp add: s2i_Handle_def bindM_def getV_def liftW_def modV_def)
qed

lemma s2i_finishes:
  assumes "images_ready r (vdb_Namespace u)" and "vdb_Phase u = ReconcilerPhaseBuilderImage"
  shows "s2i_Handle r (u, w) = (Ok (), setPhase ReconcilerPhaseBuilderImageFinished u, w)"
proof -
  obtain b where "build_Phase b = BuildPhaseComplete"
      "\<forall>w. rList (builds r) (vdb_Namespace u) (Some (''buildconfig'', BuilderImageTargetName)) w = (Inr [b], w)"
    using assms(1) unfolding images_ready_def by blast
  with assms(2) show ?thesis
    by (simp add: s2i_Handle_def getBuilds_def builderStep_def bindM_def getV_def liftW_def modV_def listM_def callM_def)
qed

lemma service_starts:
  assumes "images_ready r (vdb_Namespace u)" and "deployed r (vdb_Namespace u) (vdb_Name u) (Digest (Status u))"
    and "DDL (vdb_Source u) \<noteq> []" and "CHR '':'' \<notin> set (vdb_Name u)" and "vdb_Phase u = ReconcilerPhaseBuilderImageFinished"
  shows "service_Handle r (u, w) = (Ok (), setPhase ReconcilerPhaseServiceImage u, w)"
proof -
  obtain x where x: "\<forall>w. rGet (imageStreams r) (vdb_Namespace u) (vdb_Name u) w = (Inr x, w)"
    using assms(1) unfolding images_ready_def by blast
  obtain bc st d where bc: "\<forall>w. rGet (buildConfigs r) (vdb_Namespace u) (vdb_Name u) w = (Inr bc, w)" "LastVersion bc \<noteq> 0"
      "SourceStrategy bc = Some st" "Get (strategy_Env st) ''DIGEST'' = Some d" "ev_Value d = Digest (Status u)"
    using assms(2) unfolding deployed_def by blast
  have "buildServiceImage r (setPhase ReconcilerPhaseServiceImage u) w = (Ok (), w)"
    using assms(3,4) x bc
    by (intro buildServiceImage_current [where bc = bc and st = st and d = d and ims = x]) simp_all
  with assms(5) show ?thesis
    by (simp add: service_Handle_def bindM_def tryM_def getV_def liftW_def modV_def returnM_def)
qed

lemma service_finishes:
  assumes "images_ready r (vdb_Namespace u)" and "vdb_Phase u = ReconcilerPhaseServiceImage"
  shows "service_Handle r (u, w) = (Ok (), setPhase ReconcilerPhaseServiceImageFinished u, w)"
proof -
  obtain b where "build_Phase b = BuildPhaseComplete" "0 < buildNumber b"
      "\<forall>w. rList (builds r) (vdb_Namespace u) (Some (''buildconfig'', vdb_Name u)) w = (Inr [b], w)"
    using assms(1) unfolding images_ready_def by blast
  with assms(2) show ?thesis
    by (simp add: service_Handle_def monitorServiceImage_def servicePhase_def bindM_def getV_def liftW_def modV_def listM_def callM_def)
qed

lemma createService_moves:
  assumes "quiet r" and "deployed r (vdb_Namespace u) (vdb_Name u) d"
  shows "createService_Handle r (u, w) = (Ok (), setPhase ReconcilerPhaseServiceCreated u, w)"
proof -
  obtain s where "rGet (services r) (vdb_Namespace u) (vdb_Name u) w = (Inr s, w)"
    using assms(2) unfolding deployed_def by blast
  moreover obtain x where "rGet (secrets r) (vdb_Namespace u) (vdb_Name u) w = (x, w)"
    using assms(1) unfolding quiet_def pure_reads_def by (metis prod.collapse)
  ultimately show ?thesis
    by (cases x) (simp_all add: createService_Handle_def findSecret_def GetService_def bindM_def tryM_def getV_def liftW_def
        modV_def returnM_def getM_def callM_def)
qed

lemma createCertificate_moves:
  assumes "deployed r (vdb_Namespace u) (vdb_Name u) d"
  shows "createCertificate_Handle r (u, w) = (Ok (), setPhase ReconcilerPhaseKeystoreCreated u, w)"
proof -
  obtain s where "\<forall>w. rGet (secrets r) (vdb_Namespace u) (vdb_Name u @ ''-keystore'') w = (Inr s, w)"
    using assms unfolding deployed_def by blast
  then show ?thesis
    by (simp add: createCertificate_Handle_def GetSecret_def getKeystoreSecretName_def bindM_def tryM_def getV_def liftW_def
        modV_def getM_def callM_def)
qed

lemma deployment_moves:
  assumes "deployed r (vdb_Namespace u) (vdb_Name u) d"
  shows "vdb_Phase u = ReconcilerPhaseKeystoreCreated \<Longrightarrow>
      deployment_Handle r (u, w) = (Ok (), setPhase ReconcilerPhaseDeploying u, w)"
    and "vdb_Phase u = ReconcilerPhaseDeploying \<Longrightarrow>
      deployment_Handle r (u, w) = (Ok (), setPhase ReconcilerPhaseRunning u, w)"
proof -
  obtain bc to dc c cs where bc: "\<forall>w. rGet (buildConfigs r) (vdb_Namespace u) (vdb_Name u) w = (Inr bc, w)" "OutputTo bc = Some to"
      "\<forall>w. rGet (deployments r) (vdb_Namespace u) (vdb_Name u) w = (Inr dc, w)" "Containers (Template dc) = c # cs"
      "Image c = ref_Name to" and available: "hasCondition ''Available'' dc"
    using assms unfolding deployed_def by blast
  have "isDeploymentInReadyState dc" using available by (auto simp: isDeploymentInReadyState_def hasCondition_def)
  moreover have "rollout r u w = (Ok (), w)"
    using bc by (simp add: rollout_def findDC_def bindM_def tryM_def returnM_def getM_def callM_def)
  moreover have "findItem r u w = (Ok dc, w)"
    using bc by (simp add: findItem_def findDC_def tryM_def returnM_def getM_def callM_def)
  ultimately show "vdb_Phase u = ReconcilerPhaseKeystoreCreated \<Longrightarrow>
      deployment_Handle r (u, w) = (Ok (), setPhase ReconcilerPhaseDeploying u, w)"
    "vdb_Phase u = ReconcilerPhaseDeploying \<Longrightarrow>
      deployment_Handle r (u, w) = (Ok (), setPhase ReconcilerPhaseRunning u, w)"
    by (simp_all add: deployment_Handle_def bindM_def getV_def liftW_def modV_def)
qed

section \<open>The whole way\<close>

definition in_place :: "'w Reconciler \<Rightarrow> ('w \<Rightarrow> VirtualDatabase) \<Rightarrow> VirtualDatabase \<Rightarrow> bool" where
  "in_place r stored v \<longleftrightarrow>
     store_works r stored \<and> quiet r \<and> images_ready r (vdb_Namespace v) \<and>
     deployed r (vdb_Namespace v) (vdb_Name v) (sourceDigest v) \<and> valid_config r v"

text \<open>The position of the action of each stage among the steps.\<close>

definition stepOf :: "nat \<Rightarrow> nat" where
  "stepOf i = [0, 1, 2, 2, 3, 3, 4, 5, 6, 6] ! i"

lemma below_10: "i < 10 \<longleftrightarrow> i = 0 \<or> i = 1 \<or> i = 2 \<or> i = 3 \<or> i = 4 \<or> i = 5 \<or> i = 6 \<or> i = 7 \<or> i = 8 \<or> i = (9 :: nat)"
  by presburger

lemma stepOf_handles:
  assumes "vdb_Phase u = pipeline ! i" and "i < 10"
  shows "stepOf i < length (buildSteps r) \<and> list_all (\<lambda>a. \<not> CanHandle a u) (take (stepOf i) (buildSteps r)) \<and>
    CanHandle (buildSteps r ! stepOf i) u \<and> pipeline ! i \<noteq> pipeline ! Suc i"
  using assms unfolding below_10 by (elim disjE) (simp_all add: pipeline_def buildSteps_def new_action stepOf_def can_handle)

lemma stage_moves:
  assumes "in_place r stored v" and "at_phase v (pipeline ! i) u" and "i < 10" and "i \<noteq> 0"
  shows "Handle (buildSteps r ! stepOf i) (u, w) = (Ok (), setPhase (pipeline ! Suc i) u, w)"
proof -
  have q: "quiet r" and im: "images_ready r (vdb_Namespace u)"
    and de: "deployed r (vdb_Namespace u) (vdb_Name u) (Digest (Status u))" and vc: "DDL (vdb_Source u) \<noteq> []" "CHR '':'' \<notin> set (vdb_Name u)"
    using assms(1,2) at_phase_source [OF assms(2)] by (simp_all add: in_place_def at_phase_def valid_config_def)
  note stages = cacheStore_moves [OF q] s2i_starts [OF q im de] s2i_finishes [OF im] service_starts [OF im de vc]
    service_finishes [OF im] createService_moves [OF q de] createCertificate_moves [OF de] deployment_moves [OF de]
  have "vdb_Phase u = pipeline ! i" using assms(2) by (simp add: at_phase_def)
  with assms(3,4) show ?thesis
    unfolding below_10 by (elim disjE) (simp_all add: pipeline_def buildSteps_def new_action stepOf_def stages)
qed

text \<open>The plan for an object in one phase is to store it in the next.\<close>

lemma plan_moves:
  assumes "in_place r stored v" and "at_phase v (pipeline ! i) u" and "i < 10"
  shows "\<exists>u' err. plan r u w = (Ok (Some (u', err)), w) \<and> at_phase v (pipeline ! Suc i) u'"
proof -
  let ?a = "buildSteps r ! stepOf i"
  have ph: "vdb_Phase u = pipeline ! i" using assms(2) by (simp add: at_phase_def)
  note h = stepOf_handles [OF ph assms(3), of r]
  have "\<exists>res u'. Handle ?a (u, w) = (res, u', w) \<and> (\<forall>p. res \<noteq> Panic p) \<and> at_phase v (pipeline ! Suc i) u'"
  proof (cases "i = 0")
    case True
    then show ?thesis
      using initialize_moves [of r v u w] assms(1,2) by (simp add: in_place_def pipeline_def buildSteps_def new_action stepOf_def)
  next
    case False
    with stage_moves [OF assms] assms(2) ph show ?thesis by simp
  qed
  then obtain res u' where a: "Handle ?a (u, w) = (res, u', w)" "\<forall>p. res \<noteq> Panic p" "at_phase v (pipeline ! Suc i) u'"
    by blast
  define err where "err = (case res of Fail e \<Rightarrow> Some e | _ \<Rightarrow> None)"
  have "res = Ok () \<and> err = None \<or> (\<exists>e. res = Fail e \<and> err = Some e)" using a(2) by (cases res) (simp_all add: err_def)
  moreover have "hasChanges u u'" using ph a(3) h by (auto simp: at_phase_def hasChanges_def)
  moreover have "buildSteps r = take (stepOf i) (buildSteps r) @ ?a # drop (Suc (stepOf i)) (buildSteps r)"
    using h by (simp add: id_take_nth_drop)
  ultimately have "planSteps u (buildSteps r) u w = (Ok (Some (u', err)), w)"
    using h a(1) planSteps_decides [of "buildSteps r" _ ?a _ u w res u' w err] by blast
  with a(3) at_phase_not_updated [OF assms(2)] show ?thesis by (auto simp: plan_def)
qed

text \<open>A reconciliation of an object in one phase, read in its present state, takes it to the next.\<close>

lemma advance:
  assumes "in_place r stored v" and "at_phase v (pipeline ! i) (stored w1)" and "i < 10"
    and "rGet (vdbs r) (vdb_Namespace v) (vdb_Name v) w = (Inr (stored w1), w1)"
  shows "at_phase v (pipeline ! Suc i) (stored (snd (Reconcile r (vdb_Namespace v) (vdb_Name v) w)))"
proof -
  have st: "store_works r stored" using assms(1) by (simp add: in_place_def)
  obtain u err where u: "plan r (stored w1) w1 = (Ok (Some (u, err)), w1)" "at_phase v (pipeline ! Suc i) u"
    using plan_moves [OF assms(1-3)] by blast
  have "vdb_Meta u = vdb_Meta (stored w1)"
    by (rule vdb_step_meta [where r = r]) (rule vdb_step.decided [OF u(1)])
  from store_writes [OF st this] obtain w' where w': "rUpdate (vdbs r) u w1 = (Inr (stored w'), w')"
      "Spec (stored w') = Spec u" "Status (stored w') = Status u" "vdb_Name (stored w') = vdb_Name u"
      "vdb_Namespace (stored w') = vdb_Namespace u" .
  then have "snd (Reconcile r (vdb_Namespace v) (vdb_Name v) w) = w'"
    using assms(4) u by (cases err) (simp_all add: Reconcile_found bindM_def updateM_def callM_def returnM_def failM_def)
  with at_phase_stored [OF u(2) w'(2-5)] show ?thesis by simp
qed

lemma redeploy_at_phase: "at_phase v ReconcilerPhaseInitial (RedeployVdb v)"
  by (simp add: at_phase_def RedeployVdb_frame keeps_def)

text \<open>The first reconciliation of an object whose sources changed stores it with its new digest.\<close>

lemma begins:
  assumes "in_place r stored v" and "stored w1 = v" and "IsVdbUpdated v"
    and "rGet (vdbs r) (vdb_Namespace v) (vdb_Name v) w = (Inr (stored w1), w1)"
  shows "at_phase v ReconcilerPhaseInitial (stored (snd (Reconcile r (vdb_Namespace v) (vdb_Name v) w)))"
proof -
  have st: "store_works r stored" using assms(1) by (simp add: in_place_def)
  have "vdb_Meta (RedeployVdb v) = vdb_Meta (stored w1)" using assms(2) RedeployVdb_frame(1) [of v] by simp
  from store_writes [OF st this] obtain w' where w': "rUpdate (vdbs r) (RedeployVdb v) w1 = (Inr (stored w'), w')"
      "Spec (stored w') = Spec (RedeployVdb v)" "Status (stored w') = Status (RedeployVdb v)"
      "vdb_Name (stored w') = vdb_Name (RedeployVdb v)" "vdb_Namespace (stored w') = vdb_Namespace (RedeployVdb v)" .
  then have "snd (Reconcile r (vdb_Namespace v) (vdb_Name v) w) = w'"
    using assms(2-4) by (simp add: Reconcile_found plan_def bindM_def updateM_def callM_def returnM_def)
  with at_phase_stored [OF redeploy_at_phase w'(2-5)] show ?thesis by simp
qed

section \<open>Examples\<close>

text \<open>A cluster that stores one virtual database and has everything else in place.\<close>

definition shop :: VirtualDatabase where
  "shop = (withDDL ''CREATE DATABASE shop;'' emptyVdb)\<lparr>vdb_Meta := objectMeta ''shop'' ''ns''\<rparr>"

definition nextVersion :: "VirtualDatabase \<Rightarrow> VirtualDatabase" where
  "nextVersion v = v\<lparr>vdb_Meta := (vdb_Meta v)\<lparr>ResourceVersion := version v @ ''1''\<rparr>\<rparr>"

definition versionedStore :: "(VirtualDatabase, VirtualDatabase) resource_client" where
  "versionedStore =
     \<lparr>rGet = (\<lambda>ns n w. (Inr w, w)), rList = (\<lambda>ns sel w. (Inr [w], w)), rCreate = (\<lambda>x w. (Inr x, x)),
      rUpdate = (\<lambda>x w. if version x = version w then (Inr (nextVersion x), nextVersion x) else (Inl (Conflict ''modified''), w)),
      rDelete = (\<lambda>x w. (Inr (), w))\<rparr>"

definition readyHost :: "'w Reconciler" where
  "readyHost = emptyCluster\<lparr>
     secrets := constClient \<lparr>sec_Meta = objectMeta ''shop-keystore'' ''ns'', sec_Type = [], sec_Data = [], StringData = []\<rparr>,
     services := constClient \<lparr>svc_Meta = objectMeta ''shop'' ''ns'', svc_Selector = [], svc_Type = [], svc_Ports = [],
       SessionAffinity = [], AffinityTimeout = None\<rparr>,
     deployments := constClient ((newDeployment shop [] [] ''shop:latest'')\<lparr>Conditions :=
       [\<lparr>cond_Type = ''Available'', cond_Status = ''True''\<rparr>]\<rparr>),
     buildConfigs := constClient ((emptyBuildConfig ''shop'' ''ns'')\<lparr>LastVersion := 1,
       OutputTo := Some \<lparr>ref_Kind = ''ImageStreamTag'', ref_Name = ''shop:latest'', ref_Namespace = []\<rparr>,
       SourceStrategy := Some \<lparr>From = \<lparr>ref_Kind = [], ref_Name = [], ref_Namespace = []\<rparr>, Incremental = None,
         ForcePull = False, strategy_Env = [plainEnv ''DIGEST'' (sourceDigest shop)]\<rparr>\<rparr>),
     builds := constClient (emptyBuild\<lparr>build_Phase := BuildPhaseComplete,
       build_Meta := (objectMeta ''b'' ''ns'')\<lparr>Annotations := Some [(''openshift.io/build.number'', ''1'')]\<rparr>\<rparr>),
     imageStreams := constClient (imageStream ''shop'' ''ns''), imageStreamTags := constClient (imageStream ''shop'' ''ns'')\<rparr>"

definition readyCluster :: "VirtualDatabase Reconciler" where
  "readyCluster = readyHost\<lparr>vdbs := versionedStore\<rparr>"

lemma shop_simps:
  "vdb_Name shop = ''shop''" "vdb_Namespace shop = ''ns''" "spec_Env (Spec shop) = []" "DataSources (Spec shop) = []"
  "DDL (vdb_Source shop) \<noteq> []" "Status shop = emptyStatus"
  by (simp_all add: shop_def emptyVdb_def emptySpec_def objectMeta_def)

text \<open>The parts of the cluster answer alike for every name, so they serve any virtual database of these sources.\<close>

lemma readyHost_in_place:
  assumes "store_works (readyHost\<lparr>vdbs := c\<rparr>) stored" and "Spec v = Spec shop" and "CHR '':'' \<notin> set (vdb_Name v)"
  shows "in_place (readyHost\<lparr>vdbs := c\<rparr>) stored v"
proof -
  let ?r = "readyHost\<lparr>vdbs := c\<rparr>"
  have "quiet ?r"
    by (simp add: quiet_def pure_reads_def readyHost_def emptyCluster_def constClient_def emptyClient_def)
  moreover have "images_ready ?r ns" for ns
  proof -
    have "0 < fst (Atoi ''1'')" by code_simp
    then show ?thesis
      by (simp add: images_ready_def readyHost_def constClient_def annotation_def mapGet_def)
  qed
  moreover have "deployed ?r ns n (sourceDigest shop)" for ns n
    by (simp add: deployed_def readyHost_def constClient_def plainEnv_def newDeployment_def hasCondition_def)
  moreover have "digestInput v = digestInput shop" by (rule digestInput_cong) (rule assms(2))
  moreover have "valid_config ?r v" using assms(2,3) by (simp add: valid_config_def shop_simps)
  ultimately show ?thesis using assms(1) by (simp add: in_place_def)
qed

lemma readyHost_rely: "rely R (readyHost\<lparr>vdbs := c\<rparr>)"
proof -
  have const: "client_within R meta (allowed anywhere k) (constClient x)" "reads_within R (constClient x)"
    and empty: "client_within R meta (allowed anywhere k) emptyClient" "reads_within R emptyClient" for meta k x
    by (simp_all add: client_within_def reads_within_def constClient_def emptyClient_def within_def)
  show ?thesis
    unfolding rely_def permits_def host_within_def
    by (simp add: readyHost_def emptyCluster_def const empty) (simp add: within_def nothing_def)
qed

end
