(* ===== verification/Fleet.thy ===== *)
theory Fleet
  imports Liveness
begin

text \<open>
  Many virtual databases on one API server. The store has an object per namespace and name; reconciliations of
  any of them and steps of other clients interleave. To one virtual database a reconciliation of another is a
  sequence of steps of others (\<open>Reconcile_others\<close>), so what \<open>Rely\<close> shows of one virtual database and its
  other clients holds for every member of a fleet, and the members reach the running phase under every schedule
  that comes back to them often enough. The operator reads through a cache, so a reconciliation may work on an outdated object.
\<close>

section \<open>The server\<close>

type_synonym key = "string \<times> string"

text \<open>
  \<open>stored k\<close> reads the object of namespace and name \<open>k\<close> off the world, and \<open>R k\<close> is what happens to it besides the
  accepted writes of the operator. As in \<open>serves\<close>, calls may coincide with such steps for all keys, a read answers
  with the stored object or an earlier version of it, and a write is accepted only for the stored version; it
  replaces the object of its own key.
\<close>

definition fleet_serves :: "(key \<Rightarrow> 'w \<Rightarrow> 'w \<Rightarrow> bool) \<Rightarrow> (string \<Rightarrow> nat) \<Rightarrow> (key \<Rightarrow> 'w \<Rightarrow> VirtualDatabase) \<Rightarrow> 'w Reconciler \<Rightarrow> bool" where
  "fleet_serves R ver stored r \<longleftrightarrow>
     (\<forall>k w. keyOf (stored k w) = k) \<and>
     rely (\<lambda>w w'. \<forall>k. R k w w') r \<and>
     (\<forall>ns n. calls (\<lambda>w w'. \<forall>k. R k w w') (rGet (vdbs r) ns n)) \<and>
     (\<forall>ns n w v w'. rGet (vdbs r) ns n w = (Inr v, w') \<longrightarrow> seen ver v (stored (ns, n) w')) \<and>
     (\<forall>x w. case rUpdate (vdbs r) x w of
        (Inl _, w') \<Rightarrow> \<forall>k. R k w w'
      | (Inr _, w') \<Rightarrow>
          version x = version (stored (keyOf x) w) \<and> Spec (stored (keyOf x) w') = Spec x \<and>
          Status (stored (keyOf x) w') = Status x \<and> (\<forall>k. k \<noteq> keyOf x \<longrightarrow> R k w w'))"

text \<open>A step in which every virtual database is left alone or edited by somebody else.\<close>

definition others_all :: "(string \<Rightarrow> nat) \<Rightarrow> (key \<Rightarrow> 'w \<Rightarrow> VirtualDatabase) \<Rightarrow> 'w \<Rightarrow> 'w \<Rightarrow> bool" where
  "others_all ver stored w w' \<longleftrightarrow> (\<forall>k. others ver (stored k) w w')"

text \<open>A server on which other clients may edit the virtual databases, and one on which they do not.\<close>

abbreviation fleet_server :: "(string \<Rightarrow> nat) \<Rightarrow> (key \<Rightarrow> 'w \<Rightarrow> VirtualDatabase) \<Rightarrow> 'w Reconciler \<Rightarrow> bool" where
  "fleet_server ver stored \<equiv> fleet_serves (\<lambda>k. others ver (stored k)) ver stored"

abbreviation undisturbed :: "(string \<Rightarrow> nat) \<Rightarrow> (key \<Rightarrow> 'w \<Rightarrow> VirtualDatabase) \<Rightarrow> 'w Reconciler \<Rightarrow> bool" where
  "undisturbed ver stored \<equiv> fleet_serves (\<lambda>k w w'. stored k w' = stored k w) ver stored"

lemma fleet_key: "fleet_serves R ver stored r \<Longrightarrow> keyOf (stored k w) = k"
  unfolding fleet_serves_def by blast

lemma rely_mono: "R \<le> R' \<Longrightarrow> rely R r \<Longrightarrow> rely R' r"
  unfolding rely_def by (rule permits_mono)

lemma fleet_calls:
  assumes "fleet_serves R ver stored r"
  shows "rely (R k) r" and "calls (R k) (rGet (vdbs r) ns n)"
proof -
  have "(\<lambda>w w'. \<forall>k. R k w w') \<le> R k" by blast
  with assms show "rely (R k) r" "calls (R k) (rGet (vdbs r) ns n)"
    using rely_mono calls_mono unfolding fleet_serves_def by blast+
qed

lemma fleet_get: "fleet_serves R ver stored r \<Longrightarrow> rGet (vdbs r) ns n w = (Inr v, w') \<Longrightarrow> seen ver v (stored (ns, n) w')"
  unfolding fleet_serves_def by blast

lemma fleet_update:
  assumes "fleet_serves R ver stored r" and "rUpdate (vdbs r) x w = (y, w')"
  shows "case y of Inl _ \<Rightarrow> \<forall>k. R k w w'
    | Inr _ \<Rightarrow> version x = version (stored (keyOf x) w) \<and> Spec (stored (keyOf x) w') = Spec x \<and>
        Status (stored (keyOf x) w') = Status x \<and> (\<forall>k. k \<noteq> keyOf x \<longrightarrow> R k w w')"
proof -
  have "case rUpdate (vdbs r) x w of (Inl _, w') \<Rightarrow> \<forall>k. R k w w'
      | (Inr _, w') \<Rightarrow> version x = version (stored (keyOf x) w) \<and> Spec (stored (keyOf x) w') = Spec x \<and>
          Status (stored (keyOf x) w') = Status x \<and> (\<forall>k. k \<noteq> keyOf x \<longrightarrow> R k w w')"
    using assms(1) by (simp add: fleet_serves_def)
  with assms(2) show ?thesis by (cases y) (simp_all del: split_paired_All)
qed

text \<open>Seen from one of its objects, the server of a fleet is the server of \<open>Rely\<close>.\<close>

lemma fleet_api:
  assumes "fleet_serves R ver stored r"
  shows "serves (R (ns, n)) ver (stored (ns, n)) r ns n"
proof -
  have update: "case rUpdate (vdbs r) x w of
        (Inl _, w') \<Rightarrow> R (ns, n) w w'
      | (Inr _, w') \<Rightarrow> version x = version (stored (ns, n) w) \<and> Spec (stored (ns, n) w') = Spec x \<and> Status (stored (ns, n) w') = Status x"
    if "keyOf x = keyOf (stored (ns, n) w)" for x w
  proof -
    obtain y w' where u: "rUpdate (vdbs r) x w = (y, w')" by fastforce
    have "keyOf x = (ns, n)" using fleet_key [OF assms] that by simp
    with fleet_update [OF assms u] show ?thesis by (cases y) (simp_all add: u del: split_paired_All)
  qed
  show ?thesis
    unfolding serves_def
    by (intro conjI allI impI fleet_calls [OF assms] update) (auto intro: fleet_get [OF assms])
qed

lemma undisturbed_le: "(\<lambda>w w'. stored w' = stored w) \<le> others ver stored"
  by (auto simp: others_def)

lemma undisturbed_server:
  assumes "undisturbed ver stored r"
  shows "fleet_server ver stored r"
proof -
  let ?R = "\<lambda>w w'. \<forall>k. stored k w' = stored k w" and ?R' = "\<lambda>w w'. \<forall>k. others ver (stored k) w w'"
  have le: "?R \<le> ?R'" by (auto simp: others_def)
  have update: "case rUpdate (vdbs r) x w of (Inl _, w') \<Rightarrow> ?R' w w'
      | (Inr _, w') \<Rightarrow> version x = version (stored (keyOf x) w) \<and> Spec (stored (keyOf x) w') = Spec x \<and>
          Status (stored (keyOf x) w') = Status x \<and> (\<forall>k. k \<noteq> keyOf x \<longrightarrow> others ver (stored k) w w')" for x w
  proof -
    obtain y w' where u: "rUpdate (vdbs r) x w = (y, w')" by fastforce
    with fleet_update [OF assms u] show ?thesis by (cases y) (simp_all add: others_def del: split_paired_All)
  qed
  have "rely ?R r" "calls ?R (rGet (vdbs r) ns n)" for ns n
    using assms by (simp_all add: fleet_serves_def)
  then show ?thesis
    unfolding fleet_serves_def
    by (intro conjI allI impI fleet_key [OF assms] fleet_get [OF assms] update rely_mono [OF le] calls_mono [OF le])
qed

section \<open>Isolation\<close>

text \<open>To every virtual database but its own a reconciliation does nothing but let others work.\<close>

lemma Reconcile_others:
  assumes "fleet_serves R ver stored r" and "Reconcile r ns n w = (result, w')" and "k \<noteq> (ns, n)"
  shows "(R k)\<^sup>*\<^sup>* w w'"
proof -
  note rel = fleet_calls(1) [OF assms(1), of k] and get = fleet_calls(2) [OF assms(1), of k ns n]
  obtain g w1 where g: "rGet (vdbs r) ns n w = (g, w1)" by fastforce
  with callsD [of "R k" "rGet (vdbs r) ns n", OF get] have w1: "(R k)\<^sup>*\<^sup>* w w1" by simp
  moreover have "(R k)\<^sup>*\<^sup>* w1 w'"
  proof (cases g)
    case (Inl e)
    with Reconcile_not_read [OF rel [unfolded rely_def] _ _ assms(2)] g anywhere_covers(1) show ?thesis by blast
  next
    case (Inr v)
    with fleet_get [OF assms(1)] g have v: "keyOf v = (ns, n)" using fleet_key [OF assms(1), of "(ns, n)" w1] by (auto simp: seen_def)
    have update: "calls (R k) (updateM (vdbs r) x)" if "plan r v s = (Ok (Some (x, err)), s')" for x err s s'
    proof -
      have "vdb_step r v x" using that by (auto intro: vdb_step.decided)
      from vdb_step_meta [OF this] v assms(3) have x: "k \<noteq> keyOf x" by (simp add: keyOf_def)
      have "R k s s'" if "rUpdate (vdbs r) x s = (y, s')" for s y s'
        using fleet_update [OF assms(1) that] x by (cases y) (simp_all del: split_paired_All)
      then have "calls (R k) (rUpdate (vdbs r) x)"
        by (intro withinI conjI TrueI r_into_rtranclp)
      then show ?thesis unfolding updateM_def by (rule rw)
    qed
    have "calls (R k) (bindM (plan r v) (execute r))"
      unfolding execute_def by (rule plan_within [OF rel] rw | erule update | simp)+
    moreover have "bindM (plan r v) (execute r) w1 = (result, w')" using assms(2) Reconcile_found g Inr by metis
    ultimately show ?thesis by (rule callsD)
  qed
  ultimately show ?thesis by (rule rtranclp_trans)
qed

section \<open>Runs of a fleet\<close>

inductive fleet_step :: "(string \<Rightarrow> nat) \<Rightarrow> (key \<Rightarrow> 'w \<Rightarrow> VirtualDatabase) \<Rightarrow> 'w Reconciler \<Rightarrow> 'w \<Rightarrow> 'w \<Rightarrow> bool"
  for ver stored r where
  reconciles: "Reconcile r ns n w = (result, w') \<Longrightarrow> fleet_step ver stored r w w'"
| others: "others_all ver stored w w' \<Longrightarrow> fleet_step ver stored r w w'"

lemma others_system: "(others ver stored)\<^sup>*\<^sup>* w w' \<Longrightarrow> (system_step ver stored r ns n)\<^sup>*\<^sup>* w w'"
  by (induction rule: rtranclp_induct) (auto intro: rtranclp.rtrancl_into_rtrancl system_step.others)

lemma fleet_step_cases:
  assumes "fleet_server ver stored r" and "fleet_step ver stored r w w'"
  shows "system_step ver (stored (ns, n)) r ns n w w' \<or> (others ver (stored (ns, n)))\<^sup>*\<^sup>* w w'"
  using assms(2)
proof cases
  case (reconciles ns' n' result)
  with Reconcile_others [OF assms(1) reconciles, of "(ns, n)"] show ?thesis by (auto intro: system_step.reconciles)
next
  case others
  then show ?thesis by (auto simp: others_all_def intro: system_step.others)
qed

lemma fleet_step_phase:
  assumes "fleet_server ver stored r" and "fleet_step ver stored r w w'"
    and "Digest (Status (stored k w')) = Digest (Status (stored k w))"
  shows "phase_le (vdb_Phase (stored k w)) (vdb_Phase (stored k w'))"
proof -
  obtain ns n where k: "k = (ns, n)" by fastforce
  from fleet_step_cases [OF assms(1,2), of ns n] show ?thesis
  proof
    assume "system_step ver (stored (ns, n)) r ns n w w'"
    with system_step_phase [OF fleet_api [OF assms(1)]] assms(3) k show ?thesis by blast
  next
    assume "(others ver (stored (ns, n)))\<^sup>*\<^sup>* w w'"
    from others_rtranclp(1) [OF this] k show ?thesis by (simp add: phase_le_def)
  qed
qed

lemma fleet_successive:
  assumes "fleet_server ver stored r" and "successively (fleet_step ver stored r) ws"
    and "\<forall>w \<in> set ws. Digest (Status (stored k w)) = d"
  shows "successively phase_le (map (\<lambda>w. vdb_Phase (stored k w)) ws)"
  using assms(2,3)
  by (induction "fleet_step ver stored r" ws rule: successively.induct) (auto intro: fleet_step_phase [OF assms(1)])


section \<open>Schedules\<close>

text \<open>The controller works off a queue of keys; \<open>runs\<close> reconciles them one after the other.\<close>

fun runs :: "'w Reconciler \<Rightarrow> key list \<Rightarrow> 'w \<Rightarrow> 'w" where
  "runs r [] w = w"
| "runs r ((ns, n) # ks) w = runs r ks (snd (Reconcile r ns n w))"

lemma undisturbed_same: "(\<lambda>w w'. stored w' = stored w)\<^sup>*\<^sup>* w w' \<Longrightarrow> stored w' = stored w"
  by (induction rule: rtranclp_induct) simp_all

lemma running_stays:
  assumes "undisturbed ver stored r" and "at_phase v ReconcilerPhaseRunning (stored (keyOf v) w)"
  shows "at_phase v ReconcilerPhaseRunning (stored (keyOf v) (snd (Reconcile r (vdb_Namespace v) (vdb_Name v) w)))"
proof -
  let ?st = "stored (keyOf v)"
  obtain result w' where R: "Reconcile r (vdb_Namespace v) (vdb_Name v) w = (result, w')" by fastforce
  have "serves (\<lambda>w w'. ?st w' = ?st w) ver ?st r (vdb_Namespace v) (vdb_Name v)" unfolding keyOf_def by (rule fleet_api [OF assms(1)])
  from Reconcile_atomic [OF this undisturbed_le R] obtain u where u: "(\<lambda>w w'. ?st w' = ?st w)\<^sup>*\<^sup>* w u"
      "w' = u \<or> (\<exists>x. vdb_step r (?st u) x \<and> Spec (?st w') = Spec x \<and> Status (?st w') = Status x)" by blast
  have same: "?st u = ?st w" by (rule undisturbed_same [OF u(1)])
  have key: "keyOf (?st w') = keyOf v" by (rule fleet_key [OF assms(1)])
  have decided: "at_phase v ReconcilerPhaseRunning (?st w')"
    if x: "vdb_step r (?st w) x" "Spec (?st w') = Spec x" "Status (?st w') = Status x" for x
  proof -
    have good: "goodStep (?st w) x" using vdb_step_good [OF x(1)] at_phase_not_updated [OF assms(2)] by simp
    then have "vdb_Phase x = ReconcilerPhaseRunning" "keeps (?st w) x" "Digest (Status x) = sourceDigest x"
      using assms(2) by (auto simp: goodStep_def at_phase_def phaseGraph_def builderEdges_def serviceEdges_def deploymentEdges_def IsVdbUpdated_eq)
    moreover from this have "digestInput x = digestInput v"
      using digestInput_keeps at_phase_digestInput [OF assms(2)] by metis
    ultimately have "at_phase v ReconcilerPhaseRunning x" by (intro at_phase_keeps [OF assms(2)]) simp_all
    moreover have "keyOf x = keyOf v"
      using vdb_step_meta [OF x(1)] fleet_key [OF assms(1), of "keyOf v" w] by (simp add: keyOf_def)
    ultimately show ?thesis using x key by - (rule at_phase_stored [of v _ x], simp_all add: keyOf_def)
  qed
  have "at_phase v ReconcilerPhaseRunning (?st w')"
    using u(2)
  proof
    assume "w' = u"
    with same assms(2) show ?thesis by simp
  qed (elim exE conjE, simp only: same decided)
  with R show ?thesis by simp
qed

text \<open>
  Whether a reconciliation of \<open>k\<close> would read its present state, and how many of a schedule do. One that does not, because the
  cache is behind, achieves nothing.
\<close>

definition fresh :: "'w Reconciler \<Rightarrow> (key \<Rightarrow> 'w \<Rightarrow> VirtualDatabase) \<Rightarrow> key \<Rightarrow> 'w \<Rightarrow> bool" where
  "fresh r stored k w \<longleftrightarrow> (case rGet (vdbs r) (fst k) (snd k) w of (g, w') \<Rightarrow> g = Inr (stored k w'))"

fun sighted :: "'w Reconciler \<Rightarrow> (key \<Rightarrow> 'w \<Rightarrow> VirtualDatabase) \<Rightarrow> key \<Rightarrow> key list \<Rightarrow> 'w \<Rightarrow> nat" where
  "sighted r stored k [] w = 0"
| "sighted r stored k ((ns, n) # ks) w =
     (if (ns, n) = k \<and> fresh r stored k w then 1 else 0) + sighted r stored k ks (snd (Reconcile r ns n w))"

text \<open>How far a virtual database is after \<open>j\<close> of its reconciliations.\<close>

definition progress :: "VirtualDatabase \<Rightarrow> nat \<Rightarrow> VirtualDatabase \<Rightarrow> bool" where
  "progress v j u \<longleftrightarrow> (if j = 0 then u = v else at_phase v (pipeline ! min (j - 1) 10) u)"

lemma fresh_read:
  assumes "undisturbed ver stored r" and "fresh r stored (ns, n) w"
  obtains w1 where "rGet (vdbs r) ns n w = (Inr (stored (ns, n) w1), w1)" "stored (ns, n) w1 = stored (ns, n) w"
proof -
  obtain g w1 where g: "rGet (vdbs r) ns n w = (g, w1)" by fastforce
  with assms(2) have "g = Inr (stored (ns, n) w1)" by (simp add: fresh_def)
  moreover have "stored (ns, n) w1 = stored (ns, n) w"
    by (rule undisturbed_same) (rule callsD [OF fleet_calls(2) [OF assms(1)] g])
  ultimately show thesis using g that by simp
qed

lemma progress_fresh:
  assumes "undisturbed ver stored r" and "in_place r (stored (keyOf v)) v" and "IsVdbUpdated v" and "progress v j (stored (keyOf v) w)"
    and "fresh r stored (keyOf v) w"
  shows "progress v (Suc j) (stored (keyOf v) (snd (Reconcile r (vdb_Namespace v) (vdb_Name v) w)))"
proof -
  obtain w1 where w1: "rGet (vdbs r) (vdb_Namespace v) (vdb_Name v) w = (Inr (stored (keyOf v) w1), w1)"
      "stored (keyOf v) w1 = stored (keyOf v) w"
    using assms(5) fresh_read [OF assms(1)] unfolding keyOf_def by blast
  consider "j = 0" | i where "j = Suc i" "i < 10" | "10 < j" by (cases j) force+
  then show ?thesis
  proof cases
    case 1
    with begins [OF assms(2) _ assms(3) w1(1)] w1(2) assms(4) show ?thesis by (simp add: progress_def pipeline_def)
  next
    case 2
    with advance [OF assms(2) _ _ w1(1), of i] w1(2) assms(4) show ?thesis by (simp add: progress_def)
  next
    case 3
    with running_stays [OF assms(1), of v w] assms(4) show ?thesis by (simp add: progress_def pipeline_def)
  qed
qed

lemma stale_stays:
  assumes "fleet_serves R ver stored r" and "R (ns, n) \<le> others ver (stored (ns, n))" and "\<not> fresh r stored (ns, n) w"
    and "rGet (vdbs r) ns n w = (g, w1)"
  shows "(R (ns, n))\<^sup>*\<^sup>* w1 (snd (Reconcile r ns n w))"
  by (rule Reconcile_outdated [OF fleet_api [OF assms(1)] assms(2) prod.collapse [symmetric] assms(4)])
    (use assms(3,4) in \<open>simp add: fresh_def\<close>)

lemma progress_step:
  assumes "undisturbed ver stored r" and "in_place r (stored (keyOf v)) v" and "IsVdbUpdated v" and "progress v j (stored (keyOf v) w)"
  shows "progress v ((if (ns, n) = keyOf v \<and> fresh r stored (keyOf v) w then 1 else 0) + j) (stored (keyOf v) (snd (Reconcile r ns n w)))"
proof (cases "(ns, n) = keyOf v \<and> fresh r stored (keyOf v) w")
  case True
  with progress_fresh [OF assms] show ?thesis by (simp add: keyOf_def)
next
  case False
  let ?R = "\<lambda>k w w'. stored k w' = stored k w"
  obtain g w1 where g: "rGet (vdbs r) ns n w = (g, w1)" by fastforce
  have "(?R (keyOf v))\<^sup>*\<^sup>* w (snd (Reconcile r ns n w))"
  proof (cases "(ns, n) = keyOf v")
    case True
    with False have "\<not> fresh r stored (ns, n) w" by simp
    from stale_stays [OF assms(1) undisturbed_le this g] callsD [OF fleet_calls(2) [OF assms(1)] g]
    have "(?R (ns, n))\<^sup>*\<^sup>* w (snd (Reconcile r ns n w))" by (metis rtranclp_trans)
    then show ?thesis by (simp only: True)
  qed (metis Reconcile_others [OF assms(1)] prod.collapse)
  from undisturbed_same [OF this] assms(4) False show ?thesis by auto
qed

lemma progress_runs:
  assumes "undisturbed ver stored r" and "in_place r (stored (keyOf v)) v" and "IsVdbUpdated v" and "progress v j (stored (keyOf v) w)"
  shows "progress v (j + sighted r stored (keyOf v) ks w) (stored (keyOf v) (runs r ks w))"
  using assms
proof (induction r ks w arbitrary: j rule: runs.induct)
  case (2 r ns n ks w)
  from 2(1) [OF 2(2-4) progress_step [OF 2(2-5), of ns n]] show ?case by (simp add: ac_simps)
qed simp

text \<open>The worlds on the way.\<close>

fun trail :: "'w Reconciler \<Rightarrow> key list \<Rightarrow> 'w \<Rightarrow> 'w list" where
  "trail r [] w = [w]"
| "trail r ((ns, n) # ks) w = w # trail r ks (snd (Reconcile r ns n w))"

lemma trail_ends: "trail r ks w \<noteq> [] \<and> hd (trail r ks w) = w \<and> last (trail r ks w) = runs r ks w"
  by (induction r ks w rule: trail.induct) simp_all

lemma reconciles_fleet: "fleet_step ver stored r w (snd (Reconcile r ns n w))"
  by (rule fleet_step.reconciles) (rule prod.collapse [symmetric])

lemma trail_steps: "successively (fleet_step ver stored r) (trail r ks w)"
proof (induction r ks w rule: trail.induct)
  case (2 r ns n ks w)
  with trail_ends [of r ks "snd (Reconcile r ns n w)"] reconciles_fleet [of ver stored r w ns n]
  show ?case by (simp add: successively_Cons)
qed simp

lemma runs_fleet: "(fleet_step ver stored r)\<^sup>*\<^sup>* w (runs r ks w)"
proof (induction r ks w rule: runs.induct)
  case (2 r ns n ks w)
  have "fleet_step ver stored r w (snd (Reconcile r ns n w))" by (rule reconciles_fleet)
  from converse_rtranclp_into_rtranclp [where r = "fleet_step ver stored r", OF this 2] show ?case by simp
qed simp

lemma trail_digest:
  assumes "undisturbed ver stored r" and "in_place r (stored (keyOf v)) v" and "IsVdbUpdated v" and "progress v j (stored (keyOf v) w)"
    and "0 < j"
  shows "\<forall>u \<in> set (trail r ks w). Digest (Status (stored (keyOf v) u)) = sourceDigest v"
  using assms
proof (induction r ks w arbitrary: j rule: trail.induct)
  case (2 r ns n ks w)
  from 2(1) [OF 2(2-4) progress_step [OF 2(2-5), of ns n]] 2(5,6) show ?case by (simp add: progress_def at_phase_def split: if_splits)
qed (simp add: progress_def at_phase_def)

section \<open>Two virtual databases behind a cache\<close>

text \<open>
  A store of virtual databases by key, next to a cluster that has everything in place. The client answers a read from
  its \<open>mirror\<close> of the store, which catches up only afterwards, so the first reconciliation after a write sees the object
  as it was before.
\<close>

record depot =
  shelves :: "key \<Rightarrow> VirtualDatabase"
  mirror :: "key \<Rightarrow> VirtualDatabase"

definition label :: "key \<Rightarrow> VirtualDatabase \<Rightarrow> VirtualDatabase" where
  "label k v = v\<lparr>vdb_Meta := (vdb_Meta v)\<lparr>Namespace := fst k, Name := snd k\<rparr>\<rparr>"

definition shelf :: "key \<Rightarrow> depot \<Rightarrow> VirtualDatabase" where
  "shelf k w = label k (shelves w k)"

definition cached :: "key \<Rightarrow> depot \<Rightarrow> VirtualDatabase" where
  "cached k w = (if length (version (mirror w k)) < length (version (shelf k w)) then label k (mirror w k) else shelf k w)"

definition fleetStore :: "(depot, VirtualDatabase) resource_client" where
  "fleetStore =
     \<lparr>rGet = (\<lambda>ns n w. (Inr (cached (ns, n) w), w\<lparr>mirror := (mirror w)((ns, n) := shelf (ns, n) w)\<rparr>)),
      rList = (\<lambda>ns sel w. (Inr [], w)), rCreate = (\<lambda>x w. (Inr x, w)),
      rUpdate = (\<lambda>x w. if version x = version (shelf (keyOf x) w) then (Inr (nextVersion x), w\<lparr>shelves := (shelves w)(keyOf x := nextVersion x)\<rparr>)
        else (Inl (Conflict ''modified''), w)),
      rDelete = (\<lambda>x w. (Inr (), w))\<rparr>"

definition readyFleet :: "depot Reconciler" where
  "readyFleet = readyHost\<lparr>vdbs := fleetStore\<rparr>"

definition market :: VirtualDatabase where
  "market = shop\<lparr>vdb_Meta := objectMeta ''market'' ''ns''\<rparr>"

lemma label_simps [simp]:
  "keyOf (label k v) = k" "version (label k v) = version v" "Spec (label k v) = Spec v" "Status (label k v) = Status v"
  "label k (label k' v) = label k v"
  by (simp_all add: label_def keyOf_def)

lemma label_own: "label (keyOf x) x = x"
  by (cases x) (simp add: label_def keyOf_def)

lemma label_nextVersion [simp]: "label (keyOf x) (nextVersion x) = nextVersion x"
  by (cases x) (simp add: label_def keyOf_def nextVersion_def)

lemma shelf_write: "shelf k (w\<lparr>shelves := (shelves w)(keyOf x := nextVersion x)\<rparr>) = (if k = keyOf x then nextVersion x else shelf k w)"
  by (simp add: shelf_def)

text \<open>What happens to one virtual database besides its own writes: nothing, and the cache can only get up to date.\<close>

definition catches_up :: "key \<Rightarrow> depot \<Rightarrow> depot \<Rightarrow> bool" where
  "catches_up k w w' \<longleftrightarrow> shelf k w' = shelf k w \<and> (cached k w = shelf k w \<longrightarrow> cached k w' = shelf k w')"

lemma fleetStore_serves:
  assumes "\<And>k w w'. catches_up k w w' \<Longrightarrow> R k w w'"
  shows "fleet_serves R length shelf readyFleet"
proof -
  have "rely Q readyFleet" for Q unfolding readyFleet_def by (rule readyHost_rely)
  moreover have "R k w (w\<lparr>mirror := (mirror w)(k' := shelf k' w)\<rparr>)" for k k' w
    by (rule assms) (simp add: catches_up_def cached_def shelf_def)
  moreover have "R k w w" for k w by (rule assms) (simp add: catches_up_def)
  moreover have "R k w (w\<lparr>shelves := (shelves w)(keyOf x := nextVersion x)\<rparr>)" if "k \<noteq> keyOf x" for k x w
    using that by (intro assms) (simp add: catches_up_def cached_def shelf_def)
  moreover have "seen length (cached k w) (shelf k (w\<lparr>mirror := (mirror w)(k' := shelf k' w)\<rparr>))" for k k' w
    by (simp add: seen_def cached_def) (simp add: shelf_def)
  ultimately show ?thesis
    by (auto simp: fleet_serves_def readyFleet_def fleetStore_def within_def shelf_write)
      (auto simp: shelf_def nextVersion_def)
qed

lemma readyFleet_undisturbed: "undisturbed length shelf readyFleet"
  by (rule fleetStore_serves) (simp add: catches_up_def)

lemmas readyFleet_server = undisturbed_server [OF readyFleet_undisturbed]

lemma readyFleet_in_place:
  assumes "Spec v = Spec shop" and "CHR '':'' \<notin> set (vdb_Name v)"
  shows "in_place readyFleet (shelf (keyOf v)) v"
  unfolding readyFleet_def
proof (rule readyHost_in_place [OF _ assms])
  have "rUpdate fleetStore u w = (Inr (shelf (keyOf v) w'), w') \<and> shelf (keyOf v) w' = nextVersion u"
    if "keyOf u = keyOf (shelf (keyOf v) w)" "version u = version (shelf (keyOf v) w)"
      "w' = w\<lparr>shelves := (shelves w)(keyOf u := nextVersion u)\<rparr>" for u w w'
  proof -
    have "keyOf u = keyOf v" using that(1) by (simp add: shelf_def)
    with that(2,3) shelf_write [of "keyOf v" w u] show ?thesis by (simp add: fleetStore_def)
  qed
  then show "store_works (readyHost\<lparr>vdbs := fleetStore\<rparr>) (shelf (keyOf v))"
    by (auto simp: store_works_def nextVersion_def)
qed

text \<open>Of two reconciliations of an object in a row, at least one reads its present state.\<close>

lemma fresh_cached: "fresh readyFleet shelf k w \<longleftrightarrow> cached k w = shelf k w"
  by (simp add: fresh_def readyFleet_def fleetStore_def) (simp add: shelf_def)

lemma catches_up_rtranclp: "(catches_up k)\<^sup>*\<^sup>* w w' \<Longrightarrow> catches_up k w w'"
  by (induction rule: rtranclp_induct) (auto simp: catches_up_def)

lemma fresh_stays:
  assumes "(ns, n) \<noteq> k" and "fresh readyFleet shelf k w"
  shows "fresh readyFleet shelf k (snd (Reconcile readyFleet ns n w))"
proof -
  have "fleet_serves catches_up length shelf readyFleet" by (rule fleetStore_serves)
  from Reconcile_others [OF this prod.collapse [symmetric]] assms(1)
  have "(catches_up k)\<^sup>*\<^sup>* w (snd (Reconcile readyFleet ns n w))" by metis
  from catches_up_rtranclp [OF this] assms(2) show ?thesis by (simp add: fresh_cached catches_up_def)
qed

lemma fresh_next:
  assumes "\<not> fresh readyFleet shelf (ns, n) w"
  shows "fresh readyFleet shelf (ns, n) (snd (Reconcile readyFleet ns n w))"
proof -
  let ?w1 = "w\<lparr>mirror := (mirror w)((ns, n) := shelf (ns, n) w)\<rparr>"
  have "fleet_serves catches_up length shelf readyFleet" by (rule fleetStore_serves)
  moreover have "catches_up (ns, n) \<le> others length (shelf (ns, n))" by (auto simp: catches_up_def others_def)
  moreover have "rGet (vdbs readyFleet) ns n w = (Inr (cached (ns, n) w), ?w1)" by (simp add: readyFleet_def fleetStore_def)
  ultimately have "(catches_up (ns, n))\<^sup>*\<^sup>* ?w1 (snd (Reconcile readyFleet ns n w))"
    using assms stale_stays by metis
  from catches_up_rtranclp [OF this] have "catches_up (ns, n) ?w1 (snd (Reconcile readyFleet ns n w))" .
  moreover have "cached (ns, n) ?w1 = shelf (ns, n) ?w1" by (simp add: cached_def shelf_def)
  ultimately show ?thesis by (simp add: fresh_cached catches_up_def)
qed

lemma sighted_half:
  "count_list ks k \<le> 2 * sighted readyFleet shelf k ks w + (if fresh readyFleet shelf k w then 0 else 1)"
proof (induction ks arbitrary: w)
  case (Cons k' ks)
  obtain ns n where k': "k' = (ns, n)" by fastforce
  note IH = Cons [of "snd (Reconcile readyFleet ns n w)"]
  show ?case
  proof (cases "k' = k")
    case True
    with IH fresh_next [of ns n w] k' show ?thesis by (auto split: if_splits)
  next
    case False
    with IH fresh_stays [of ns n k w] k' show ?thesis by (auto split: if_splits)
  qed
qed simp

text \<open>The two virtual databases, as they were created, which the cache has seen.\<close>

definition openingDay :: depot where
  "openingDay = \<lparr>shelves = \<lambda>k. shop, mirror = \<lambda>k. shop\<rparr>"

lemma shelf_shop: "shelf (keyOf shop) openingDay = shop" "shelf (keyOf market) openingDay = market"
  by (simp_all add: shelf_def label_def keyOf_def market_def shop_def objectMeta_def openingDay_def)

lemma fleet_members:
  "in_place readyFleet (shelf (keyOf shop)) shop" "in_place readyFleet (shelf (keyOf market)) market"
  "IsVdbUpdated shop" "IsVdbUpdated market"
  by (intro readyFleet_in_place; simp add: market_def shop_simps objectMeta_def)+
    (simp_all add: market_def IsVdbUpdated_eq shop_simps emptyStatus_def)

abbreviation shopKey :: key where
  "shopKey \<equiv> (''ns'', ''shop'')"

abbreviation marketKey :: key where
  "marketKey \<equiv> (''ns'', ''market'')"

lemma fleet_keys: "keyOf shop = shopKey" "keyOf market = marketKey"
  by (simp_all add: keyOf_def market_def shop_simps objectMeta_def)

section \<open>Properties\<close>

text \<open>
  C5: reconciliations do not disturb each other. Whatever the operator does for one virtual database, every
  other virtual database, in any namespace, is only touched by other clients in the meantime: its status stays as it
  is, and unless somebody else wrote a new version of it, it is the very same object. What the operator reads may be
  outdated.
\<close>

theorem Reconcile_isolated:
  assumes "fleet_server ver stored r" and "Reconcile r ns n w = (result, w')" and "k \<noteq> (ns, n)"
  shows "(others ver (stored k))\<^sup>*\<^sup>* w w' \<and> Status (stored k w') = Status (stored k w) \<and>
    (version (stored k w') = version (stored k w) \<longrightarrow> stored k w' = stored k w)"
proof -
  note steps = Reconcile_others [OF assms]
  from steps others_rtranclp(1,3) [OF steps] show ?thesis by simp
qed

theorem Reconcile_isolated_witness:
  "Status (shelf marketKey (snd (Reconcile readyFleet ''ns'' ''shop'' openingDay))) = Status (shelf marketKey openingDay)"
proof -
  obtain result w' where w': "Reconcile readyFleet ''ns'' ''shop'' openingDay = (result, w')" by fastforce
  have "marketKey \<noteq> (''ns'', ''shop'')" by simp
  from Reconcile_isolated [OF readyFleet_server w' this] w' show ?thesis by simp
qed


text \<open>
  C1: no stage is skipped, for any number of virtual databases. Let the operator reconcile the members of a fleet in
  any order, reading them through a cache that may be behind, while any number of other clients work on the same API
  server, which rejects writes of outdated versions, and take any sequence of their steps in which one of the objects is not sent back to the start, that is, its digest stays the same.
  If it started in the initial phase, it has gone through exactly the phases on the way to its present one, in
  order and each once; in particular a running virtual database has had its cache store, builder image, service
  image, service and key store phases. Only the error phase, which two phases lead to, does not determine its past.
\<close>

theorem fleet_history:
  assumes "fleet_server ver stored r" and "successively (fleet_step ver stored r) ws"
    and "\<forall>w \<in> set ws. Digest (Status (stored k w)) = d" and "ws \<noteq> []"
    and "vdb_Phase (stored k (hd ws)) = ReconcilerPhaseInitial" and "vdb_Phase (stored k (last ws)) \<noteq> ReconcilerPhaseError"
  shows "remdups_adj (map (\<lambda>w. vdb_Phase (stored k w)) ws) = history (vdb_Phase (stored k (last ws)))"
  using path_history [OF fleet_successive [OF assms(1-3)]] assms(4-6) by (simp add: hd_map last_map)

theorem fleet_history_witness:
  "remdups_adj (map (\<lambda>w. vdb_Phase (shelf shopKey w))
     (trail readyFleet (concat (replicate 20 [marketKey, shopKey])) \<lparr>shelves = \<lambda>k. RedeployVdb shop, mirror = \<lambda>k. shop\<rparr>)) = pipeline"
proof -
  let ?ks = "concat (replicate 20 [marketKey, shopKey])" and ?w = "\<lparr>shelves = \<lambda>k. RedeployVdb shop, mirror = \<lambda>k. shop\<rparr>"
  note st = readyFleet_undisturbed and shop = fleet_members(1,3)
  have "at_phase shop ReconcilerPhaseInitial (shelf (keyOf shop) ?w)"
    by (rule at_phase_stored [OF redeploy_at_phase]) (simp_all add: shelf_def label_def keyOf_def RedeployVdb_frame)
  then have p: "progress shop 1 (shelf (keyOf shop) ?w)" by (simp add: progress_def pipeline_def)
  have "count_list ?ks shopKey = 20" by code_simp
  with sighted_half [of ?ks shopKey ?w] have "10 \<le> sighted readyFleet shelf shopKey ?ks ?w" by (simp split: if_splits)
  with progress_runs [OF st shop p, of ?ks]
  have "at_phase shop ReconcilerPhaseRunning (shelf shopKey (runs readyFleet ?ks ?w))"
    by (simp add: progress_def pipeline_def fleet_keys del: concat_replicate_trivial)
  moreover have "vdb_Phase (shelf shopKey ?w) = ReconcilerPhaseInitial" using p by (simp add: progress_def pipeline_def at_phase_def fleet_keys)
  moreover have "history ReconcilerPhaseRunning = pipeline" by code_simp
  ultimately show ?thesis
    using fleet_history [OF readyFleet_server trail_steps trail_digest [OF st shop p, of ?ks, unfolded fleet_keys]] trail_ends [of readyFleet ?ks ?w]
    by (simp add: at_phase_def)
qed

text \<open>
  The phases settle. As long as its digest stays the same, the phase of a virtual database changes at most
  ten times, from whatever phase it starts and whatever the cluster answers, since the phase graph has no cycle.
\<close>

theorem fleet_phase_changes:
  assumes "fleet_server ver stored r" and "successively (fleet_step ver stored r) ws"
    and "\<forall>w \<in> set ws. Digest (Status (stored k w)) = d"
  shows "length (remdups_adj (map (\<lambda>w. vdb_Phase (stored k w)) ws)) \<le> 11"
  by (rule path_length [OF fleet_successive [OF assms]])

text \<open>
  C6: an invariant of the fleet. However the operator and other clients work on objects that were created without
  a status, the phase of each is one of the fourteen phases the actions use, and once its status is not empty it
  carries the digest of some sources.
\<close>

theorem fleet_invariant:
  assumes "fleet_server ver stored r" and "Status (stored k w) = emptyStatus" and "(fleet_step ver stored r)\<^sup>*\<^sup>* w w'"
  shows "vdb_Phase (stored k w') \<in> knownPhases \<and> (Digest (Status (stored k w')) = [] \<longrightarrow> Status (stored k w') = emptyStatus) \<and>
    (Digest (Status (stored k w')) \<noteq> [] \<longrightarrow> length (Digest (Status (stored k w'))) = 44 \<and> hd (Digest (Status (stored k w'))) = CHR ''v'')"
proof -
  obtain ns n where k: "k = (ns, n)" by fastforce
  have step: "(system_step ver (stored (ns, n)) r ns n)\<^sup>*\<^sup>* u u'" if "fleet_step ver stored r u u'" for u u'
    using fleet_step_cases [OF assms(1) that, of ns n] by (auto intro: others_system)
  from assms(3) have "(system_step ver (stored (ns, n)) r ns n)\<^sup>*\<^sup>* w w'"
    by (induction rule: rtranclp_induct) (auto intro: rtranclp_trans step)
  from system_statusInv [OF fleet_api [OF assms(1)] _ this] assms(2) k have "statusInv (stored k w')" by simp
  then show ?thesis using hashSum_shape by (auto simp: statusInv_def)
qed

theorem fleet_invariant_witness:
  "vdb_Phase (shelf marketKey (runs readyFleet [marketKey, shopKey, marketKey] openingDay)) \<in> knownPhases"
proof -
  have "Status (shelf marketKey openingDay) = emptyStatus" by (simp add: shelf_def openingDay_def shop_simps)
  from fleet_invariant [where stored = shelf and k = marketKey, OF readyFleet_server this runs_fleet]
  show ?thesis by (rule conjunct1)
qed

text \<open>
  C3: every member of a fleet gets to the running phase, under every schedule. Let the operator reconcile
  virtual databases in any order, with nobody else editing them. One that has what its stages wait for and is new or has changed
  sources is running, and stays there, once eleven of its reconciliations read its present state, however many of its
  reconciliations read an outdated one from the cache, conflict and are repeated, and however many of others come in
  between.
\<close>

theorem fleet_runs:
  assumes "undisturbed ver stored r" and "in_place r (stored (keyOf v)) v" and "stored (keyOf v) w = v" and "IsVdbUpdated v"
    and "11 \<le> sighted r stored (keyOf v) ks w"
  shows "vdb_Phase (stored (keyOf v) (runs r ks w)) = ReconcilerPhaseRunning \<and> \<not> IsVdbUpdated (stored (keyOf v) (runs r ks w))"
proof -
  have "progress v 0 (stored (keyOf v) w)" using assms(3) by (simp add: progress_def)
  from progress_runs [OF assms(1,2,4) this, of ks] assms(5)
  have "at_phase v ReconcilerPhaseRunning (stored (keyOf v) (runs r ks w))" by (simp add: progress_def pipeline_def)
  with at_phase_not_updated [OF this] show ?thesis by (simp add: at_phase_def)
qed

text \<open>In the store whose cache is behind after every write, twenty-two reconciliations are enough.\<close>

theorem fleet_runs_witness:
  "vdb_Phase (shelf shopKey (runs readyFleet (concat (replicate 22 [marketKey, shopKey])) openingDay)) = ReconcilerPhaseRunning \<and>
   vdb_Phase (shelf marketKey (runs readyFleet (concat (replicate 22 [marketKey, shopKey])) openingDay)) = ReconcilerPhaseRunning"
proof -
  let ?ks = "concat (replicate 22 [marketKey, shopKey])"
  have "count_list ?ks shopKey = 22" "count_list ?ks marketKey = 22" by code_simp+
  then have "11 \<le> sighted readyFleet shelf shopKey ?ks openingDay" "11 \<le> sighted readyFleet shelf marketKey ?ks openingDay"
    using sighted_half [of ?ks shopKey openingDay] sighted_half [of ?ks marketKey openingDay] by (auto split: if_splits)
  then show ?thesis
    using fleet_runs [OF readyFleet_undisturbed fleet_members(1) shelf_shop(1) fleet_members(3), of ?ks]
      fleet_runs [OF readyFleet_undisturbed fleet_members(2) shelf_shop(2) fleet_members(4), of ?ks]
    by (simp add: fleet_keys)
qed

section \<open>The life of a virtual database\<close>

text \<open>
  What a virtual database promises to those who watch it: it is somewhere on the phase graph, for the sources of some
  digest, and either moves along an edge or starts again for other sources.
\<close>

type_synonym life = "ReconcilerPhase \<times> string"

abbreviation life :: "VirtualDatabase \<Rightarrow> life" where
  "life v \<equiv> (vdb_Phase v, Digest (Status v))"

inductive life_step :: "life \<Rightarrow> life \<Rightarrow> bool" where
  advance: "(p, q) \<in> phaseGraph \<Longrightarrow> life_step (p, d) (q, d)"
| restart: "d' \<noteq> d \<Longrightarrow> hd d' = CHR ''v'' \<Longrightarrow> length d' = 44 \<Longrightarrow> life_step (p, d) (ReconcilerPhaseInitial, d')"

inductive_simps life_step_simps: "life_step (p, d) (q, d')"

lemma vdb_step_life:
  assumes "vdb_step r v x" and "Digest (Status v) = sourceDigest v \<or> IsVdbUpdated v"
  shows "life_step\<^sup>=\<^sup>= (life v) (life x)"
proof (cases "IsVdbUpdated v")
  case True
  with vdb_step_good [OF assms(1)] hashSum_shape show ?thesis
    by (auto simp: IsVdbUpdated_eq RedeployVdb_frame life_step_simps)
next
  case False
  with vdb_step_good [OF assms(1)] have "goodStep v x" by simp
  moreover from this have "Digest (Status x) = Digest (Status v)"
    using False digestInput_keeps by (auto simp: goodStep_def IsVdbUpdated_eq)
  ultimately show ?thesis by (auto simp: goodStep_def life_step_simps)
qed

text \<open>
  C7: each virtual database of a fleet lives up to that. Every step of the system, be it a reconciliation of this virtual database, of
  another one, or the edit of another client, and whatever the caches answer, is for each stored object a step of the
  abstract life cycle or none.
\<close>

theorem fleet_refines:
  assumes "fleet_server ver stored r" and "fleet_step ver stored r w w'"
  shows "life_step\<^sup>=\<^sup>= (life (stored k w)) (life (stored k w'))"
proof -
  obtain ns n where k: "k = (ns, n)" by fastforce
  from fleet_step_cases [OF assms, of ns n] show ?thesis
  proof
    assume "system_step ver (stored (ns, n)) r ns n w w'"
    from system_step_atomic [OF fleet_api [OF assms(1)] this] vdb_step_life show ?thesis
      by (fastforce simp: k IsVdbUpdated_eq)
  next
    assume "(others ver (stored (ns, n)))\<^sup>*\<^sup>* w w'"
    from others_rtranclp(1) [OF this] k show ?thesis by simp
  qed
qed

theorem fleet_refines_witness:
  "life_step\<^sup>=\<^sup>= (ReconcilerPhaseInitial, []) (life (shelf shopKey (snd (Reconcile readyFleet ''ns'' ''shop'' openingDay))))"
  using fleet_refines [where stored = shelf, OF readyFleet_server reconciles_fleet, of shopKey openingDay "''ns''" "''shop''"] shelf_shop(1)
  by (simp add: fleet_keys shop_simps emptyStatus_def)

end
