(* ===== verification/Settled.thy ===== *)
theory Settled
  imports Footprint
begin

text \<open>
  A virtual database whose deployment exists. While it is deploying, each reconciliation follows the conditions that the
  deployment reports (\<open>Reconcile_watches\<close>). Once it runs, each reconciliation compares its deployment with what the
  specification asks for: it writes the deployment when they differ (\<open>Reconcile_repairs\<close>), which they always do because of the
  defaults the API server fills in (\<open>Reconcile_rewrites\<close>), and does nothing about a deployment that is gone
  (\<open>Reconcile_never_recreates\<close>), in each case coming back after five seconds.
\<close>

section \<open>The action on a running virtual database\<close>

lemmas handler_steps = deployment_Handle_def findItem_def findDC_def ensureReplicas_def bindM_def tryM_def
  returnM_def failM_def getV_def modV_def liftW_def resM_def getM_def updateM_def callM_def

lemma available_ready: "hasCondition ''Available'' item \<Longrightarrow> isDeploymentInReadyState item"
  by (auto simp: isDeploymentInReadyState_def hasCondition_def)

lemma deployment_Handle_repairs:
  assumes "vdb_Phase v = ReconcilerPhaseRunning"
    and "rGet (deployments r) (vdb_Namespace v) (vdb_Name v) w = (Inr item, w1)" and "hasCondition ''Available'' item"
    and "deploymentEnvironments r v w1 = (Ok envs, w2)" and "desiredItem v envs item = Ok (item', True)"
  shows "\<exists>x. deployment_Handle r (v, w) = (x, v, snd (rUpdate (deployments r) item' w2)) \<and> (\<forall>p. x \<noteq> Panic p)"
  using assms available_ready [OF assms(3)]
  by (cases "rUpdate (deployments r) item' w2"; cases "fst (rUpdate (deployments r) item' w2)") (auto simp: handler_steps)

text \<open>What the API server holds: a reference to a field of the pod names the version of its schema, which defaults to v1.\<close>

definition versioned :: "EnvVar \<Rightarrow> bool" where
  "versioned e \<longleftrightarrow> (case ValueFrom e of None \<Rightarrow> True
     | Some src \<Rightarrow> (case FieldRef src of None \<Rightarrow> True | Some f \<Rightarrow> fs_APIVersion f \<noteq> []))"

text \<open>The default variables that refer to fields of the pod.\<close>

definition podNames :: "string list" where
  "podNames = [''NAMESPACE'', ''TEIID_NODENAME'', ''TEIID_PODNAME'']"

lemma deploymentEnvironments_unversioned:
  assumes "deploymentEnvironments r vdb w = (Ok envs, w')" and "x \<in> set podNames" and "Get (spec_Env (Spec vdb)) x = None"
  shows "\<not> list_all versioned envs"
proof -
  obtain base w1 w2 where b: "getDefaultEnvs r (spec_Env (Spec vdb)) w1 = (Ok base, w2)" "extends base envs"
    using deploymentEnvironments_extends [OF assms(1)] by blast
  obtain props where base: "base = addMissing (fst (HTTPSettings (osenv r) (Clone (spec_Env (Spec vdb))))) (defaultEnv props)"
    using getDefaultEnvs_Ok [of r "spec_Env (Spec vdb)" w1] b(1) by auto
  have "x \<notin> set proxyNames" using assms(2) by (auto simp: podNames_def proxyNames_def)
  then have "Get base x = Get (defaultEnv props) x"
    using assms(3) by (simp add: base Get_addMissing Get_HTTPSettings_other Get_Clone)
  then obtain e where e: "Get base x = Some e" "\<not> versioned e"
    using assms(2) by (auto simp: podNames_def defaultEnv_def plainEnv_def fieldEnv_def fieldRefSource_def versioned_def)
  then have "Get envs x = Some e" using b(2) by (simp add: extends_def)
  from Get_Some_mem [OF this] e(2) show ?thesis by (auto simp: list_all_iff)
qed

text \<open>The item with the replicas and the environment corrected, and what is written when either differs.\<close>

lemma desiredItem_differs:
  assumes "dc_Replicas item = Some m" and "Replicas (Spec v) = Some k" and "Containers (Template item) = c # cs" and "m \<noteq> k \<or> Env c \<noteq> envs"
  shows "desiredItem v envs item = Ok (setEnv envs (item\<lparr>dc_Replicas := Some k\<rparr>), True)"
proof -
  have "setEnv (Env c) item = item" using assms(3) by (simp add: setEnv_def)
  with assms show ?thesis by (auto simp: desiredItem_def setEnv_def)
qed

lemma setEnv_simps:
  assumes "Containers (Template item) = c # cs"
  shows "dc_Replicas (setEnv envs (item\<lparr>dc_Replicas := Some k\<rparr>)) = Some k"
    "Containers (Template (setEnv envs (item\<lparr>dc_Replicas := Some k\<rparr>))) = c\<lparr>Env := envs\<rparr> # cs"
    "dc_Meta (setEnv envs (item\<lparr>dc_Replicas := Some k\<rparr>)) = dc_Meta item"
    "pod_Meta (Template (setEnv envs (item\<lparr>dc_Replicas := Some k\<rparr>))) = pod_Meta (Template item)"
  using assms by (simp_all add: setEnv_def)

section \<open>The decision\<close>

lemma get_steps: "reads_within R c \<Longrightarrow> rGet c ns n w = (x, w') \<Longrightarrow> R\<^sup>*\<^sup>* w w'"
  unfolding reads_within_def by (blast intro: callsD)


text \<open>When the deployment action leaves the object alone, the monitor action is the last one.\<close>

lemma plan_running:
  assumes "vdb_Phase v = ReconcilerPhaseRunning" and "\<not> IsVdbUpdated v"
    and "deployment_Handle r (v, w) = (x, v, w1)" and "\<forall>p. x \<noteq> Panic p"
    and "prometheus_Handle r (v, w1) = (y, v, w2)" and "\<forall>p. y \<noteq> Panic p"
  shows "plan r v w = (Ok None, w2)"
  using assms
  by (cases x; cases y)
    (simp_all add: plan_def buildSteps_def new_action can_handle prometheus_CanHandle_def hasChanges_def returnM_def)

lemma noPanic_handler: "noPanic getV" "noPanic m \<Longrightarrow> noPanic (liftW m)"
  by (simp_all add: noPanic_def getV_def liftW_def Let_def case_prod_unfold)

lemma prometheus_leaves: "\<exists>y w'. prometheus_Handle r (v, w) = (y, v, w') \<and> (\<forall>p. y \<noteq> Panic p)"
proof -
  obtain y v' w' where h: "prometheus_Handle r (v, w) = (y, v', w')" by (metis prod_cases3)
  have selects: "noPanic (selectsMonitors r ps)" for ps
    by (induction ps) (auto split: option.split intro!: np noPanic_rangeM)
  have "noPanic (prometheus_Handle r)"
    unfolding prometheus_Handle_def hasPrometheus_def hasServiceMonitor_def createServiceMonitor_def
    by (rule np noPanic_handler selects)+
  moreover have "v' = v" using postD [OF prometheus_post h, of "\<lambda>_ x. x = v"] by simp
  ultimately show ?thesis using h unfolding noPanic_def by (metis fst_conv)
qed

lemma Reconcile_running:
  assumes "rGet (vdbs r) ns n w0 = (Inr v, w)" and "plan r v w = (Ok None, w')"
  shows "Reconcile r ns n w0 = (Ok \<lparr>RequeueAfter = 5 * Second\<rparr>, w')"
  unfolding Reconcile_found [OF assms(1)] by (simp add: bindM_def assms(2) returnM_def)

text \<open>The scope of the monitor action.\<close>

definition only_monitor :: "string \<Rightarrow> string \<Rightarrow> scope" where
  "only_monitor ns n k = (if k = OwnMonitor then ({ns}, {n}) else ({}, {}))"

section \<open>Clusters\<close>

text \<open>A cluster that records every write, with one virtual database and its deployment.\<close>

definition runningCluster :: "VirtualDatabase \<Rightarrow> Deployment \<Rightarrow> (string \<times> string) list Reconciler" where
  "runningCluster v item = emptyCluster\<lparr>
     vdbs := (recorder vdb_Meta)\<lparr>rGet := (\<lambda>ns n w. (Inr v, w))\<rparr>,
     deployments := (recorder dc_Meta)\<lparr>rGet := (\<lambda>ns n w. (Inr item, w))\<rparr>\<rparr>"

definition settledVdb :: "int \<Rightarrow> VirtualDatabase" where
  "settledVdb k = emptyVdb\<lparr>Spec := emptySpec\<lparr>spec_Env := [], Replicas := Some k\<rparr>,
     Status := emptyStatus\<lparr>Phase := ReconcilerPhaseRunning, Digest := hashSum CHR ''v'' (digestInput emptyVdb), ConfigDigest := hashSum CHR ''c'' []\<rparr>\<rparr>"

definition settledItem :: "int \<Rightarrow> EnvVar list \<Rightarrow> Deployment" where
  "settledItem k envs = (newDeployment (settledVdb k) [] envs ''img'')\<lparr>
     Conditions := [\<lparr>cond_Type = ''Available'', cond_Status = ''True''\<rparr>]\<rparr>"

lemma settledVdb_simps:
  "vdb_Phase (settledVdb k) = ReconcilerPhaseRunning" "Replicas (Spec (settledVdb k)) = Some k"
  "ConfigDigest (Status (settledVdb k)) = hashSum CHR ''c'' []" "\<not> IsVdbUpdated (settledVdb k)"
proof -
  have "digestInput (settledVdb k) = digestInput emptyVdb" by (simp add: settledVdb_def digestInput_def emptyVdb_def)
  then show "\<not> IsVdbUpdated (settledVdb k)" by (simp add: IsVdbUpdated_eq settledVdb_def)
qed (simp_all add: settledVdb_def)

lemma settledItem_simps:
  "hasCondition ''Available'' (settledItem k envs)" "dc_Replicas (settledItem k envs) = Some k"
  "map Env (Containers (Template (settledItem k envs))) = [envs]"
  by (simp_all add: settledItem_def newDeployment_def hasCondition_def settledVdb_simps)

lemma runningCluster_permits: "permits (\<lambda>_ _. False) nowhere (runningCluster v item)"
  "reads_within (\<lambda>_ _. False) (vdbs (runningCluster v item))" "permits (\<lambda>_ _. False) (only_monitor ns n) (runningCluster v item)"
  unfolding permits_def host_within_def
  by (auto simp: runningCluster_def emptyCluster_def recorder_def within_def nothing_def reads_within_def client_within_def
      allowed_def nowhere_def only_monitor_def emptyClient_def objectMeta_def)

lemma runningCluster_environment:
  "\<exists>envs. \<forall>item. deploymentEnvironments (runningCluster v item) (settledVdb k) [] = (Ok envs, [])"
proof -
  obtain base u where base: "getDefaultEnvs (emptyCluster :: (string \<times> string) list Reconciler) [] [] = (Ok base, u)"
    using getDefaultEnvs_base [of "emptyCluster :: (string \<times> string) list Reconciler" "[]" "[]"] by blast
  have ddl: "ParseDataSourcesInfoFromDdl [] = Ok []" by code_simp
  have result: "deploymentEnvironments (runningCluster v item) (settledVdb k) [] = (Ok (Combine base []), u)" for item
    using base ddl
    by (simp add: runningCluster_def settledVdb_def deploymentEnvironments_def FetchDdl_def usesJaeger_def convert2SpringProperties_def emptyVdb_def
        emptySpec_def emptySource_def emptyStatus_def bindM_def returnM_def resM_def getDefaultEnvs_upd)
  have "(\<lambda>_ _. False)\<^sup>*\<^sup>* [] u"
    using deployment_calls(5) [OF runningCluster_permits(1)] result by (rule callsD)
  then have "u = []" by (induction rule: rtranclp_induct) simp_all
  with result show ?thesis by blast
qed

text \<open>The environment as the API server stores it.\<close>

definition storedEnv :: "EnvVar \<Rightarrow> EnvVar" where
  "storedEnv e = e\<lparr>ValueFrom := map_option (\<lambda>src. src\<lparr>FieldRef :=
     map_option (\<lambda>f. if fs_APIVersion f = [] then f\<lparr>fs_APIVersion := ''v1''\<rparr> else f) (FieldRef src)\<rparr>) (ValueFrom e)\<rparr>"

lemma storedEnv_versioned: "list_all versioned (map storedEnv envs)"
  by (auto simp: list_all_iff versioned_def storedEnv_def split: option.splits)

text \<open>The same cluster without the deployment.\<close>

definition lostCluster :: "VirtualDatabase \<Rightarrow> (string \<times> string) list Reconciler" where
  "lostCluster v = emptyCluster\<lparr>vdbs := (recorder vdb_Meta)\<lparr>rGet := (\<lambda>ns n w. (Inr v, w))\<rparr>, deployments := recorder dc_Meta\<rparr>"

lemma lostCluster_permits: "permits (\<lambda>_ _. False) (only_monitor ns n) (lostCluster v)" "reads_within (\<lambda>_ _. False) (vdbs (lostCluster v))"
  unfolding permits_def host_within_def
  by (auto simp: lostCluster_def emptyCluster_def recorder_def within_def nothing_def reads_within_def client_within_def
      allowed_def only_monitor_def emptyClient_def objectMeta_def)

section \<open>Properties\<close>

text \<open>
  C10: drift is repaired. When the deployment of a running virtual database is available but has another number of replicas or
  another environment than the specification asks for, because a user edited either, the reconciliation writes the
  deployment with both corrected, and nothing else of it changed, writes nothing of the virtual database, and comes back after
  five seconds, also when the write of the deployment failed, so that it is tried again.
\<close>

theorem Reconcile_repairs:
  assumes "rGet (vdbs r) ns n w0 = (Inr v, w)" and "\<not> IsVdbUpdated v" and "vdb_Phase v = ReconcilerPhaseRunning"
    and "rGet (deployments r) (vdb_Namespace v) (vdb_Name v) w = (Inr item, w1)" and "hasCondition ''Available'' item"
    and "dc_Replicas item = Some m" and "Replicas (Spec v) = Some k" and "Containers (Template item) = c # cs"
    and "deploymentEnvironments r v w1 = (Ok envs, w2)" and "m \<noteq> k \<or> Env c \<noteq> envs"
  shows "\<exists>item'. dc_Replicas item' = Some k \<and> Containers (Template item') = c\<lparr>Env := envs\<rparr> # cs \<and>
    dc_Meta item' = dc_Meta item \<and> pod_Meta (Template item') = pod_Meta (Template item) \<and>
    Reconcile r ns n w0 = (Ok \<lparr>RequeueAfter = 5 * Second\<rparr>,
      snd (snd (prometheus_Handle r (v, snd (rUpdate (deployments r) item' w2)))))"
proof -
  let ?item' = "setEnv envs (item\<lparr>dc_Replicas := Some k\<rparr>)"
  note d = desiredItem_differs [OF assms(6-8,10)]
  obtain x where x: "deployment_Handle r (v, w) = (x, v, snd (rUpdate (deployments r) ?item' w2))" "\<forall>p. x \<noteq> Panic p"
    using deployment_Handle_repairs [OF assms(3-5,9) d] by blast
  obtain y w' where y: "prometheus_Handle r (v, snd (rUpdate (deployments r) ?item' w2)) = (y, v, w')" "\<forall>p. y \<noteq> Panic p"
    using prometheus_leaves [of r v] by blast
  have "Reconcile r ns n w0 = (Ok \<lparr>RequeueAfter = 5 * Second\<rparr>, w')"
    by (rule Reconcile_running [OF assms(1) plan_running [OF assms(3,2) x y]])
  with setEnv_simps [OF assms(8)] y show ?thesis by (intro exI [of _ ?item']) simp
qed

theorem Reconcile_repairs_witness:
  "\<exists>envs. Reconcile (runningCluster (settledVdb 3) (settledItem 2 envs)) ''ns'' ''shop'' [] =
     (Ok \<lparr>RequeueAfter = 5 * Second\<rparr>, [([], [])])"
proof -
  obtain envs where env: "\<And>item. deploymentEnvironments (runningCluster (settledVdb 3) item) (settledVdb 3) [] = (Ok envs, [])"
    using runningCluster_environment by blast
  let ?r = "runningCluster (settledVdb 3) (settledItem 2 envs)"
  obtain c where c: "Containers (Template (settledItem 2 envs)) = [c]" using settledItem_simps(3) [of 2 envs] by auto
  have get: "rGet (vdbs ?r) ''ns'' ''shop'' [] = (Inr (settledVdb 3), [])"
    "rGet (deployments ?r) (vdb_Namespace (settledVdb 3)) (vdb_Name (settledVdb 3)) [] = (Inr (settledItem 2 envs), [])"
    by (simp_all add: runningCluster_def)
  obtain item' where item': "dc_Meta item' = dc_Meta (settledItem 2 envs)"
    "Reconcile ?r ''ns'' ''shop'' [] = (Ok \<lparr>RequeueAfter = 5 * Second\<rparr>,
       snd (snd (prometheus_Handle ?r (settledVdb 3, snd (rUpdate (deployments ?r) item' [])))))"
    using Reconcile_repairs [OF get(1) settledVdb_simps(4,1) get(2) settledItem_simps(1,2) settledVdb_simps(2) c env] by auto
  then show ?thesis
    by (intro exI [of _ envs]) (simp add: runningCluster_def recorder_def prometheus_Handle_def hasPrometheus_def emptyCluster_def
      emptyClient_def settledItem_def newDeployment_def settledVdb_def emptyVdb_def objectMeta_def monad_defs)
qed

text \<open>
  C9: the deployment of a running virtual database is written again and again. The default variables refer to fields of the pod
  without naming the version of the schema, and the API server stores such references with the version filled in. So the comparison
  of the environments never finds them equal, unless the user defines all three of these variables: although replicas and environment
  are those of the specification, every reconciliation writes the deployment as it would after a drift, and
  comes back after five seconds. It writes nothing else but a missing monitor and never gets to compare the digest of the configuration: the pods keep
  the annotation that is to restart them when a secret or a config map changes.
\<close>

theorem Reconcile_rewrites:
  assumes "permits R (only_monitor (vdb_Namespace v) (vdb_Name v)) r" and "reads_within R (vdbs r)"
    and "rGet (vdbs r) ns n w0 = (Inr v, w)" and "\<not> IsVdbUpdated v" and "vdb_Phase v = ReconcilerPhaseRunning"
    and "rGet (deployments r) (vdb_Namespace v) (vdb_Name v) w = (Inr item, w1)" and "hasCondition ''Available'' item"
    and "dc_Replicas item = Some k" and "Replicas (Spec v) = Some k" and "Containers (Template item) = c # cs"
    and "list_all versioned (Env c)" and "x \<in> set podNames" and "Get (spec_Env (Spec v)) x = None"
    and "deploymentEnvironments r v w1 = (Ok envs, w2)"
  shows "\<exists>item' w'. Reconcile r ns n w0 = (Ok \<lparr>RequeueAfter = 5 * Second\<rparr>, w') \<and>
    R\<^sup>*\<^sup>* w0 w2 \<and> R\<^sup>*\<^sup>* (snd (rUpdate (deployments r) item' w2)) w' \<and>
    dc_Replicas item' = Some k \<and> Containers (Template item') = c\<lparr>Env := envs\<rparr> # cs \<and>
    dc_Meta item' = dc_Meta item \<and> pod_Meta (Template item') = pod_Meta (Template item)"
proof -
  have "Env c \<noteq> envs" using assms(11) deploymentEnvironments_unversioned [OF assms(14,12,13)] by auto
  then have "desiredItem v envs item = Ok (setEnv envs (item\<lparr>dc_Replicas := Some k\<rparr>), True)"
    by (intro desiredItem_differs [OF assms(8-10)]) simp
  moreover have "item\<lparr>dc_Replicas := Some k\<rparr> = item" using assms(8) by simp
  ultimately have d: "desiredItem v envs item = Ok (setEnv envs item, True)" by (simp only:)
  let ?u = "snd (rUpdate (deployments r) (setEnv envs item) w2)"
  obtain x where x: "deployment_Handle r (v, w) = (x, v, ?u)" "\<forall>p. x \<noteq> Panic p"
    using deployment_Handle_repairs [OF assms(5-7,14) d] by blast
  obtain y w' where y: "prometheus_Handle r (v, ?u) = (y, v, w')" "\<forall>p. y \<noteq> Panic p"
    using prometheus_leaves [of r v] by blast
  have "handles (vdb_Namespace v) (vdb_Name v) R (prometheus_Handle r)"
    by (rule prometheus_handles [OF assms(1)]) (simp add: allowed_def only_monitor_def)
  from handlesD [OF this _ y(1)] have "R\<^sup>*\<^sup>* ?u w'" by (simp add: keyOf_def)
  moreover have "R\<^sup>*\<^sup>* w1 w2" using deployment_calls(5) [OF assms(1)] assms(14) by (rule callsD)
  then have "R\<^sup>*\<^sup>* w0 w2"
    using get_steps [OF assms(2,3)] get_steps [OF permits_reads(5) [OF assms(1)] assms(6)] by (meson rtranclp_trans)
  moreover have "Reconcile r ns n w0 = (Ok \<lparr>RequeueAfter = 5 * Second\<rparr>, w')"
    by (rule Reconcile_running [OF assms(3) plan_running [OF assms(5,4) x y]])
  moreover have "item\<lparr>dc_Replicas := Some k\<rparr> = item" using assms(8) by simp
  note setEnv_simps [OF assms(10), where envs = envs and k = k, unfolded this]
  ultimately show ?thesis by (intro exI [of _ "setEnv envs item"] exI [of _ w']) simp
qed

theorem Reconcile_rewrites_witness:
  "\<exists>envs. (\<forall>item. deploymentEnvironments (runningCluster (settledVdb 3) item) (settledVdb 3) [] = (Ok envs, [])) \<and>
     Reconcile (runningCluster (settledVdb 3) (settledItem 3 (map storedEnv envs))) ''ns'' ''shop'' [] =
       (Ok \<lparr>RequeueAfter = 5 * Second\<rparr>, [([], [])])"
proof -
  obtain envs where env: "\<And>item. deploymentEnvironments (runningCluster (settledVdb 3) item) (settledVdb 3) [] = (Ok envs, [])"
    using runningCluster_environment by blast
  let ?item = "settledItem 3 (map storedEnv envs)"
  let ?r = "runningCluster (settledVdb 3) ?item"
  obtain c where c: "Containers (Template ?item) = [c]" "Env c = map storedEnv envs"
    using settledItem_simps(3) [of 3 "map storedEnv envs"] by auto
  have get: "rGet (vdbs ?r) ''ns'' ''shop'' [] = (Inr (settledVdb 3), [])"
    "rGet (deployments ?r) (vdb_Namespace (settledVdb 3)) (vdb_Name (settledVdb 3)) [] = (Inr ?item, [])"
    by (simp_all add: runningCluster_def)
  have "list_all versioned (Env c)" unfolding c(2) by (rule storedEnv_versioned)
  moreover have "''NAMESPACE'' \<in> set podNames" "Get (spec_Env (Spec (settledVdb 3))) ''NAMESPACE'' = None"
    by (simp_all add: podNames_def settledVdb_def)
  ultimately obtain item' w' where w': "Reconcile ?r ''ns'' ''shop'' [] = (Ok \<lparr>RequeueAfter = 5 * Second\<rparr>, w')"
      "dc_Meta item' = dc_Meta ?item" "(\<lambda>_ _. False)\<^sup>*\<^sup>* (snd (rUpdate (deployments ?r) item' [])) w'"
    using Reconcile_rewrites [OF runningCluster_permits(3,2) get(1) settledVdb_simps(4,1) get(2) settledItem_simps(1,2)
        settledVdb_simps(2) c(1) _ _ _ env] by blast
  from w'(3) have "w' = snd (rUpdate (deployments ?r) item' [])" by (induction rule: rtranclp_induct) simp_all
  with w'(2) have "w' = [([], [])]"
    by (simp add: runningCluster_def recorder_def settledItem_def newDeployment_def settledVdb_def emptyVdb_def objectMeta_def)
  with env w'(1) show ?thesis by blast
qed

text \<open>
  C11: a deployment that is gone is not made again. When the deployment of a virtual database that is deploying or running cannot be
  read, because somebody deleted it for instance, the reconciliation writes nothing but a missing monitor, leaves the phase as
  it is and comes back after five seconds; so the virtual database counts as running, without a pod, until its sources change.
\<close>

theorem Reconcile_never_recreates:
  assumes "permits R (only_monitor (vdb_Namespace v) (vdb_Name v)) r" and "reads_within R (vdbs r)"
    and "rGet (vdbs r) ns n w0 = (Inr v, w)" and "\<not> IsVdbUpdated v"
    and "vdb_Phase v = ReconcilerPhaseDeploying \<or> vdb_Phase v = ReconcilerPhaseRunning"
    and "rGet (deployments r) (vdb_Namespace v) (vdb_Name v) w = (Inl e, w1)"
  shows "\<exists>w'. Reconcile r ns n w0 = (Ok \<lparr>RequeueAfter = 5 * Second\<rparr>, w') \<and> R\<^sup>*\<^sup>* w0 w'"
proof -
  have h: "deployment_Handle r (v, w) = (Ok (), v, w1)"
    using assms(5,6) by (auto simp: handler_steps isDeploymentInReadyState_def isDeploymentProgressing_def emptyDeployment_def)
  have before: "R\<^sup>*\<^sup>* w0 w1"
    using get_steps [OF assms(2,3)] get_steps [OF permits_reads(5) [OF assms(1)] assms(6)] by (rule rtranclp_trans)
  from assms(5) show ?thesis
  proof
    assume phase: "vdb_Phase v = ReconcilerPhaseDeploying"
    with h assms(4) have "plan r v w = (Ok None, w1)"
      by (simp add: plan_def buildSteps_def new_action can_handle prometheus_CanHandle_def hasChanges_def returnM_def)
    from Reconcile_running [OF assms(3) this] before show ?thesis by blast
  next
    assume phase: "vdb_Phase v = ReconcilerPhaseRunning"
    obtain y w' where y: "prometheus_Handle r (v, w1) = (y, v, w')" "\<forall>p. y \<noteq> Panic p"
      using prometheus_leaves [of r v w1] by blast
    have "handles (vdb_Namespace v) (vdb_Name v) R (prometheus_Handle r)"
      by (rule prometheus_handles [OF assms(1)]) (simp add: allowed_def only_monitor_def)
    from handlesD [OF this _ y(1)] have "R\<^sup>*\<^sup>* w1 w'" by (simp add: keyOf_def)
    moreover have "plan r v w = (Ok None, w')" by (rule plan_running [OF phase assms(4) h _ y]) simp
    ultimately show ?thesis using Reconcile_running [OF assms(3)] before by (blast intro: rtranclp_trans)
  qed
qed

theorem Reconcile_never_recreates_witness:
  "\<exists>w'. Reconcile (lostCluster (settledVdb 3)) ''ns'' ''shop'' [] = (Ok \<lparr>RequeueAfter = 5 * Second\<rparr>, w') \<and> w' = []"
proof -
  have get: "rGet (vdbs (lostCluster (settledVdb 3))) ''ns'' ''shop'' [] = (Inr (settledVdb 3), [])"
    "rGet (deployments (lostCluster (settledVdb 3))) (vdb_Namespace (settledVdb 3)) (vdb_Name (settledVdb 3)) [] = (Inl (NotFound ''not found''), [])"
    by (simp_all add: lostCluster_def recorder_def)
  obtain w' where "Reconcile (lostCluster (settledVdb 3)) ''ns'' ''shop'' [] = (Ok \<lparr>RequeueAfter = 5 * Second\<rparr>, w')" "(\<lambda>_ _. False)\<^sup>*\<^sup>* [] w'"
    using Reconcile_never_recreates [OF lostCluster_permits get(1) settledVdb_simps(4) disjI2 [OF settledVdb_simps(1)] get(2)] by blast
  moreover from this(2) have "w' = []" by (induction rule: rtranclp_induct) simp_all
  ultimately show ?thesis by blast
qed

text \<open>What becomes of a virtual database that is deploying, for what the read of its deployment answers.\<close>

definition verdict :: "error + Deployment \<Rightarrow> ReconcilerPhase option" where
  "verdict x = (case x of Inl _ \<Rightarrow> None
     | Inr d \<Rightarrow>
         if \<exists>c \<in> set (Conditions d). cond_Type c = ''Available'' \<and> cond_Status c = ''True'' then Some ReconcilerPhaseRunning
         else if Conditions d \<noteq> [] \<and> (\<forall>c \<in> set (Conditions d). cond_Type c = ''Progressing'' \<longrightarrow> cond_Status c \<noteq> ''True'') \<and> 4 \<le> ObservedGeneration d
         then Some ReconcilerPhaseError else None)"

lemma verdict_item:
  "verdict (Inr d) =
     (if isDeploymentInReadyState d then Some ReconcilerPhaseRunning
      else if \<not> isDeploymentProgressing d then Some ReconcilerPhaseError else None)"
  by (cases "Conditions d")
    (auto simp: verdict_def isDeploymentInReadyState_def isDeploymentProgressing_def hasCondition_def list_ex_iff)

lemma verdict_none:
  "verdict (Inl e) = None" "\<not> isDeploymentInReadyState emptyDeployment" "isDeploymentProgressing emptyDeployment"
  by (simp_all add: verdict_def isDeploymentInReadyState_def isDeploymentProgressing_def emptyDeployment_def)

text \<open>
  C18: the watch over a deployment. A reconciliation of a deploying virtual database stores the running phase as soon as its
  deployment is available. It stores the error phase when the deployment is not available, reports conditions of which none says
  that it is progressing, and the generation it has observed is at least four. In every other case, for a deployment without conditions, a fresh one
  of a lower generation, or one that cannot be read, it writes nothing and comes back after five seconds.
\<close>

theorem Reconcile_watches:
  assumes "rGet (vdbs r) ns n w0 = (Inr v, w)" and "\<not> IsVdbUpdated v" and "vdb_Phase v = ReconcilerPhaseDeploying"
    and "rGet (deployments r) (vdb_Namespace v) (vdb_Name v) w = (x, w1)"
  shows "Reconcile r ns n w0 =
    (case verdict x of
       None \<Rightarrow> (Ok \<lparr>RequeueAfter = 5 * Second\<rparr>, w1)
     | Some p \<Rightarrow>
         (case rUpdate (vdbs r) (setPhase p v) w1 of
            (Inl e, w') \<Rightarrow> (Fail e, w')
          | (Inr _, w') \<Rightarrow> (Ok emptyResult, w')))"
proof -
  have h: "deployment_Handle r (v, w) = (Ok (), (case verdict x of None \<Rightarrow> v | Some p \<Rightarrow> setPhase p v), w1)"
    using assms(3,4) by (cases x) (simp_all add: handler_steps verdict_item verdict_none)
  have phases: "verdict x = Some p \<Longrightarrow> p \<noteq> ReconcilerPhaseDeploying" for p
    by (auto simp: verdict_def split: sum.splits if_splits)
  show ?thesis
  proof (cases "verdict x")
    case None
    with h assms(2,3) have "plan r v w = (Ok None, w1)"
      by (simp add: plan_def buildSteps_def new_action can_handle prometheus_CanHandle_def hasChanges_def returnM_def)
    from Reconcile_running [OF assms(1) this] None show ?thesis by simp
  next
    case (Some p)
    with phases assms(3) have "hasChanges v (setPhase p v)" by (auto simp: hasChanges_def dest: arg_cong [of _ _ Phase])
    with h Some assms(3) have "planSteps v (buildSteps r) v w = (Ok (Some (setPhase p v, None)), w1)"
      by (intro planSteps_decides [where bs = "take 6 (buildSteps r)" and a = "buildSteps r ! 6" and cs = "drop 7 (buildSteps r)"])
        (simp_all add: buildSteps_def new_action can_handle)
    with assms(2) Some show ?thesis
      unfolding Reconcile_found [OF assms(1)]
      by (simp add: plan_def bindM_def updateM_def callM_def returnM_def split: prod.split sum.split)
  qed
qed

text \<open>A deployment that fails in its fourth generation, and one that reports the same in its third.\<close>

definition failingItem :: "int \<Rightarrow> Deployment" where
  "failingItem g = emptyDeployment\<lparr>Conditions := [\<lparr>cond_Type = ''Progressing'', cond_Status = ''False''\<rparr>], ObservedGeneration := g\<rparr>"

theorem Reconcile_watches_witness:
  "fst (Reconcile (runningCluster (setPhase ReconcilerPhaseDeploying (settledVdb 3)) (failingItem 4)) ''ns'' ''shop'' []) = Ok emptyResult \<and>
   Reconcile (runningCluster (setPhase ReconcilerPhaseDeploying (settledVdb 3)) (failingItem 3)) ''ns'' ''shop'' [] =
     (Ok \<lparr>RequeueAfter = 5 * Second\<rparr>, [])"
proof -
  let ?v = "setPhase ReconcilerPhaseDeploying (settledVdb 3)"
  have "digestInput ?v = digestInput (settledVdb 3)" by (rule digestInput_cong) simp
  with settledVdb_simps(4) [of 3] have u: "\<not> IsVdbUpdated ?v" by (simp add: IsVdbUpdated_eq)
  have get: "rGet (vdbs (runningCluster ?v item)) ''ns'' ''shop'' [] = (Inr ?v, [])"
    "rGet (deployments (runningCluster ?v item)) (vdb_Namespace ?v) (vdb_Name ?v) [] = (Inr item, [])" for item
    by (simp_all add: runningCluster_def)
  have "verdict (Inr (failingItem 4)) = Some ReconcilerPhaseError" "verdict (Inr (failingItem 3)) = None"
    by (simp_all add: verdict_def failingItem_def)
  then show ?thesis
    by (simp add: Reconcile_watches [OF get(1) u _ get(2)]) (simp add: runningCluster_def recorder_def)
qed

end
