(* ===== verification/Builds.thy ===== *)
theory Builds
  imports Footprint
begin

text \<open>
  How many builds are started. \<open>counts_builds started r\<close> says that the world has a counter of the builds that were
  started, which every call but \<open>instantiateBinary\<close> leaves alone; \<open>starts started k m\<close> says that \<open>m\<close>, when it
  succeeds, has started \<open>k\<close> builds. The builder image action starts one for every failed build in the history.
\<close>

section \<open>Counting\<close>

definition but_builds :: scope where
  "but_builds k = (if k = OwnBuild \<or> k = BuilderBuild then ({}, {}) else (UNIV, UNIV))"

abbreviation (input) uncounted :: "('w \<Rightarrow> nat) \<Rightarrow> 'w \<Rightarrow> 'w \<Rightarrow> bool" where
  "uncounted started w w' \<equiv> started w' = started w"

definition counts_builds :: "('w \<Rightarrow> nat) \<Rightarrow> 'w Reconciler \<Rightarrow> bool" where
  "counts_builds started r \<longleftrightarrow>
     permits (uncounted started) but_builds r \<and> client_within (uncounted started) bc_Meta (\<lambda>_. True) (buildConfigs r) \<and>
     (\<forall>ns n t w. case instantiateBinary r ns n t w of
        (Inl _, w') \<Rightarrow> started w' = started w
      | (Inr _, w') \<Rightarrow> started w' = Suc (started w))"

definition starts :: "('w \<Rightarrow> nat) \<Rightarrow> nat \<Rightarrow> ('w, 'a) M \<Rightarrow> bool" where
  "starts started k m \<longleftrightarrow> (\<forall>w x w'. m w = (Ok x, w') \<longrightarrow> started w' = started w + k)"

lemma uncounted_rtranclp: "(uncounted started)\<^sup>*\<^sup>* w w' \<Longrightarrow> started w' = started w"
  by (induction rule: rtranclp_induct) simp_all

lemma uncounted_callsD: "calls (uncounted started) m \<Longrightarrow> m w = (x, w') \<Longrightarrow> started w' = started w"
  using uncounted_rtranclp callsD by metis

lemma starts_uncounted: "calls (uncounted started) m \<Longrightarrow> starts started 0 m"
  unfolding starts_def using uncounted_callsD by force

lemma starts_bind:
  assumes "starts started i m" and "\<And>x w w'. m w = (Ok x, w') \<Longrightarrow> starts started j (f x)"
  shows "starts started (i + j) (bindM m f)"
  unfolding starts_def
proof (intro allI impI)
  fix w y w'
  assume b: "bindM m f w = (Ok y, w')"
  then obtain x w1 where "m w = (Ok x, w1)" "f x w1 = (Ok y, w')"
    by (auto simp: bindM_def split: prod.splits res.splits)
  with assms show "started w' = started w + (i + j)" unfolding starts_def by fastforce
qed

lemma starts_after:
  assumes "calls (uncounted started) m" and "\<And>x w w'. m w = (Ok x, w') \<Longrightarrow> starts started j (f x)"
  shows "starts started j (bindM m f)"
  using starts_bind [OF starts_uncounted [OF assms(1)]] assms(2) by fastforce

lemma starts_try:
  assumes "calls (uncounted started) m" and "\<And>e w w'. m w = (Fail e, w') \<Longrightarrow> starts started j (f (Inl e))"
    and "\<And>x w w'. m w = (Ok x, w') \<Longrightarrow> starts started j (f (Inr x))"
  shows "starts started j (tryM m f)"
  unfolding starts_def
proof (intro allI impI)
  fix w y w'
  assume t: "tryM m f w = (Ok y, w')"
  obtain x w1 where m: "m w = (x, w1)" by fastforce
  have "started w' = started w1 + j"
    using t m assms(2,3) unfolding starts_def by (cases x) (auto simp: tryM_def)
  with uncounted_callsD [OF assms(1) m] show "started w' = started w + j" by simp
qed

lemma starts_panic: "starts started j (panicM p)"
  by (simp add: starts_def panicM_def)

lemma starts_option:
  "starts started j m \<Longrightarrow> (\<And>y. starts started j (n y)) \<Longrightarrow> starts started j (case x of None \<Rightarrow> m | Some y \<Rightarrow> n y)"
  by (cases x) simp_all

section \<open>The builder image\<close>

lemma s2i_triggerBuild_starts:
  assumes "counts_builds started r"
  shows "starts started 1 (s2i_triggerBuild r bc repos)"
proof -
  have permits: "permits (uncounted started) but_builds r" and bcs: "reads_within (uncounted started) (buildConfigs r)"
    using assms unfolding counts_builds_def client_within_def by blast+
  have run: "starts started 1 (callM (instantiateBinary r ns n t))" for ns n t
    using assms unfolding counts_builds_def starts_def callM_def by (auto split: prod.splits sum.splits)
  show ?thesis
    unfolding s2i_triggerBuild_def Let_def
    by (rule starts_after run rw bcs permits)+
qed

lemma retriggerFailed_starts:
  assumes "counts_builds started r"
  shows "starts started (length (filter buildFailed bs)) (retriggerFailed r v bc bs)"
proof (induction bs)
  case (Cons b bs)
  have "starts started (if buildFailed b then 1 else 0)
      (if buildFailed b then s2i_triggerBuild r bc (GetMavenRepositories (Config r) v) else returnM ())"
    using s2i_triggerBuild_starts [OF assms] by (simp add: starts_uncounted rw)
  from starts_bind [OF this Cons] show ?case by (simp split: if_splits)
qed (simp add: starts_uncounted rw)

lemma s2i_prepare_starts:
  assumes "counts_builds started r"
    and "\<forall>w. fst (rGet (buildConfigs r) (vdb_Namespace v) BuilderImageTargetName w) = Inr bc"
    and "\<forall>w. fst (rList (builds r) (vdb_Namespace v) (Some (''buildconfig'', BuilderImageTargetName)) w) = Inr bs"
  shows "starts started (if LastVersion bc = 0 then 1 else length (filter buildFailed bs)) (s2i_prepare r v)"
    (is "starts started ?k _")
proof -
  have permits: "permits (uncounted started) but_builds r" and bcs: "reads_within (uncounted started) (buildConfigs r)"
    using assms(1) unfolding counts_builds_def client_within_def by blast+
  have image: "allowed but_builds OwnImage m" for m by (simp add: allowed_def but_builds_def)
  have history: "xs = bs" if "getBuilds r v w = (Ok xs, w')" for xs w w'
    using that spec [OF assms(3), of w]
    by (auto simp: getBuilds_def listM_def callM_def split: prod.splits sum.splits)
  have builds: "starts started ?k (if LastVersion bc = 0 then s2i_triggerBuild r bc repos
      else bindM (getBuilds r v) (\<lambda>bs. retriggerFailed r v bc bs))" for repos
    using s2i_triggerBuild_starts [OF assms(1)]
    by (auto intro!: starts_after getBuilds_calls [OF permits] dest!: history intro: retriggerFailed_starts [OF assms(1)])
  have found: "y = Ok bc" if "getM (buildConfigs r) (vdb_Namespace v) BuilderImageTargetName w = (y, w')" for y w w'
    using that spec [OF assms(2), of w] by (auto simp: getM_def callM_def split: prod.splits)
  have get: "starts started ?k (tryM (getM (buildConfigs r) (Namespace (bc_Meta b)) (Name (bc_Meta b))) (\<lambda>x.
      bindM (case x of Inr bc \<Rightarrow> returnM bc | Inl e \<Rightarrow> m e) (\<lambda>bc.
        if LastVersion bc = 0 then s2i_triggerBuild r bc repos else bindM (getBuilds r v) (\<lambda>bs. retriggerFailed r v bc bs))))"
    if "s2i_buildBC r v s = (Ok b, s')" for b s s' m repos
    using ensuresD [OF s2i_buildBC_meta that] builds
    by (auto intro!: starts_try read_calls(1) [OF bcs] dest!: found simp: objectMeta_def)
  show ?thesis
    unfolding s2i_prepare_def Let_def
    by (rule get starts_try starts_after starts_option starts_panic s2i_buildBC_calls [OF permits image] image_calls(3) [OF permits image]
        permits_reads [OF permits] read_calls | assumption)+
qed

section \<open>Properties\<close>

text \<open>
  C23: every failed build of the builder image in the history is run again. When the action prepares the builder image and
  a build has run before, a success means that it has started as many new builds as the history has failed,
  erroneous and cancelled ones, all of the same content; so after a failure that the next builds share, their
  number grows with each attempt: one, two, four. Without a build before, it starts exactly one.
\<close>

theorem s2i_Handle_retries:
  assumes "counts_builds started r" and "vdb_Phase v = ReconcilerPhaseS2IReady"
    and "\<forall>w. fst (rGet (buildConfigs r) (vdb_Namespace v) BuilderImageTargetName w) = Inr bc"
    and "\<forall>w. fst (rList (builds r) (vdb_Namespace v) (Some (''buildconfig'', BuilderImageTargetName)) w) = Inr bs"
    and "s2i_Handle r (v, w) = (Ok (), v', w')"
  shows "started w' = started w + (if LastVersion bc = 0 then 1 else length (filter buildFailed bs))"
proof -
  have "s2i_prepare r v w = (Ok (), w')"
    using assms(2,5) by (auto simp: s2i_Handle_def bindM_def getV_def liftW_def modV_def split: prod.splits res.splits)
  with s2i_prepare_starts [OF assms(1,3,4)] show ?thesis unfolding starts_def by blast
qed

text \<open>A cluster that counts builds, with a history of four builds.\<close>

definition countingCluster :: "nat Reconciler" where
  "countingCluster = emptyCluster\<lparr>
     buildConfigs := constClient ((emptyBuildConfig BuilderImageTargetName ''ns'')\<lparr>LastVersion := 4\<rparr>),
     builds := emptyClient\<lparr>rList := (\<lambda>ns sel w. (Inr (map (\<lambda>p. emptyBuild\<lparr>build_Phase := p\<rparr>)
       [BuildPhaseFailed, BuildPhaseError, BuildPhaseRunning, BuildPhaseCancelled]), w))\<rparr>,
     imageStreamTags := constClient (imageStream ''openjdk'' ''ns''), instantiateBinary := (\<lambda>ns n t w. (Inr (), Suc w))\<rparr>"

lemma countingCluster_counts: "counts_builds (\<lambda>w. w) countingCluster"
  unfolding counts_builds_def permits_def host_within_def
  by (auto simp: countingCluster_def emptyCluster_def within_def nothing_def reads_within_def client_within_def
      allowed_def but_builds_def emptyClient_def constClient_def)

lemma succeeds_bindM_result:
  assumes "succeeds m" and "\<And>x s s'. m s = (Ok x, s') \<Longrightarrow> succeeds (f x)"
  shows "succeeds (bindM m f)"
  unfolding succeeds_def
proof
  fix s
  obtain x s' where "m s = (Ok x, s')" using assms(1) unfolding succeeds_def by (metis prod.collapse)
  with assms(2) [OF this] show "\<exists>y. fst (bindM m f s) = Ok y" by (simp add: bindM_def succeeds_def)
qed

lemma countingCluster_succeeds:
  "succeeds (getM (buildConfigs countingCluster) ns n)" "succeeds (getM (imageStreamTags countingCluster) ns n)"
  "succeeds (listM (builds countingCluster) ns sel)" "succeeds (callM (instantiateBinary countingCluster ns n t))"
  "succeeds (createM (buildConfigs countingCluster) b)" "succeeds (EncodeXML (xmlProject countingCluster) p)"
  "succeeds (readMavenSettingsFile countingCluster v rs)"
  by (simp_all add: succeeds_def countingCluster_def emptyCluster_def emptyClient_def constClient_def monad_defs getM_def listM_def
      createM_def EncodeXML_def readMavenSettingsFile_def HasSecret_def HasConfigMap_def GetSecret_def GetConfigMap_def Let_def)

lemma countingCluster_files: "succeeds (Tar countingCluster fs)"
  unfolding Tar_def
  by (intro succeeds_bindM succeeds_rangeM) (simp add: succeeds_def resM_def countingCluster_def emptyCluster_def)

lemma trigger_succeeds: "succeeds (s2i_triggerBuild countingCluster bc repos)"
proof -
  have "case ParseDataSourcesInfoFromDdl ddlFile of Ok _ \<Rightarrow> True | _ \<Rightarrow> False" by code_simp
  then have sources: "succeeds (resM (ParseDataSourcesInfoFromDdl ddlFile))"
    by (auto simp: succeeds_def resM_def split: res.splits)
  have "case ParseGAV ''org.teiid:teiid-common-core:12.3.1'' of Inr _ \<Rightarrow> True | _ \<Rightarrow> False" by code_simp
  then have dep: "succeeds (resM (of_sum (ParseGAV ''org.teiid:teiid-common-core:12.3.1'')))"
    by (auto simp: succeeds_def resM_def split: sum.splits)
  have ddl: "DDL (vdb_Source (builderVdb ns repos)) = ddlFile" for ns by (simp add: builderVdb_def)
  have pom: "succeeds (GenerateVdbPom countingCluster (builderVdb ns repos) sources True True True)" for ns sources
    unfolding succeeds_def
  proof
    fix w
    have "Dependencies (vdb_Source (builderVdb ns repos)) = []" by (simp add: builderVdb_def emptySource_def)
    with GenerateVdbPom_cases [of countingCluster "builderVdb ns repos" sources True True True w]
    show "\<exists>p. fst (GenerateVdbPom countingCluster (builderVdb ns repos) sources True True True w) = Ok p" by auto
  qed
  show ?thesis
    unfolding s2i_triggerBuild_def Let_def ddl
    by (intro succeeds_bindM countingCluster_succeeds countingCluster_files sources dep pom succeeds_rangeM)
qed

lemma retrigger_succeeds: "succeeds (retriggerFailed countingCluster v bc bs)"
  by (induction bs) (auto intro!: succeeds_bindM trigger_succeeds)

lemma image_succeeds: "succeeds (CheckImageStream r n ns)" "succeeds (EnsureImageStream countingCluster n ns b m)"
proof -
  show 1: "succeeds (CheckImageStream r n ns)" for r :: "'w Reconciler"
    unfolding CheckImageStream_def Let_def getM_def by (auto intro!: succeeds_tryM np split: sum.split)
  show "succeeds (EnsureImageStream countingCluster n ns b m)"
    unfolding EnsureImageStream_def createLocalImageStream_def Let_def createM_def
    by (auto intro!: succeeds_bindM 1 succeeds_tryM np simp: countingCluster_def emptyCluster_def)
qed

lemma buildBC_succeeds: "succeeds (s2i_buildBC r v)" "ensures (s2i_buildBC r v) (\<lambda>bc. SourceStrategy bc \<noteq> None)"
proof -
  have stream: "succeeds (CreateImageStream r n ns i t)" for n ns i t
    unfolding succeeds_def using CreateImageStream_reports_success by (metis fst_conv)
  show "succeeds (s2i_buildBC r v)"
    unfolding s2i_buildBC_def javaProperties_def Let_def
    by (auto intro!: succeeds_bindM succeeds_rangeM image_succeeds(1) stream split: prod.split)
qed (unfold s2i_buildBC_def, (rule ens)+, simp)

lemma succeeds_tryM_Ok: "succeeds m \<Longrightarrow> (\<And>x. succeeds (f (Inr x))) \<Longrightarrow> succeeds (tryM m f)"
  unfolding succeeds_def tryM_def by (auto split: prod.split res.split) (metis fst_conv res.distinct(1,3))+

lemma prepare_succeeds: "succeeds (s2i_prepare countingCluster v)"
  unfolding s2i_prepare_def Let_def getBuilds_def
proof (rule succeeds_tryM, goal_cases)
  case (2 d)
  show ?case
  proof (rule succeeds_bindM_result [OF buildBC_succeeds(1)], goal_cases)
    case (1 bc s s')
    from ensuresD [OF buildBC_succeeds(2) this] obtain st where "SourceStrategy bc = Some st" by blast
    then show ?case
      by (simp only: option.case) (intro succeeds_bindM succeeds_tryM_Ok image_succeeds(2) countingCluster_succeeds; simp add: succeeds_bindM
        countingCluster_succeeds trigger_succeeds retrigger_succeeds)
  qed
qed (simp add: getM_def np)

theorem s2i_Handle_retries_witness:
  "snd (snd (s2i_Handle countingCluster (setPhase ReconcilerPhaseS2IReady (emptyVdb\<lparr>vdb_Meta := objectMeta ''shop'' ''ns''\<rparr>), 0))) = 3"
proof -
  let ?v = "setPhase ReconcilerPhaseS2IReady (emptyVdb\<lparr>vdb_Meta := objectMeta ''shop'' ''ns''\<rparr>)"
  obtain x where "fst (s2i_prepare countingCluster ?v 0) = Ok x" using prepare_succeeds [of ?v] unfolding succeeds_def by blast
  then have "fst (s2i_Handle countingCluster (?v, 0)) = Ok ()"
    by (cases "s2i_prepare countingCluster ?v 0") (simp add: s2i_Handle_def monad_defs)
  then obtain v' w' where h: "s2i_Handle countingCluster (?v, 0) = (Ok (), v', w')" by (metis prod.collapse)
  have "w' = 0 + (if LastVersion ((emptyBuildConfig BuilderImageTargetName ''ns'')\<lparr>LastVersion := 4\<rparr>) = 0 then 1
      else length (filter buildFailed (map (\<lambda>p. emptyBuild\<lparr>build_Phase := p\<rparr>)
        [BuildPhaseFailed, BuildPhaseError, BuildPhaseRunning, BuildPhaseCancelled])))"
    by (rule s2i_Handle_retries [OF countingCluster_counts _ _ _ h]) (simp_all add: countingCluster_def constClient_def)
  with h show ?thesis by (simp add: buildFailed_def emptyBuildConfig_def)
qed

end
