(* ===== verification/Kube_Client.thy ===== *)
theory Kube_Client
  imports Util Zip
begin

text \<open>
  \<open>pkg/client/client.go\<close> and \<open>pkg/util/logs/logs.go\<close>: the construction of the API clients, the
  namespace named by a kubeconfig file, and the variables that control logging. The constructors of the
  client libraries and the decoder of a kubeconfig file are parameters.
\<close>

section \<open>Variables\<close>

definition GetEnv :: "(string \<Rightarrow> string option) \<Rightarrow> string \<Rightarrow> string \<Rightarrow> string" where
  "GetEnv env key fallback = (case env key of None \<Rightarrow> fallback | Some value \<Rightarrow> value)"

definition GetBoolEnv :: "(string \<Rightarrow> string option) \<Rightarrow> string \<Rightarrow> bool" where
  "GetBoolEnv env key =
     (case ParseBool (GetEnv env key ''false'') of (_, Some err) \<Rightarrow> False | (ret, None) \<Rightarrow> ret)"

section \<open>The client of the operator\<close>

text \<open>The parts of a client are opaque: what matters is which of them exist.\<close>

record ('c, 'k, 's, 'i) defaultClient =
  cl_Client :: 'c
  cl_Interface :: 'k
  cl_scheme :: 's
  cl_ispnClient :: 'i

definition GetScheme :: "('c, 'k, 's, 'i) defaultClient \<Rightarrow> 's" where
  "GetScheme c = cl_scheme c"

definition IspnClient :: "('c, 'k, 's, 'i) defaultClient \<Rightarrow> 'i" where
  "IspnClient c = cl_ispnClient c"

record ('w, 'f, 'c, 'k, 's, 'i) ClientFactory =
  newClientset :: "'f \<Rightarrow> 'w \<Rightarrow> (error + 'k) \<times> 'w"
  newIspn :: "'f \<Rightarrow> 'w \<Rightarrow> (error + 'i) \<times> 'w"
  newController :: "'f \<Rightarrow> 's \<Rightarrow> 'w \<Rightarrow> (error + 'c) \<times> 'w"
  loadConfig :: "'w \<Rightarrow> (error + 'f) \<times> 'w"
  clientScheme :: 's
  addToScheme :: "'s \<Rightarrow> error + 's"
  homeDir :: "'w \<Rightarrow> (error + string) \<times> 'w"
  setenv :: "string \<Rightarrow> string \<Rightarrow> 'w \<Rightarrow> 'w"
  decodeConfig :: "string \<Rightarrow> error + string"

definition FromManager ::
  "('w, 'f, 'c, 'k, 's, 'i) ClientFactory \<Rightarrow> 'f \<Rightarrow> 'c \<Rightarrow> 's \<Rightarrow> ('w, ('c, 'k, 's, 'i) defaultClient) M" where
  "FromManager f config client scheme =
     bindM (callM (newClientset f config)) (\<lambda>clientset.
     bindM (callM (newIspn f config)) (\<lambda>ispnClientSet.
       returnM \<lparr>cl_Client = client, cl_Interface = clientset, cl_scheme = scheme, cl_ispnClient = ispnClientSet\<rparr>))"

text \<open>The home directory that cannot be found is a panic: \<open>panic(err)\<close>.\<close>

definition getDefaultKubeConfigFile :: "('w, 'f, 'c, 'k, 's, 'i) ClientFactory \<Rightarrow> ('w, string) M" where
  "getDefaultKubeConfigFile f =
     tryM (callM (homeDir f)) (\<lambda>x. case x of
       Inl e \<Rightarrow> panicM (Error e)
     | Inr home \<Rightarrow> returnM (filepathJoin home ''.kube/config''))"

definition client_initialize :: "('w, 'f, 'c, 'k, 's, 'i) ClientFactory \<Rightarrow> string \<Rightarrow> ('w, unit) M" where
  "client_initialize f kubeconfig =
     bindM (if kubeconfig = [] then getDefaultKubeConfigFile f else returnM kubeconfig) (\<lambda>kubeconfig w.
       (Ok (), setenv f ''KUBECONFIG'' kubeconfig w))"

definition NewOutOfClusterClient ::
  "('w, 'f, 'c, 'k, 's, 'i) ClientFactory \<Rightarrow> string \<Rightarrow> ('w, ('c, 'k, 's, 'i) defaultClient) M" where
  "NewOutOfClusterClient f kubeconfig =
     bindM (client_initialize f kubeconfig) (\<lambda>_.
     bindM (callM (loadConfig f)) (\<lambda>cfg.
     bindM (resM (of_sum (addToScheme f (clientScheme f)))) (\<lambda>scheme.
     bindM (callM (newClientset f cfg)) (\<lambda>clientset.
     bindM (callM (newController f cfg scheme)) (\<lambda>dynClient.
     bindM (callM (newIspn f cfg)) (\<lambda>ispnClientSet.
       returnM \<lparr>cl_Client = dynClient, cl_Interface = clientset, cl_scheme = scheme, cl_ispnClient = ispnClientSet\<rparr>))))))"

definition GetCurrentNamespace ::
  "('w, 'f, 'c, 'k, 's, 'i) ClientFactory \<Rightarrow> (string \<Rightarrow> 'w \<Rightarrow> (error + string) \<times> 'w) \<Rightarrow> string \<Rightarrow> ('w, string) M" where
  "GetCurrentNamespace f readFile kubeconfig =
     bindM (if kubeconfig = [] then getDefaultKubeConfigFile f else returnM kubeconfig) (\<lambda>kubeconfig.
       if kubeconfig = [] then returnM ''default''
       else bindM (callM (readFile kubeconfig)) (\<lambda>data.
              if data = [] then failM (Err ''kubernetes config file is empty'')
              else resM (of_sum (decodeConfig f data))))"

section \<open>Lemmas\<close>

lemma GetBoolEnv_unset: "env key = None \<Longrightarrow> \<not> GetBoolEnv env key"
  by (simp add: GetBoolEnv_def GetEnv_def ParseBool_def)

lemma cleanStack_nonempty: "[] \<notin> set out \<Longrightarrow> [] \<notin> set (cleanStack rooted out cs)"
  by (induction rooted out cs rule: cleanStack.induct) (auto split: list.splits)

lemma Clean_nonempty: "Clean p \<noteq> []"
proof (cases "cleanStack (IsAbs p) [] (Split p CHR ''/'')")
  case (Cons c cs)
  moreover from this cleanStack_nonempty [of "[]" "IsAbs p" "Split p CHR ''/''"] have "c \<noteq> []" by auto
  ultimately show ?thesis by (cases cs) (simp_all add: Clean_def Let_def)
qed (simp add: Clean_def Let_def)

text \<open>
  A default path is never empty, so the answer \<open>default\<close> is never given: without an explicit file the one
  in the home directory is read, and a missing file is an error.
\<close>

lemma GetCurrentNamespace_reads:
  assumes "homeDir f w = (Inr home, w1)"
  shows "GetCurrentNamespace f readFile [] w =
    bindM (callM (readFile (filepathJoin home ''.kube/config''))) (\<lambda>data.
      if data = [] then failM (Err ''kubernetes config file is empty'') else resM (of_sum (decodeConfig f data))) w1"
proof -
  have "filepathJoin home ''.kube/config'' \<noteq> []" by (simp add: filepathJoin_def Clean_nonempty)
  with assms show ?thesis
    by (simp add: GetCurrentNamespace_def getDefaultKubeConfigFile_def bindM_def tryM_def callM_def returnM_def
        split: prod.split sum.split)
qed

text \<open>A client is complete or not there at all.\<close>

lemma FromManager_parts:
  assumes "FromManager f config client scheme w = (Ok c, w')"
  shows "\<exists>w1. fst (newClientset f config w) = Inr (cl_Interface c) \<and> newIspn f config w1 = (Inr (cl_ispnClient c), w') \<and>
    cl_Client c = client \<and> cl_scheme c = scheme"
proof -
  obtain x w1 where x: "newClientset f config w = (x, w1)" by fastforce
  obtain y w2 where y: "newIspn f config w1 = (y, w2)" by fastforce
  show ?thesis using assms x y
    by (cases x; cases y) (auto simp: FromManager_def bindM_def callM_def returnM_def)
qed

end
