(* ===== verification/Watch.thy ===== *)
theory Watch
  imports Controller Kube_Client
begin

text \<open>
  \<open>watch.go\<close> and \<open>pkg/controller\<close>: the construction of the reconciler, the kinds the controller watches,
  the filter on the events of virtual databases, and the registration with the manager. The controller
  library is a parameter.
\<close>

section \<open>Filters\<close>

definition UpdateFunc :: "VirtualDatabase \<Rightarrow> VirtualDatabase \<Rightarrow> bool" where
  "UpdateFunc oldVirtualDatabase newVirtualDatabase \<longleftrightarrow>
     Generation (vdb_Meta oldVirtualDatabase) \<noteq> Generation (vdb_Meta newVirtualDatabase) \<or>
     vdb_Phase oldVirtualDatabase \<noteq> vdb_Phase newVirtualDatabase"

definition DeleteFunc :: "bool \<Rightarrow> bool" where
  "DeleteFunc deleteStateUnknown \<longleftrightarrow> \<not> deleteStateUnknown"

section \<open>Watches\<close>

datatype WatchHandler = EnqueueRequestForOwner bool string | EnqueueRequestForObject

record WatchSpec =
  watch_Type :: string
  watch_Handler :: WatchHandler
  watch_Filter :: "((VirtualDatabase \<Rightarrow> VirtualDatabase \<Rightarrow> bool) \<times> (bool \<Rightarrow> bool)) option"

definition ownerWatch :: "string \<Rightarrow> WatchSpec" where
  "ownerWatch kind =
     \<lparr>watch_Type = kind, watch_Handler = EnqueueRequestForOwner True ''VirtualDatabase'', watch_Filter = None\<rparr>"

definition watchObjects :: "string list" where
  "watchObjects = [''VirtualDatabase'', ''BuildConfig'', ''Build'', ''ImageStream'', ''Deployment'']"

definition watchOwnedObjects :: "string list" where
  "watchOwnedObjects =
     [''DeploymentConfig'', ''PersistentVolumeClaim'', ''Service'', ''Route'', ''BuildConfig'', ''Build'', ''ImageStream'']"

definition vdbWatch :: WatchSpec where
  "vdbWatch = \<lparr>watch_Type = ''VirtualDatabase'', watch_Handler = EnqueueRequestForObject,
     watch_Filter = Some (UpdateFunc, DeleteFunc)\<rparr>"

definition watch_add ::
  "(string \<Rightarrow> 'w \<Rightarrow> (error + unit) \<times> 'w) \<Rightarrow> (WatchSpec \<Rightarrow> 'w \<Rightarrow> (error + unit) \<times> 'w) \<Rightarrow> ('w, unit) M" where
  "watch_add ctrlNew watch =
     bindM (callM (ctrlNew ''virtualdatabase-controller'')) (\<lambda>_.
     bindM (forM watchObjects (\<lambda>k. callM (watch (ownerWatch k)))) (\<lambda>_.
     bindM (callM (watch vdbWatch)) (\<lambda>_.
       forM watchOwnedObjects (\<lambda>k. callM (watch (ownerWatch k))))))"

section \<open>The reconciler\<close>

text \<open>
  When a client cannot be made the code returns a reconciler whose clients are all nil, here \<open>None\<close>. The
  constructors of the clients are parameters; \<open>built\<close> is the reconciler over the clients they make.
\<close>

record 'w Clients =
  newImageClient :: "'w \<Rightarrow> (error + unit) \<times> 'w"
  newBuildClient :: "'w \<Rightarrow> (error + unit) \<times> 'w"
  newMonitorClient :: "'w \<Rightarrow> (error + unit) \<times> 'w"
  newJaegerClient :: "'w \<Rightarrow> (error + unit) \<times> 'w"
  built :: "'w Reconciler"

fun tryAll :: "('w \<Rightarrow> (error + unit) \<times> 'w) list \<Rightarrow> ('w, bool) M" where
  "tryAll [] = returnM True"
| "tryAll (c # cs) = tryM (callM c) (\<lambda>x. case x of Inl _ \<Rightarrow> returnM False | Inr _ \<Rightarrow> tryAll cs)"

definition newReconciler :: "'w Clients \<Rightarrow> ('w, 'c) M \<Rightarrow> ('w, 'y) SampleBox \<Rightarrow> ('w, 'w Reconciler option) M" where
  "newReconciler c teiidClient box =
     bindM (tryAll [newImageClient c, newBuildClient c, newMonitorClient c, newJaegerClient c]) (\<lambda>ok.
       if \<not> ok then returnM None
       else tryM teiidClient (\<lambda>x. case x of
         Inl _ \<Rightarrow> returnM None
       | Inr _ \<Rightarrow> tryM (ConsoleYAMLSampleExists (built c)) (\<lambda>x. case x of
           Inr _ \<Rightarrow> bindM (CreateConsoleYAMLSamples box) (\<lambda>_. returnM (Some (built c)))
         | Inl _ \<Rightarrow> returnM (Some (built c)))))"

text \<open>The manager gives the configuration, the cached client and the scheme of the operator's client.\<close>

record ('f, 'c, 's) Manager =
  mgr_Config :: 'f
  mgr_Client :: 'c
  mgr_Scheme :: 's

definition Add ::
  "('f, 'c, 's) Manager \<Rightarrow> ('w, 'f, 'c, 'k, 's, 'i) ClientFactory \<Rightarrow> 'w Clients \<Rightarrow> ('w, 'y) SampleBox \<Rightarrow>
   ('w Reconciler option \<Rightarrow> string \<Rightarrow> 'w \<Rightarrow> (error + unit) \<times> 'w) \<Rightarrow> (WatchSpec \<Rightarrow> 'w \<Rightarrow> (error + unit) \<times> 'w) \<Rightarrow> ('w, unit) M" where
  "Add mgr f c box ctrlNew watch =
     bindM (newReconciler c (FromManager f (mgr_Config mgr) (mgr_Client mgr) (mgr_Scheme mgr)) box) (\<lambda>r.
       watch_add (ctrlNew r) watch)"

text \<open>\<open>AddToManagerFuncs\<close> holds what the \<open>init\<close> functions register: \<open>Add\<close> of this controller.\<close>

definition AddToManager :: "('w, unit) M list \<Rightarrow> ('w, unit) M" where
  "AddToManager AddToManagerFuncs = forM AddToManagerFuncs (\<lambda>f. f)"

section \<open>Lemmas\<close>

text \<open>
  Of all watches only the one with the filter looks at the virtual databases themselves; the others
  follow an owner, and a virtual database has none.
\<close>

lemma watch_add_Ok:
  assumes "\<And>n w. fst (ctrlNew n w) = Inr ()" and "\<And>s w. fst (watch s w) = Inr ()"
  shows "succeeds (watch_add ctrlNew watch)"
proof -
  have c: "succeeds (callM (ctrlNew n))" "succeeds (callM (watch s))" for n s
    using assms by (simp_all add: succeeds_def callM_def split_def)
  have "succeeds (forM ks (\<lambda>k. callM (watch (ownerWatch k))))" for ks
    by (induction ks) (auto intro: succeeds_bindM c)
  then show ?thesis unfolding watch_add_def by (auto intro!: succeeds_bindM c)
qed

text \<open>
  The documented behaviour of the API server for a custom resource without a status subresource, which is what
  \<open>deploy/crds/teiid.io_virtualdatabases_crd.yaml\<close> defines: an update that changes specification or status gets another
  generation. The comment on the filter in \<open>watch.go\<close> takes the opposite for granted, as it would be with a subresource.
\<close>

definition counts_generations :: "'w Reconciler \<Rightarrow> VirtualDatabase \<Rightarrow> bool" where
  "counts_generations r v \<longleftrightarrow>
     (\<forall>x w y w'. rUpdate (vdbs r) x w = (Inr y, w') \<longrightarrow> vdb_Meta x = vdb_Meta v \<longrightarrow> hasChanges v x \<longrightarrow>
        Generation (vdb_Meta y) \<noteq> Generation (vdb_Meta v))"

lemma vdb_step_changes:
  assumes "vdb_step r v v'"
  shows "hasChanges v v' \<and> vdb_Meta v' = vdb_Meta v"
proof (cases "IsVdbUpdated v")
  case True
  with vdb_step_good [OF assms] have "v' = RedeployVdb v" by simp
  with True have "Digest (Status v') \<noteq> Digest (Status v)" and "vdb_Meta v' = vdb_Meta v"
    by (simp_all add: IsVdbUpdated_eq RedeployVdb_frame)
  then show ?thesis by (auto simp: hasChanges_def)
next
  case False
  with vdb_step_good [OF assms] show ?thesis by (simp add: goodStep_def keeps_def)
qed

text \<open>A failing client constructor is logged, and the controller is registered all the same.\<close>

lemma newReconciler_succeeds:
  assumes "noPanic teiidClient"
  shows "succeeds (newReconciler c teiidClient box)"
proof -
  have 1: "succeeds (tryAll cs)" for cs :: "('a \<Rightarrow> (error + unit) \<times> 'a) list"
    by (induction cs) (auto intro!: succeeds_tryM np split: sum.split)
  have 2: "succeeds (CreateConsoleYAMLSamples box)"
    unfolding succeeds_def using CreateConsoleYAMLSamples_all [of box] by (metis fst_conv)
  have 3: "succeeds (tryM (ConsoleYAMLSampleExists (built c)) (\<lambda>x. case x of
      Inr _ \<Rightarrow> bindM (CreateConsoleYAMLSamples box) (\<lambda>_. returnM (Some (built c))) | Inl _ \<Rightarrow> returnM (Some (built c))))"
    unfolding ConsoleYAMLSampleExists_def by (rule succeeds_tryM) (auto intro!: np succeeds_bindM 2 split: sum.split)
  show ?thesis
    unfolding newReconciler_def by (rule succeeds_bindM [OF 1]) (auto intro!: succeeds_tryM assms 3 split: sum.split)
qed

lemma newReconciler_nil:
  assumes "newImageClient c w = (Inl e, w')"
  shows "newReconciler c teiidClient box w = (Ok None, w')"
  using assms by (simp add: newReconciler_def bindM_def tryM_def callM_def returnM_def)

end
