(* ===== verification/Operator_Main.thy ===== *)
theory Operator_Main
  imports Watch
begin

text \<open>
  \<open>cmd/manager/main.go\<close>: the start of the operator process, the kinds it reports metrics for and the
  label of its own service monitor. The operator SDK and the controller library are parameters.
\<close>

section \<open>Kinds with metrics\<close>

record GroupVersionKind =
  gvk_Group :: string
  gvk_Version :: string
  gvk_Kind :: string

definition gvkFilters :: "GroupVersionKind list" where
  "gvkFilters =
     [\<lparr>gvk_Group = ''route.openshift.io'', gvk_Version = ''*'', gvk_Kind = ''Route''\<rparr>,
      \<lparr>gvk_Group = ''image.openshift.io'', gvk_Version = ''*'', gvk_Kind = ''ImageStream''\<rparr>,
      \<lparr>gvk_Group = ''apps.openshift.io'', gvk_Version = ''*'', gvk_Kind = ''DeploymentConfig''\<rparr>]"

definition gvkMatches :: "GroupVersionKind \<Rightarrow> GroupVersionKind \<Rightarrow> bool" where
  "gvkMatches gvkFilter gvk =
     (if gvk_Kind gvkFilter = ''*'' \<and> gvk_Group gvkFilter = ''*'' \<and> gvk_Version gvkFilter = ''*'' then False
      else (let match = (if gvk_Kind gvkFilter \<noteq> ''*'' \<and> gvk_Kind gvkFilter \<noteq> gvk_Kind gvk then False else True);
                match = (if gvk_Group gvkFilter \<noteq> ''*'' \<and> gvk_Group gvkFilter \<noteq> gvk_Group gvk then False else match) in
            if gvk_Version gvkFilter \<noteq> ''*'' \<and> gvk_Version gvkFilter \<noteq> gvk_Version gvk then False else match))"

fun filterLoop :: "GroupVersionKind \<Rightarrow> GroupVersionKind list \<Rightarrow> GroupVersionKind list \<Rightarrow> GroupVersionKind list" where
  "filterLoop gvk [] ownGVKs = ownGVKs"
| "filterLoop gvk (f # fs) ownGVKs =
     filterLoop gvk fs (if gvkMatches f gvk then ownGVKs @ [gvk] else ownGVKs)"

definition filterGKVsFromAddToScheme :: "GroupVersionKind list \<Rightarrow> GroupVersionKind list" where
  "filterGKVsFromAddToScheme gvks = foldl (\<lambda>own gvk. filterLoop gvk gvkFilters own) [] gvks"

section \<open>The process\<close>

definition metricsHost :: string where
  "metricsHost = ''0.0.0.0''"

definition metricsPort :: int where
  "metricsPort = 8383"

definition operatorMetricsPort :: int where
  "operatorMetricsPort = 8686"

record 'w Sdk =
  GetWatchNamespace :: "'w \<Rightarrow> (error + string) \<times> 'w"
  GetConfig :: "'w \<Rightarrow> (error + unit) \<times> 'w"
  leaderBecome :: "string \<Rightarrow> 'w \<Rightarrow> (error + unit) \<times> 'w"
  managerNew :: "string \<Rightarrow> string \<Rightarrow> 'w \<Rightarrow> (error + unit) \<times> 'w"
  AddToScheme :: "'w \<Rightarrow> (error + unit) \<times> 'w"
  managerStart :: "'w \<Rightarrow> (error + unit) \<times> 'w"
  GetGVKs :: "'w \<Rightarrow> (error + GroupVersionKind list) \<times> 'w"
  GetOperatorNamespace :: "'w \<Rightarrow> (error + string) \<times> 'w"
  GenerateAndServeCRMetrics :: "string list \<Rightarrow> GroupVersionKind list \<Rightarrow> string \<Rightarrow> int \<Rightarrow> 'w \<Rightarrow> (error + unit) \<times> 'w"
  CreateMetricsService :: "ServicePort list \<Rightarrow> 'w \<Rightarrow> (error + Service) \<times> 'w"
  CreateServiceMonitors :: "string \<Rightarrow> Service option list \<Rightarrow> (ServiceMonitor \<Rightarrow> ServiceMonitor) \<Rightarrow> 'w \<Rightarrow> (error + unit) \<times> 'w"
  ErrRunLocal :: error

text \<open>The keys of the label map are visited in any order; as the keys differ the result does not depend on it.\<close>

definition addMonitoringKeyLabelToOperatorServiceMonitor :: "ServiceMonitor \<Rightarrow> ServiceMonitor" where
  "addMonitoringKeyLabelToOperatorServiceMonitor m =
     (let updatedLabels = foldl (\<lambda>labels (k, v). AList.update k v labels) [(''monitoring-key'', ''middleware'')] (Labels (sm_Meta m)) in
      m\<lparr>sm_Meta := (sm_Meta m)\<lparr>Labels := updatedLabels\<rparr>\<rparr>)"

definition serveCRMetrics :: "'w Sdk \<Rightarrow> ('w, unit) M" where
  "serveCRMetrics s =
     bindM (callM (GetGVKs s)) (\<lambda>gvks.
     let filteredGVK = filterGKVsFromAddToScheme gvks in
     bindM (callM (GetOperatorNamespace s)) (\<lambda>operatorNs.
       callM (GenerateAndServeCRMetrics s [operatorNs] filteredGVK metricsHost operatorMetricsPort)))"

definition metricsServicePorts :: "ServicePort list" where
  "metricsServicePorts =
     [\<lparr>sp_Name = ''http-metrics'', sp_Protocol = ''TCP'', Port = metricsPort, sp_TargetPort = metricsPort\<rparr>,
      \<lparr>sp_Name = ''cr-metrics'', sp_Protocol = ''TCP'', Port = operatorMetricsPort, sp_TargetPort = operatorMetricsPort\<rparr>]"

definition addMetrics :: "'w Sdk \<Rightarrow> ('w, unit) M" where
  "addMetrics s =
     tryM (serveCRMetrics s) (\<lambda>x.
       if x = Inl (ErrRunLocal s) then returnM ()
       else tryM (callM (CreateMetricsService s metricsServicePorts)) (\<lambda>service.
            tryM (callM (GetOperatorNamespace s)) (\<lambda>ns.
            tryM (callM (CreateServiceMonitors s (case ns of Inl _ \<Rightarrow> [] | Inr n \<Rightarrow> n)
                [case service of Inl _ \<Rightarrow> None | Inr svc \<Rightarrow> Some svc] addMonitoringKeyLabelToOperatorServiceMonitor))
              (\<lambda>_. returnM ()))))"

text \<open>\<open>addControllers\<close> is \<open>AddToManager\<close>. The result is the exit code of the process.\<close>

definition operator_main :: "'w Sdk \<Rightarrow> ('w, unit) M \<Rightarrow> ('w, int) M" where
  "operator_main s addControllers =
     tryM (bindM (callM (GetWatchNamespace s)) (\<lambda>namespace.
           bindM (callM (GetConfig s)) (\<lambda>_.
           bindM (callM (leaderBecome s ''teiid-operator-lock'')) (\<lambda>_.
           bindM (callM (managerNew s namespace (metricsHost @ '':'' @ Itoa metricsPort))) (\<lambda>_.
           bindM (callM (AddToScheme s)) (\<lambda>_.
           bindM addControllers (\<lambda>_.
           bindM (addMetrics s) (\<lambda>_.
             callM (managerStart s)))))))))
       (\<lambda>x. case x of Inl _ \<Rightarrow> returnM 1 | Inr _ \<Rightarrow> returnM 0)"

section \<open>Lemmas\<close>

lemma filterLoop_eq: "filterLoop gvk fs own = own @ map (\<lambda>_. gvk) (filter (\<lambda>f. gvkMatches f gvk) fs)"
  by (induction fs arbitrary: own) simp_all

lemma foldl_update_map_of:
  "map_of (foldl (\<lambda>m (k, v). AList.update k v m) m0 kvs) k =
     (case map_of (rev kvs) k of Some v \<Rightarrow> Some v | None \<Rightarrow> map_of m0 k)"
  by (induction kvs arbitrary: m0) (auto simp: update_conv' map_add_def split: option.splits)

lemma monitoring_label:
  assumes "distinct (map fst (Labels (sm_Meta m)))"
  shows "map_of (Labels (sm_Meta (addMonitoringKeyLabelToOperatorServiceMonitor m))) k =
    (case map_of (Labels (sm_Meta m)) k of Some v \<Rightarrow> Some v
     | None \<Rightarrow> if k = ''monitoring-key'' then Some ''middleware'' else None)"
proof -
  have "map_of (rev (Labels (sm_Meta m))) = map_of (Labels (sm_Meta m))"
    using assms by (subst map_of_inject_set) (simp_all flip: rev_map)
  then show ?thesis
    by (simp add: addMonitoringKeyLabelToOperatorServiceMonitor_def foldl_update_map_of split: option.split)
qed

lemma noPanic_addMetrics [np]: "noPanic (serveCRMetrics s)" "noPanic (addMetrics s)"
  unfolding addMetrics_def serveCRMetrics_def Let_def by (rule np)+

text \<open>Metrics never keep the operator from starting.\<close>

lemma addMetrics_succeeds: "succeeds (addMetrics s)"
  unfolding addMetrics_def by (auto intro!: succeeds_tryM np)

section \<open>Properties\<close>

text \<open>
  The two nested loops over kinds and filters, with their wildcards, keep exactly the kinds that are
  routes, image streams or deployment configurations of OpenShift, in their order and each once.
\<close>

theorem filterGKVs_eq:
  "filterGKVsFromAddToScheme gvks =
     filter (\<lambda>gvk. (gvk_Group gvk, gvk_Kind gvk) \<in> {(''route.openshift.io'', ''Route''),
       (''image.openshift.io'', ''ImageStream''), (''apps.openshift.io'', ''DeploymentConfig'')}) gvks"
proof -
  have "foldl (\<lambda>own gvk. filterLoop gvk gvkFilters own) own gvks = own @ filter (\<lambda>gvk. (gvk_Group gvk, gvk_Kind gvk) \<in>
      {(''route.openshift.io'', ''Route''), (''image.openshift.io'', ''ImageStream''), (''apps.openshift.io'', ''DeploymentConfig'')}) gvks" for own
    by (induction gvks arbitrary: own) (auto simp: filterLoop_eq gvkFilters_def gvkMatches_def)
  then show ?thesis by (simp add: filterGKVsFromAddToScheme_def)
qed

end
