(* ===== verification/Jaeger_Client.thy ===== *)
theory Jaeger_Client
  imports Deployments
begin

text \<open>
  \<open>pkg/util/opentracing/client\<close>: the REST client of the Jaeger resources. An operation builds a request;
  sending it is the parameter \<open>send\<close>. Of the options only the fields that decide about a request are kept.
\<close>

section \<open>Requests\<close>

record ListOptions =
  opts_Timeout :: "int option"
  LabelSelector :: string
  opts_Watch :: bool

datatype RequestParams = NoParams | GetParams string | ListParams ListOptions

datatype RequestBody = NoBody | JaegerBody ObjectMeta | DeleteBody string | PatchBody string

record RestRequest =
  Verb :: string
  rq_Namespace :: string
  rq_Resource :: string
  rq_Name :: string
  SubResource :: "string list"
  VersionedParams :: RequestParams
  Timeout :: int
  rq_Body :: RequestBody

definition request :: "string \<Rightarrow> string \<Rightarrow> RestRequest" where
  "request verb ns = \<lparr>Verb = verb, rq_Namespace = ns, rq_Resource = ''jaegers'', rq_Name = [], SubResource = [],
     VersionedParams = NoParams, Timeout = 0, rq_Body = NoBody\<rparr>"

text \<open>\<open>time.Duration(*opts.TimeoutSeconds) * time.Second\<close>, a 64-bit product of nanoseconds.\<close>

definition listTimeout :: "ListOptions \<Rightarrow> int" where
  "listTimeout opts = (case opts_Timeout opts of None \<Rightarrow> 0 | Some t \<Rightarrow> wrap64 (t * 1000000000))"

definition jaegers_Get :: "string \<Rightarrow> string \<Rightarrow> string \<Rightarrow> RestRequest" where
  "jaegers_Get ns name options = (request ''GET'' ns)\<lparr>rq_Name := name, VersionedParams := GetParams options\<rparr>"

definition jaegers_List :: "string \<Rightarrow> ListOptions \<Rightarrow> RestRequest" where
  "jaegers_List ns opts = (request ''GET'' ns)\<lparr>VersionedParams := ListParams opts, Timeout := listTimeout opts\<rparr>"

definition jaegers_Watch :: "string \<Rightarrow> ListOptions \<Rightarrow> RestRequest" where
  "jaegers_Watch ns opts =
     (request ''GET'' ns)\<lparr>VersionedParams := ListParams (opts\<lparr>opts_Watch := True\<rparr>), Timeout := listTimeout opts\<rparr>"

definition jaegers_Create :: "string \<Rightarrow> ObjectMeta \<Rightarrow> RestRequest" where
  "jaegers_Create ns jaeger = (request ''POST'' ns)\<lparr>rq_Body := JaegerBody jaeger\<rparr>"

definition jaegers_Update :: "string \<Rightarrow> ObjectMeta \<Rightarrow> RestRequest" where
  "jaegers_Update ns jaeger = (request ''PUT'' ns)\<lparr>rq_Name := Name jaeger, rq_Body := JaegerBody jaeger\<rparr>"

definition jaegers_UpdateStatus :: "string \<Rightarrow> ObjectMeta \<Rightarrow> RestRequest" where
  "jaegers_UpdateStatus ns jaeger =
     (request ''PUT'' ns)\<lparr>rq_Name := Name jaeger, SubResource := [''status''], rq_Body := JaegerBody jaeger\<rparr>"

definition jaegers_Delete :: "string \<Rightarrow> string \<Rightarrow> string \<Rightarrow> RestRequest" where
  "jaegers_Delete ns name options = (request ''DELETE'' ns)\<lparr>rq_Name := name, rq_Body := DeleteBody options\<rparr>"

definition jaegers_DeleteCollection :: "string \<Rightarrow> string \<Rightarrow> ListOptions \<Rightarrow> RestRequest" where
  "jaegers_DeleteCollection ns options listOptions =
     (request ''DELETE'' ns)\<lparr>VersionedParams := ListParams listOptions, Timeout := listTimeout listOptions,
       rq_Body := DeleteBody options\<rparr>"

definition jaegers_Patch :: "string \<Rightarrow> string \<Rightarrow> string \<Rightarrow> string list \<Rightarrow> RestRequest" where
  "jaegers_Patch ns name data subresources =
     (request ''PATCH'' ns)\<lparr>SubResource := subresources, rq_Name := name, rq_Body := PatchBody data\<rparr>"

section \<open>The client\<close>

record ('v, 'z) RestConfig =
  GroupVersion :: "'v option"
  APIPath :: string
  NegotiatedSerializer :: "'z option"
  UserAgent :: string

definition setConfigDefaults :: "'v \<Rightarrow> 'z \<Rightarrow> string \<Rightarrow> ('v, 'z) RestConfig \<Rightarrow> error + ('v, 'z) RestConfig" where
  "setConfigDefaults gv codecs defaultAgent config =
     (let config = config\<lparr>GroupVersion := Some gv, APIPath := ''/apis'', NegotiatedSerializer := Some codecs\<rparr> in
      Inr (if UserAgent config = [] then config\<lparr>UserAgent := defaultAgent\<rparr> else config))"

definition jaeger_NewForConfig ::
  "'v \<Rightarrow> 'z \<Rightarrow> string \<Rightarrow> (('v, 'z) RestConfig \<Rightarrow> error + 'c) \<Rightarrow> ('v, 'z) RestConfig \<Rightarrow> error + 'c" where
  "jaeger_NewForConfig gv codecs agent restClientFor c =
     (case setConfigDefaults gv codecs agent c of
        Inl e \<Rightarrow> Inl e
      | Inr config \<Rightarrow> restClientFor config)"

definition jaeger_NewForConfigOrDie ::
  "'v \<Rightarrow> 'z \<Rightarrow> string \<Rightarrow> (('v, 'z) RestConfig \<Rightarrow> error + 'c) \<Rightarrow> ('v, 'z) RestConfig \<Rightarrow> 'c res" where
  "jaeger_NewForConfigOrDie gv codecs agent restClientFor c =
     (case jaeger_NewForConfig gv codecs agent restClientFor c of
        Inl e \<Rightarrow> Panic (Error e)
      | Inr client \<Rightarrow> Ok client)"

text \<open>\<open>(c *JaegertracingV1Client) RESTClient()\<close>: a nil client has a nil REST client.\<close>

definition RESTClient :: "'c option \<Rightarrow> 'c option" where
  "RESTClient c = (case c of None \<Rightarrow> None | Some restClient \<Rightarrow> Some restClient)"

text \<open>A client of the group, and the client of the Jaeger resources of a namespace.\<close>

record 'c JaegertracingV1Client =
  restClient :: 'c

record 'c jaegersClient =
  jc_client :: "'c option"
  jc_ns :: string

definition jaeger_New :: "'c \<Rightarrow> 'c JaegertracingV1Client" where
  "jaeger_New c = \<lparr>restClient = c\<rparr>"

definition newJaegers :: "'c JaegertracingV1Client option \<Rightarrow> string \<Rightarrow> 'c jaegersClient" where
  "newJaegers c namespace = \<lparr>jc_client = RESTClient (map_option restClient c), jc_ns = namespace\<rparr>"

definition jaeger_Jaegers :: "'c JaegertracingV1Client option \<Rightarrow> string \<Rightarrow> 'c jaegersClient" where
  "jaeger_Jaegers c namespace = newJaegers c namespace"

text \<open>
  The client that \<open>HasJaeger\<close> lists with, over the transport of REST requests. Only lists are ever sent
  by the operator.
\<close>

definition emptyListOptions :: ListOptions where
  "emptyListOptions = \<lparr>opts_Timeout = None, LabelSelector = [], opts_Watch = False\<rparr>"

definition jaegerLists :: "(RestRequest \<Rightarrow> 'w \<Rightarrow> (error + ObjectMeta list) \<times> 'w) \<Rightarrow> ('w, ObjectMeta) resource_client" where
  "jaegerLists send = emptyClient\<lparr>rList := (\<lambda>ns sel. send (jaegers_List ns emptyListOptions))\<rparr>"

section \<open>Lemmas\<close>

lemmas jaeger_requests = jaegers_Get_def jaegers_List_def jaegers_Watch_def jaegers_Create_def jaegers_Update_def
  jaegers_UpdateStatus_def jaegers_Delete_def jaegers_DeleteCollection_def jaegers_Patch_def request_def

lemma listTimeout_exact:
  assumes "opts_Timeout opts = Some t" and "\<bar>t\<bar> \<le> 9223372036"
  shows "listTimeout opts = t * 1000000000"
  using assms by (auto simp: listTimeout_def intro!: wrap64_id simp: in_int64_def maxInt64_def minInt64_def)

text \<open>Beyond 292 years the timeout of a list becomes negative.\<close>

lemma listTimeout_wraps: "listTimeout \<lparr>opts_Timeout = Some 9223372037, LabelSelector = s, opts_Watch = b\<rparr> < 0"
  by (simp add: listTimeout_def wrap64_def)

lemma setConfigDefaults_idem:
  "setConfigDefaults gv codecs agent c = Inr c' \<Longrightarrow> setConfigDefaults gv codecs agent c' = Inr c'"
  by (auto simp: setConfigDefaults_def Let_def split: if_splits)

lemma jaeger_NewForConfigOrDie_Ok:
  "jaeger_NewForConfigOrDie gv codecs agent f c = Ok x \<longleftrightarrow> jaeger_NewForConfig gv codecs agent f c = Inr x"
  by (simp add: jaeger_NewForConfigOrDie_def split: sum.split)

section \<open>Properties\<close>

text \<open>
  Looking for a Jaeger instance sends one request, the list of the Jaeger resources of the namespace of
  the virtual database without a timeout. An instance counts as found when the list has an element of the
  given name, or any element when the name is \<open>true\<close>, and as missing when the request fails.
\<close>

theorem HasJaeger_request:
  assumes "jaegers r = jaegerLists send"
    and "send \<lparr>Verb = ''GET'', rq_Namespace = ns, rq_Resource = ''jaegers'', rq_Name = [], SubResource = [],
      VersionedParams = ListParams emptyListOptions, Timeout = 0, rq_Body = NoBody\<rparr> w = (x, w')"
  shows "HasJaeger r ns name w =
    (Ok (case x of Inl _ \<Rightarrow> False | Inr items \<Rightarrow> items \<noteq> [] \<and> (name = ''true'' \<or> name \<in> Name ` set items)), w')"
proof -
  have "list_ex (\<lambda>item. name = ''true'' \<or> Name item = name) items \<longleftrightarrow>
      items \<noteq> [] \<and> (name = ''true'' \<or> name \<in> Name ` set items)" for items
    by (induction items) auto
  with assms show ?thesis
    by (cases x) (simp_all add: HasJaeger_def jaegerLists_def jaegers_List_def request_def listTimeout_def emptyListOptions_def
        tryM_def listM_def callM_def returnM_def)
qed

theorem HasJaeger_request_witness:
  "HasJaeger (emptyCluster\<lparr>jaegers := jaegerLists (\<lambda>q w. (Inr [objectMeta ''tracing'' (rq_Namespace q)], w + 1))\<rparr>) ''ns'' ''tracing'' (0 :: nat) =
   (Ok True, 1)"
  by (subst HasJaeger_request [where x = "Inr [objectMeta ''tracing'' ''ns'']" and w' = 1 and
        send = "\<lambda>q w. (Inr [objectMeta ''tracing'' (rq_Namespace q)], w + 1)"])
    (simp_all add: objectMeta_def)

end
