(* ===== verification/Maven_Run.thy ===== *)
theory Maven_Run
  imports Pom Util
begin

text \<open>
  The parts of \<open>pkg/util/maven\<close> that work on files and processes: writing a project to a build
  directory (with \<open>WriteFileWithContent\<close> of \<open>pkg/util/util.go\<close>), starting Maven on it, and the config
  map that holds a settings file. Starting a process is a parameter.
\<close>

section \<open>Operations\<close>

text \<open>\<open>errors.Wrap\<close>.\<close>

definition wrapError :: "error \<Rightarrow> string \<Rightarrow> error" where
  "wrapError e msg = Err (msg @ '': '' @ Error e)"

definition WriteFileWithContent :: "'w Reconciler \<Rightarrow> string \<Rightarrow> string \<Rightarrow> string \<Rightarrow> ('w, unit) M" where
  "WriteFileWithContent r buildDir relativePath content =
     (let filePath = filepathJoin buildDir relativePath; fileDir = Dir filePath in
      tryM (callM (MkdirAll r fileDir)) (\<lambda>x. case x of
        Inl e \<Rightarrow> failM (wrapError e (''could not create dir for file '' @ relativePath))
      | Inr _ \<Rightarrow> tryM (callM (fileCreate r filePath)) (\<lambda>x. case x of
          Inl e \<Rightarrow> failM (wrapError e (''could not create file '' @ relativePath))
        | Inr _ \<Rightarrow> tryM (callM (fileWrite r filePath content)) (\<lambda>x. case x of
            Inl e \<Rightarrow> failM (wrapError e (''could not write to file '' @ relativePath))
          | Inr _ \<Rightarrow> returnM ()))))"

definition CreateStructure :: "'w Reconciler \<Rightarrow> string \<Rightarrow> Project \<Rightarrow> ('w, unit) M" where
  "CreateStructure r buildDir project =
     bindM (EncodeXML (xmlProject r) project) (\<lambda>pom. WriteFileWithContent r buildDir ''pom.xml'' pom)"

text \<open>\<open>exec dir argv\<close> starts a command in a directory and waits for it.\<close>

definition Run :: "'w Reconciler \<Rightarrow> (string \<Rightarrow> string list \<Rightarrow> 'w \<Rightarrow> (error + unit) \<times> 'w) \<Rightarrow> string \<Rightarrow> string list \<Rightarrow> ('w, unit) M" where
  "Run r exec buildDir args =
     (let mvnCmd = (case osenv r ''MAVEN_CMD'' of Some c \<Rightarrow> c | None \<Rightarrow> ''mvn''); args = args @ [''--batch-mode''] in
      callM (exec buildDir (mvnCmd # args)))"

definition CreateSettingsConfigMap :: "'w Reconciler \<Rightarrow> string \<Rightarrow> string \<Rightarrow> Settings \<Rightarrow> ('w, ConfigMap) M" where
  "CreateSettingsConfigMap r namespace name settings =
     bindM (EncodeXML (xmlSettings r) settings) (\<lambda>data.
       returnM \<lparr>cm_Meta = (objectMeta (name @ ''-maven-settings'') namespace)\<lparr>Labels :=
           [(''app'', name), (''teiid.io/VirtualDatabase'', name), (''teiid.io/type'', ''VirtualDatabase'')]\<rparr>,
         cm_Data = [(''settings.xml'', data)]\<rparr>)"

section \<open>Lemmas\<close>

lemma CreateSettingsConfigMap_Ok:
  "CreateSettingsConfigMap r ns n settings w = (Ok cm, w') \<longleftrightarrow>
     (\<exists>s. xmlSettings r settings = Inr s \<and> w' = w \<and>
        cm = \<lparr>cm_Meta = (objectMeta (n @ ''-maven-settings'') ns)\<lparr>Labels :=
           [(''app'', n), (''teiid.io/VirtualDatabase'', n), (''teiid.io/type'', ''VirtualDatabase'')]\<rparr>,
         cm_Data = [(''settings.xml'', xmlHeader @ s)]\<rparr>)"
  by (cases "xmlSettings r settings")
    (auto simp: CreateSettingsConfigMap_def EncodeXML_def bindM_def returnM_def failM_def)

lemma WriteFileWithContent_confined:
  assumes "below buildDir (filepathJoin buildDir path)" and "agree_below buildDir r r'"
  shows "WriteFileWithContent r buildDir path content = WriteFileWithContent r' buildDir path content"
  using assms by (simp add: WriteFileWithContent_def agree_below_def Let_def)

lemma noPanic_maven_run [np]:
  "noPanic (WriteFileWithContent r d p c)" "noPanic (CreateStructure r d project)"
  "noPanic (Run r exec d args)" "noPanic (CreateSettingsConfigMap r ns n settings)"
  unfolding WriteFileWithContent_def CreateStructure_def Run_def CreateSettingsConfigMap_def Let_def
  by (rule np)+

section \<open>Properties\<close>

text \<open>
  A settings file that is stored with \<open>CreateSettingsConfigMap\<close> is found again. When the cluster
  returns the config map under its name, and no secret of the same name takes precedence, a build of the
  virtual database of that name uses exactly the encoded settings, whatever repositories are configured.
\<close>

theorem settings_roundtrip:
  assumes "CreateSettingsConfigMap r (vdb_Namespace v) (vdb_Name v) settings w0 = (Ok cm, w0')"
    and "\<And>w. rGet (configMaps r) (Namespace (cm_Meta cm)) (Name (cm_Meta cm)) w = (Inr cm, w)"
    and "\<And>w. rGet (secrets r) (vdb_Namespace v) (vdb_Name v @ ''-maven-settings'') w = (Inl e, w)"
    and "xmlSettings r settings = Inr s"
  shows "readMavenSettingsFile r v repositories w = (Ok (xmlHeader @ s), w)"
proof -
  from assms(1,4) have cm: "cm_Data cm = [(''settings.xml'', xmlHeader @ s)]"
      "Name (cm_Meta cm) = vdb_Name v @ ''-maven-settings''" "Namespace (cm_Meta cm) = vdb_Namespace v"
    by (auto simp: CreateSettingsConfigMap_Ok objectMeta_def)
  have "readMavenSettingsFile r v repositories w =
      bindM (HasConfigMap r (vdb_Name v @ ''-maven-settings'') (vdb_Namespace v)) (\<lambda>b.
        GetConfigMapRefValue r (vdb_Namespace v) (settingsSelector (vdb_Name v @ ''-maven-settings''))) w"
    using assms(2) assms(3) cm
    by (cases "xmlSettings r (NewDefaultSettings repositories)")
      (simp_all add: readMavenSettingsFile_def Let_def EncodeXML_def HasSecret_def HasConfigMap_def bindM_def tryM_def getM_def
        callM_def returnM_def failM_def)
  then show ?thesis
    using assms(2) cm
    by (simp add: HasConfigMap_def GetConfigMapRefValue_def GetConfigMap_def settingsSelector_def bindM_def tryM_def getM_def
        callM_def returnM_def)
qed

theorem settings_roundtrip_witness:
  "\<exists>cm. readMavenSettingsFile (emptyCluster\<lparr>configMaps := constClient cm\<rparr>) (emptyVdb\<lparr>vdb_Meta := objectMeta ''shop'' ''ns''\<rparr>) [] () =
     (Ok (xmlHeader @ ''<settings/>''), ())"
proof -
  obtain cm where cm: "CreateSettingsConfigMap emptyCluster ''ns'' ''shop'' NewSettings () = (Ok cm, ())"
    by (simp add: CreateSettingsConfigMap_Ok emptyCluster_def)
  have "readMavenSettingsFile (emptyCluster\<lparr>configMaps := constClient cm\<rparr>) (emptyVdb\<lparr>vdb_Meta := objectMeta ''shop'' ''ns''\<rparr>) [] () =
      (Ok (xmlHeader @ ''<settings/>''), ())"
    by (rule settings_roundtrip [where settings = NewSettings and cm = cm and ?w0.0 = "()" and ?w0'.0 = "()" and
          e = "NotFound ''not found''"])
      (use cm in \<open>simp_all add: CreateSettingsConfigMap_Ok cluster_defs objectMeta_def\<close>)
  then show ?thesis by blast
qed

end
