(* ===== verification/Events.thy ===== *)
theory Events
  imports Types
begin

text \<open>
  \<open>pkg/util/events/events.go\<close>: a list of listeners behind a lock. The lock is not reentrant, so an
  operation that is called while the lock is held never returns; this is the result \<open>None\<close>. A listener
  is a name with the behaviour \<open>onEvent\<close>, which may call the operations again.
\<close>

section \<open>Operations\<close>

datatype EventType = VdbDeleted | OtherEvent string

record 'l EventSubscribers =
  handlers :: "'l list"
  locked :: bool

type_synonym ('l, 'w) listener_call = "'l EventSubscribers \<times> 'w \<Rightarrow> ('l EventSubscribers \<times> 'w) option"

definition lock :: "('l, 'w) listener_call" where
  "lock s = (if locked (fst s) then None else Some ((fst s)\<lparr>locked := True\<rparr>, snd s))"

definition unlock :: "('l, 'w) listener_call" where
  "unlock s = Some ((fst s)\<lparr>locked := False\<rparr>, snd s)"

definition Register :: "'l \<Rightarrow> ('l, 'w) listener_call" where
  "Register handler s =
     Option.bind (lock s) (\<lambda>(u, w). unlock (u\<lparr>handlers := handlers u @ [handler]\<rparr>, w))"

text \<open>\<open>for _, handler := range u.handlers\<close> goes over the slice as it is when the loop starts.\<close>

fun notify :: "('l \<Rightarrow> EventType \<Rightarrow> string \<times> string \<Rightarrow> 'p \<Rightarrow> ('l, 'w) listener_call) \<Rightarrow> 'l list \<Rightarrow> EventType \<Rightarrow>
    string \<times> string \<Rightarrow> 'p \<Rightarrow> ('l, 'w) listener_call" where
  "notify onEvent [] eventType res payload s = Some s"
| "notify onEvent (h # hs) eventType res payload s =
     Option.bind (onEvent h eventType res payload s) (notify onEvent hs eventType res payload)"

definition Trigger :: "('l \<Rightarrow> EventType \<Rightarrow> string \<times> string \<Rightarrow> 'p \<Rightarrow> ('l, 'w) listener_call) \<Rightarrow> EventType \<Rightarrow>
    string \<times> string \<Rightarrow> 'p \<Rightarrow> ('l, 'w) listener_call" where
  "Trigger onEvent eventType res payload s =
     Option.bind (lock s) (\<lambda>(u, w). Option.bind (notify onEvent (handlers u) eventType res payload (u, w)) unlock)"

section \<open>Lemmas\<close>

text \<open>A listener that leaves the subscribers alone and changes the world by \<open>f\<close>.\<close>

definition plain_listener :: "('l \<Rightarrow> EventType \<Rightarrow> 'r \<Rightarrow> 'p \<Rightarrow> ('l, 'w) listener_call) \<Rightarrow> ('l \<Rightarrow> EventType \<Rightarrow> 'r \<Rightarrow> 'p \<Rightarrow> 'w \<Rightarrow> 'w) \<Rightarrow> bool" where
  "plain_listener onEvent f \<longleftrightarrow> (\<forall>h e n p u w. onEvent h e n p (u, w) = Some (u, f h e n p w))"

lemma plain_listenerD: "plain_listener onEvent f \<Longrightarrow> onEvent h e n p (u, w) = Some (u, f h e n p w)"
  by (simp only: plain_listener_def)

lemma notify_plain:
  assumes "plain_listener onEvent f"
  shows "notify onEvent hs e n p (u, w) = Some (u, fold (\<lambda>h. f h e n p) hs w)"
  using assms by (induction hs arbitrary: w) (simp_all add: plain_listenerD)

text \<open>Every listener hears of an event, once per registration and in the order of registration.\<close>

lemma Trigger_order:
  assumes "plain_listener onEvent f" and "\<not> locked u"
  shows "Trigger onEvent e n p (u, w) = Some (u, fold (\<lambda>h. f h e n p) (handlers u) w)"
  using assms by (simp add: Trigger_def lock_def unlock_def notify_plain)

lemma Register_appends:
  "\<not> locked u \<Longrightarrow> Register h (u, w) = Some (u\<lparr>handlers := handlers u @ [h]\<rparr>, w)"
  by (simp add: Register_def lock_def unlock_def)

text \<open>A listener that registers another one or triggers an event from inside an event blocks for good.\<close>

lemma Trigger_reentrant_blocks:
  assumes "\<not> locked u" and "handlers u = hs @ h # hs'" and "plain_listener plain f"
    and "\<And>s. onEvent h e n p s = Register h' s \<or> onEvent h e n p s = Trigger onEvent e' n' p' s"
    and "\<And>g s. g \<in> set hs \<Longrightarrow> onEvent g e n p s = plain g e n p s"
  shows "Trigger onEvent e n p (u, w) = None"
proof -
  have "notify onEvent (hs @ h # hs') e n p (u', w) = None" if "locked u'" for u' w
    using assms(5)
  proof (induction hs arbitrary: w)
    case Nil
    from assms(4) [of "(u', w)"] that show ?case by (auto simp: Register_def Trigger_def lock_def)
  next
    case (Cons g gs)
    then show ?case by (simp add: plain_listenerD [OF assms(3)])
  qed
  with assms(1,2) show ?thesis by (simp add: Trigger_def lock_def)
qed

end
