(* ===== verification/Go_Memory.thy ===== *)
theory Go_Memory
  imports Types "HOL-Library.AList"
begin

text \<open>
  Memory as the generated copy functions of \<open>apis/teiid/v1alpha1/zz_generated.deepcopy.go\<close> see it: pointers,
  slices and maps are addresses of cells, nil is \<open>None\<close>, and what a reference means is read off the memory.
  The locale \<open>deep_copy\<close> is the contract of a copy function; the combinators for pointers, slices, maps and
  structs keep it.
\<close>

section \<open>Structs with references\<close>

text \<open>
  The structs of the custom resource, with the types of their references as parameters. In memory a
  reference is an address; in a value it is what the address leads to. The vendored Kubernetes
  structs have the fields the operator uses, as in \<open>Types\<close>.
\<close>

record 'flag go_KeySelector =
  go_sel_Name :: string
  go_sel_Key :: string
  go_sel_Optional :: 'flag

record ('field, 'resource, 'sel) go_EnvVarSource =
  go_FieldRef :: 'field
  go_ResourceFieldRef :: 'resource
  go_ConfigMapKeyRef :: 'sel
  go_SecretKeyRef :: 'sel

record 'src go_EnvVar =
  go_ev_Name :: string
  go_ev_Value :: string
  go_ValueFrom :: 'src

record 'envs go_DataSourceObject =
  go_ds_Name :: string
  go_ds_Type :: string
  go_Properties :: 'envs

record ('strings, 'map) go_Source =
  go_src_Version :: string
  go_DDL :: string
  go_Maven :: string
  go_OpenAPI :: string
  go_Dependencies :: 'strings
  go_MavenRepositories :: 'map

record 'sel go_ValueSource =
  go_vs_ConfigMapKeyRef :: 'sel
  go_vs_SecretKeyRef :: 'sel

record ('envs, 'strings, 'map) go_Build =
  go_build_Env :: 'envs
  go_build_Source :: "('strings, 'map) go_Source"

record 'map go_Resources =
  go_Limits :: 'map
  go_Requests :: 'map

record ('int, 'envs, 'strings, 'map, 'sources, 'exposes) go_Spec =
  go_Replicas :: 'int
  go_Env :: 'envs
  go_Resources :: "'map go_Resources"
  go_Build :: "('envs, 'strings, 'map) go_Build"
  go_Jaeger :: string
  go_DataSources :: 'sources
  go_Expose :: 'exposes

record ('map, 'owners) go_ObjectMeta =
  go_Name :: string
  go_Namespace :: string
  go_Labels :: 'map
  go_Annotations :: 'map
  go_ResourceVersion :: string
  go_UID :: string
  go_Generation :: int
  go_OwnerReferences :: 'owners

record go_TypeMeta =
  go_Kind :: string
  go_APIVersion :: string

record ('int, 'envs, 'strings, 'map, 'sources, 'exposes, 'owners) go_Vdb =
  go_TypeMeta :: go_TypeMeta
  go_ObjectMeta :: "('map, 'owners) go_ObjectMeta"
  go_Spec :: "('int, 'envs, 'strings, 'map, 'sources, 'exposes) go_Spec"
  go_Status :: VirtualDatabaseStatus

record 'int go_ListMeta =
  go_list_ResourceVersion :: string
  go_Continue :: string
  go_RemainingItemCount :: 'int

record ('int, 'items) go_VdbList =
  go_list_TypeMeta :: go_TypeMeta
  go_ListMeta :: "'int go_ListMeta"
  go_Items :: 'items

section \<open>Memory\<close>

type_synonym ref = "nat option"

type_synonym rKeySelector = "ref go_KeySelector"
type_synonym rEnvVarSource = "(ref, ref, ref) go_EnvVarSource"
type_synonym rEnvVar = "ref go_EnvVar"
type_synonym rDataSourceObject = "ref go_DataSourceObject"
type_synonym rSource = "(ref, ref) go_Source"
type_synonym rValueSource = "ref go_ValueSource"
type_synonym rBuild = "(ref, ref, ref) go_Build"
type_synonym rResources = "ref go_Resources"
type_synonym rSpec = "(ref, ref, ref, ref, ref, ref) go_Spec"
type_synonym rMeta = "(ref, ref) go_ObjectMeta"
type_synonym rVdb = "(ref, ref, ref, ref, ref, ref, ref) go_Vdb"
type_synonym rVdbList = "(ref, ref) go_VdbList"

datatype cell =
    CInt int
  | CFlag bool
  | CField ObjectFieldSelector
  | CResource ResourceFieldSelector
  | CSel rKeySelector
  | CEnvSource rEnvVarSource
  | CDataSource rDataSourceObject
  | CSource rSource
  | CValueSource rValueSource
  | CBuild rBuild
  | CSpec rSpec
  | CStatus VirtualDatabaseStatus
  | CVdb rVdb
  | CVdbList rVdbList
  | CMap "string gomap"
  | CStrings "string list"
  | CExposes "ExposeType list"
  | COwners "OwnerReference list"
  | CEnvs "rEnvVar list"
  | CSources "rDataSourceObject list"
  | CItems "rVdb list"

text \<open>Memory is a list of cells; a new cell goes to its end, so the cells there were keep their addresses.\<close>

type_synonym mem = "cell list"

text \<open>Reading a cell as content of some kind fails for a dangling address and for content of another kind.\<close>

definition load :: "(cell \<Rightarrow> 'a option) \<Rightarrow> mem \<Rightarrow> nat \<Rightarrow> 'a option" where
  "load get h a = (if a < length h then get (h ! a) else None)"

section \<open>The contract\<close>

text \<open>
  \<open>val h r\<close> is the value of \<open>r\<close> in memory \<open>h\<close>, if it has one, and \<open>foot h r\<close> are the addresses it is read
  from. A copy has the value of the original and is made of new cells only, in a memory that has
  grown and is otherwise as before.
\<close>

locale deep_copy =
  fixes val :: "mem \<Rightarrow> 'r \<Rightarrow> 'v option"
    and foot :: "mem \<Rightarrow> 'r \<Rightarrow> nat set"
    and copy :: "'r \<Rightarrow> mem \<Rightarrow> ('r \<times> mem) option"
  assumes foot_bound: "val h r = Some v \<Longrightarrow> a \<in> foot h r \<Longrightarrow> a < length h"
    and val_local: "val h r = Some v \<Longrightarrow> (\<And>a. a \<in> foot h r \<Longrightarrow> a < length h' \<and> h' ! a = h ! a) \<Longrightarrow>
      val h' r = Some v \<and> foot h' r = foot h r"
    and copy_new: "val h r = Some v \<Longrightarrow>
      \<exists>r' g. copy r h = Some (r', h @ g) \<and> val (h @ g) r' = Some v \<and> (\<forall>a \<in> foot (h @ g) r'. length h \<le> a)"
begin

lemma val_grows: "val h r = Some v \<Longrightarrow> val (h @ g) r = Some v \<and> foot (h @ g) r = foot h r"
  by (rule val_local) (auto dest: foot_bound simp: nth_append)

lemma copyE:
  assumes "val h r = Some v"
  obtains r' g where "copy r h = Some (r', h @ g)" "val (h @ g) r' = Some v" "\<forall>a \<in> foot (h @ g) r'. length h \<le> a"
    "val (h @ g) r = Some v"
proof -
  from copy_new [OF assms] obtain r' g where
    "copy r h = Some (r', h @ g) \<and> val (h @ g) r' = Some v \<and> (\<forall>a \<in> foot (h @ g) r'. length h \<le> a)" by (elim exE)
  with val_grows [OF assms, of g] show ?thesis by (intro that [of r' g]) simp_all
qed

text \<open>What becomes of either does not show in the other.\<close>

lemma copy_separate:
  assumes "val h r = Some v"
  shows "\<exists>r' g. copy r h = Some (r', h @ g) \<and>
    (\<forall>h'. length h \<le> length h' \<longrightarrow> take (length h) h' = h \<longrightarrow> val h' r = Some v) \<and>
    (\<forall>h'. length h' = length (h @ g) \<longrightarrow> drop (length h) h' = g \<longrightarrow> val h' r' = Some v)"
proof -
  obtain r' g where c: "copy r h = Some (r', h @ g)" "val (h @ g) r' = Some v" "\<forall>a \<in> foot (h @ g) r'. length h \<le> a"
    by (rule copyE [OF assms])
  have "val h' r = Some v" if "length h \<le> length h'" "take (length h) h' = h" for h'
  proof (rule val_local [THEN conjunct1, OF assms])
    fix a
    assume "a \<in> foot h r"
    from foot_bound [OF assms this] that show "a < length h' \<and> h' ! a = h ! a" by (metis nth_take order_less_le_trans)
  qed
  moreover have "val h' r' = Some v" if "length h' = length (h @ g)" "drop (length h) h' = g" for h'
  proof (rule val_local [THEN conjunct1, OF c(2)])
    fix a
    assume "a \<in> foot (h @ g) r'"
    with foot_bound [OF c(2) this] c(3) have "length h \<le> a" "a < length h'" using that(1) by auto
    moreover have "h' ! a = drop (length h) h' ! (a - length h)" using calculation that(1) by simp
    moreover have "(h @ g) ! a = g ! (a - length h)" using calculation(1) by (simp add: nth_append)
    ultimately show "a < length h' \<and> h' ! a = (h @ g) ! a" by (simp only: that(2))
  qed
  ultimately show ?thesis using c(1) by blast
qed

end

section \<open>Scalars and structs\<close>

definition memRet :: "'a \<Rightarrow> mem \<Rightarrow> ('a \<times> mem) option" where
  "memRet x h = Some (x, h)"

definition memBind :: "(mem \<Rightarrow> ('a \<times> mem) option) \<Rightarrow> ('a \<Rightarrow> mem \<Rightarrow> ('b \<times> mem) option) \<Rightarrow> mem \<Rightarrow> ('b \<times> mem) option" where
  "memBind m f h = (case m h of None \<Rightarrow> None | Some (x, h') \<Rightarrow> f x h')"

text \<open>A type without references is copied by the assignment.\<close>

definition valFlat :: "mem \<Rightarrow> 'a \<Rightarrow> 'a option" where
  "valFlat h x = Some x"

definition footFlat :: "mem \<Rightarrow> 'a \<Rightarrow> nat set" where
  "footFlat h x = {}"

lemma deep_copy_flat: "deep_copy valFlat footFlat memRet"
  by (rule deep_copy.intro) (auto simp: valFlat_def footFlat_def memRet_def intro: exI [of _ "[]"])

text \<open>Two fields, one after the other.\<close>

definition valPair :: "(mem \<Rightarrow> 'a \<Rightarrow> 'v option) \<Rightarrow> (mem \<Rightarrow> 'b \<Rightarrow> 'w option) \<Rightarrow> mem \<Rightarrow> 'a \<times> 'b \<Rightarrow> ('v \<times> 'w) option" where
  "valPair f g h r = (case f h (fst r) of None \<Rightarrow> None | Some v \<Rightarrow> map_option (Pair v) (g h (snd r)))"

definition footPair :: "(mem \<Rightarrow> 'a \<Rightarrow> nat set) \<Rightarrow> (mem \<Rightarrow> 'b \<Rightarrow> nat set) \<Rightarrow> mem \<Rightarrow> 'a \<times> 'b \<Rightarrow> nat set" where
  "footPair f g h r = f h (fst r) \<union> g h (snd r)"

definition copyPair ::
  "('a \<Rightarrow> mem \<Rightarrow> ('a \<times> mem) option) \<Rightarrow> ('b \<Rightarrow> mem \<Rightarrow> ('b \<times> mem) option) \<Rightarrow> 'a \<times> 'b \<Rightarrow> mem \<Rightarrow> (('a \<times> 'b) \<times> mem) option" where
  "copyPair f g r = memBind (f (fst r)) (\<lambda>x. memBind (g (snd r)) (\<lambda>y. memRet (x, y)))"

lemma deep_copy_pair:
  assumes A: "deep_copy valA footA copyA" and B: "deep_copy valB footB copyB"
  shows "deep_copy (valPair valA valB) (footPair footA footB) (copyPair copyA copyB)"
proof (rule deep_copy.intro)
  fix h r v
  assume "valPair valA valB h r = Some v"
  then obtain x y where v: "valA h (fst r) = Some x" "valB h (snd r) = Some y" "v = (x, y)"
    by (auto simp: valPair_def split: option.splits)
  show "a < length h" if "a \<in> footPair footA footB h r" for a
    using that deep_copy.foot_bound [OF A v(1)] deep_copy.foot_bound [OF B v(2)] by (auto simp: footPair_def)
  show "valPair valA valB h' r = Some v \<and> footPair footA footB h' r = footPair footA footB h r"
    if "\<And>a. a \<in> footPair footA footB h r \<Longrightarrow> a < length h' \<and> h' ! a = h ! a" for h'
    using that deep_copy.val_local [OF A v(1), of h'] deep_copy.val_local [OF B v(2), of h'] v(3)
    by (simp add: valPair_def footPair_def)
  obtain r1 g1 where 1: "copyA (fst r) h = Some (r1, h @ g1)" "valA (h @ g1) r1 = Some x" "\<forall>a \<in> footA (h @ g1) r1. length h \<le> a"
    by (rule deep_copy.copyE [OF A v(1)])
  have y: "valB (h @ g1) (snd r) = Some y" using deep_copy.val_grows [OF B v(2)] by blast
  obtain r2 g2 where 2: "copyB (snd r) (h @ g1) = Some (r2, (h @ g1) @ g2)" "valB ((h @ g1) @ g2) r2 = Some y"
      "\<forall>a \<in> footB ((h @ g1) @ g2) r2. length (h @ g1) \<le> a"
    by (rule deep_copy.copyE [OF B y])
  have "valPair valA valB (h @ g1 @ g2) (r1, r2) = Some v \<and>
      (\<forall>a \<in> footPair footA footB (h @ g1 @ g2) (r1, r2). length h \<le> a)"
    using deep_copy.val_grows [OF A 1(2), of g2] 1(3) 2(2,3) v(3) by (auto simp: valPair_def footPair_def)
  moreover have "copyPair copyA copyB r h = Some ((r1, r2), h @ g1 @ g2)"
    using 1(1) 2(1) by (simp add: copyPair_def memBind_def memRet_def)
  ultimately show "\<exists>r' g. copyPair copyA copyB r h = Some (r', h @ g) \<and> valPair valA valB (h @ g) r' = Some v \<and>
      (\<forall>a \<in> footPair footA footB (h @ g) r'. length h \<le> a)"
    by blast
qed

text \<open>
  A struct \<open>s\<close> is a tuple \<open>refs s\<close> of the fields with references and the rest, which the assignment copies;
  \<open>replace s t\<close> replaces those fields.
\<close>

lemma deep_copy_struct:
  assumes T: "deep_copy valT footT copyT"
    and val_eq: "\<And>h s. val h s = map_option (mk s) (valT h (refs s))"
    and foot_eq: "\<And>h s. foot h s = footT h (refs s)"
    and copy_eq: "\<And>h s. copy s h = map_option (\<lambda>(t, h'). (replace s t, h')) (copyT (refs s) h)"
    and refs: "\<And>s t. refs (replace s t) = t" and mk: "\<And>s t. mk (replace s t) = mk s"
  shows "deep_copy val foot copy"
proof (rule deep_copy.intro)
  fix h s v
  assume "val h s = Some v"
  then obtain t where t: "valT h (refs s) = Some t" "v = mk s t" by (auto simp: val_eq)
  show "a < length h" if "a \<in> foot h s" for a
    using that deep_copy.foot_bound [OF T t(1)] by (simp add: foot_eq)
  show "val h' s = Some v \<and> foot h' s = foot h s" if "\<And>a. a \<in> foot h s \<Longrightarrow> a < length h' \<and> h' ! a = h ! a" for h'
    using that deep_copy.val_local [OF T t(1), of h'] t(2) by (simp add: val_eq foot_eq)
  obtain r' g where "copyT (refs s) h = Some (r', h @ g)" "valT (h @ g) r' = Some t" "\<forall>a \<in> footT (h @ g) r'. length h \<le> a"
    by (rule deep_copy.copyE [OF T t(1)])
  then show "\<exists>r' g. copy s h = Some (r', h @ g) \<and> val (h @ g) r' = Some v \<and> (\<forall>a \<in> foot (h @ g) r'. length h \<le> a)"
    using t(2) by (intro exI [of _ "replace s r'"] exI [of _ g]) (simp add: val_eq foot_eq copy_eq refs mk)
qed

section \<open>Pointers\<close>

text \<open>\<open>*out = new(T); (*in).DeepCopyInto(*out)\<close>; the cell holds \<open>zero\<close> until the struct is copied.\<close>

definition valPtr :: "(cell \<Rightarrow> 'r option) \<Rightarrow> (mem \<Rightarrow> 'r \<Rightarrow> 'v option) \<Rightarrow> mem \<Rightarrow> ref \<Rightarrow> 'v option option" where
  "valPtr get val h p =
     (case p of None \<Rightarrow> Some None | Some a \<Rightarrow> (case load get h a of None \<Rightarrow> None | Some r \<Rightarrow> map_option Some (val h r)))"

definition footPtr :: "(cell \<Rightarrow> 'r option) \<Rightarrow> (mem \<Rightarrow> 'r \<Rightarrow> nat set) \<Rightarrow> mem \<Rightarrow> ref \<Rightarrow> nat set" where
  "footPtr get foot h p =
     (case p of None \<Rightarrow> {} | Some a \<Rightarrow> insert a (case load get h a of None \<Rightarrow> {} | Some r \<Rightarrow> foot h r))"

definition copyPtr ::
  "(cell \<Rightarrow> 'r option) \<Rightarrow> ('r \<Rightarrow> cell) \<Rightarrow> 'r \<Rightarrow> ('r \<Rightarrow> mem \<Rightarrow> ('r \<times> mem) option) \<Rightarrow> ref \<Rightarrow> mem \<Rightarrow> (ref \<times> mem) option" where
  "copyPtr get put zero copy p h =
     (case p of
        None \<Rightarrow> Some (None, h)
      | Some a \<Rightarrow>
          (let out = length h; h = h @ [put zero] in
           case load get h a of
             None \<Rightarrow> None
           | Some r \<Rightarrow>
               (case copy r h of
                  None \<Rightarrow> None
                | Some (r', h') \<Rightarrow> Some (Some out, h'[out := put r']))))"

lemma load_grows: "load get h a = Some x \<Longrightarrow> load get (h @ g) a = Some x"
  by (auto simp: load_def nth_append split: if_splits)

lemma load_same: "load get h a = Some x \<Longrightarrow> a < length h' \<Longrightarrow> h' ! a = h ! a \<Longrightarrow> load get h' a = Some x"
  by (auto simp: load_def split: if_splits)

lemma load_bound: "load get h a = Some x \<Longrightarrow> a < length h"
  by (auto simp: load_def split: if_splits)

lemma load_new: "get (put x) = Some x \<Longrightarrow> load get (h @ put x # g) (length h) = Some x"
  by (simp add: load_def)

text \<open>Replacing the cell at \<open>a\<close> leaves alone what does not use it.\<close>

lemma deep_copy_update:
  assumes "deep_copy val foot copy" and "val h r = Some v" and "a \<notin> foot h r"
  shows "val (h[a := c]) r = Some v \<and> foot (h[a := c]) r = foot h r"
proof (rule deep_copy.val_local [OF assms(1,2)])
  fix b
  assume b: "b \<in> foot h r"
  with assms(3) have "b \<noteq> a" by blast
  with deep_copy.foot_bound [OF assms(1,2) b] show "b < length (h[a := c]) \<and> h[a := c] ! b = h ! b" by simp
qed

lemma deep_copy_ptr:
  assumes D: "deep_copy val foot copy" and codec: "\<And>x. get (put x) = Some x"
  shows "deep_copy (valPtr get val) (footPtr get foot) (copyPtr get put zero copy)"
proof (rule deep_copy.intro)
  fix h p v
  assume p: "valPtr get val h p = Some v"
  consider "p = None" "v = None" | a r x where "p = Some a" "load get h a = Some r" "val h r = Some x" "v = Some x"
    using p by (auto simp: valPtr_def split: option.splits)
  note cases = this
  show "a < length h" if "a \<in> footPtr get foot h p" for a
    using cases by cases (use that deep_copy.foot_bound [OF D] load_bound in \<open>fastforce simp: footPtr_def\<close>)+
  show "valPtr get val h' p = Some v \<and> footPtr get foot h' p = footPtr get foot h p"
    if local: "\<And>a. a \<in> footPtr get foot h p \<Longrightarrow> a < length h' \<and> h' ! a = h ! a" for h'
    using cases
  proof cases
    case (2 a r x)
    have sub: "insert a (foot h r) \<subseteq> footPtr get foot h p" using 2(1,2) by (simp add: footPtr_def)
    have "load get h' a = Some r" by (rule load_same [OF 2(2)]) (use local [of a] sub in simp_all)
    moreover have "val h' r = Some x \<and> foot h' r = foot h r"
      by (rule deep_copy.val_local [OF D 2(3)]) (use local sub in blast)
    ultimately show ?thesis using 2 by (simp add: valPtr_def footPtr_def)
  qed (simp add: valPtr_def footPtr_def)
  show "\<exists>r' g. copyPtr get put zero copy p h = Some (r', h @ g) \<and> valPtr get val (h @ g) r' = Some v \<and>
      (\<forall>a \<in> footPtr get foot (h @ g) r'. length h \<le> a)"
    using cases
  proof cases
    case 1
    then show ?thesis by (intro exI [of _ None] exI [of _ "[]"]) (simp add: copyPtr_def valPtr_def footPtr_def)
  next
    case (2 a r x)
    have "val (h @ [put zero]) r = Some x" using deep_copy.val_grows [OF D 2(3)] by blast
    then obtain r' g where c: "copy r (h @ [put zero]) = Some (r', (h @ [put zero]) @ g)" "val ((h @ [put zero]) @ g) r' = Some x"
        "\<forall>a \<in> foot ((h @ [put zero]) @ g) r'. length (h @ [put zero]) \<le> a"
      by (rule deep_copy.copyE [OF D])
    have "length h \<notin> foot ((h @ [put zero]) @ g) r'" using c(3) by auto
    from deep_copy_update [OF D c(2) this, of "put r'"]
    have u: "val (h @ put r' # g) r' = Some x" "foot (h @ put r' # g) r' = foot ((h @ [put zero]) @ g) r'" by simp_all
    have "copyPtr get put zero copy p h = Some (Some (length h), h @ put r' # g)"
      using 2(1) load_grows [OF 2(2), of "[put zero]"] c(1) by (simp add: copyPtr_def)
    then show ?thesis
      using u c(3) load_new [of get put r' h g, OF codec] 2(4)
      by (intro exI [of _ "Some (length h)"] exI [of _ "put r' # g"]) (auto simp: valPtr_def footPtr_def)
  qed
qed

section \<open>Slices\<close>

text \<open>
  \<open>*out = make([]T, len(*in)); for i := range *in { (*in)[i].DeepCopyInto(&(*out)[i]) }\<close>: the array at \<open>out\<close>
  is filled in place. The fifth argument of the loop is the index, the sixth the number of elements left.
\<close>

definition valSlice :: "(cell \<Rightarrow> 'r list option) \<Rightarrow> (mem \<Rightarrow> 'r \<Rightarrow> 'v option) \<Rightarrow> mem \<Rightarrow> ref \<Rightarrow> 'v list option option" where
  "valSlice get val h p =
     (case p of
        None \<Rightarrow> Some None
      | Some a \<Rightarrow> (case load get h a of None \<Rightarrow> None | Some xs \<Rightarrow> map_option Some (those (map (val h) xs))))"

definition footSlice :: "(cell \<Rightarrow> 'r list option) \<Rightarrow> (mem \<Rightarrow> 'r \<Rightarrow> nat set) \<Rightarrow> mem \<Rightarrow> ref \<Rightarrow> nat set" where
  "footSlice get foot h p =
     (case p of
        None \<Rightarrow> {}
      | Some a \<Rightarrow> insert a (case load get h a of None \<Rightarrow> {} | Some xs \<Rightarrow> \<Union> (foot h ` set xs)))"

fun copyElements ::
  "(cell \<Rightarrow> 'r list option) \<Rightarrow> ('r list \<Rightarrow> cell) \<Rightarrow> ('r \<Rightarrow> mem \<Rightarrow> ('r \<times> mem) option) \<Rightarrow> nat \<times> nat \<Rightarrow> nat \<Rightarrow> nat \<Rightarrow> mem \<Rightarrow> mem option"
where
  "copyElements get put copy ptrs i 0 h = Some h"
| "copyElements get put copy (inp, out) i (Suc n) h =
     (case load get h inp of
        None \<Rightarrow> None
      | Some xs \<Rightarrow>
          (case copy (xs ! i) h of
             None \<Rightarrow> None
           | Some (x, h') \<Rightarrow>
               (case load get h' out of
                  None \<Rightarrow> None
                | Some ys \<Rightarrow> copyElements get put copy (inp, out) (Suc i) n (h'[out := put (ys[i := x])]))))"

definition copySlice ::
  "(cell \<Rightarrow> 'r list option) \<Rightarrow> ('r list \<Rightarrow> cell) \<Rightarrow> 'r \<Rightarrow> ('r \<Rightarrow> mem \<Rightarrow> ('r \<times> mem) option) \<Rightarrow> ref \<Rightarrow> mem \<Rightarrow> (ref \<times> mem) option" where
  "copySlice get put zero copy p h =
     (case p of
        None \<Rightarrow> Some (None, h)
      | Some a \<Rightarrow>
          (case load get h a of
             None \<Rightarrow> None
           | Some xs \<Rightarrow>
               (let out = length h; h = h @ [put (replicate (length xs) zero)] in
                map_option (Pair (Some out)) (copyElements get put copy (a, out) 0 (length xs) h))))"

text \<open>\<open>*out = make([]T, len(*in)); copy(*out, *in)\<close>.\<close>

definition copyFlatSlice ::
  "(cell \<Rightarrow> 'r list option) \<Rightarrow> ('r list \<Rightarrow> cell) \<Rightarrow> 'r \<Rightarrow> ref \<Rightarrow> mem \<Rightarrow> (ref \<times> mem) option" where
  "copyFlatSlice get put zero p h =
     (case p of
        None \<Rightarrow> Some (None, h)
      | Some a \<Rightarrow>
          (case load get h a of
             None \<Rightarrow> None
           | Some xs \<Rightarrow>
               (let out = length h; h = h @ [put (replicate (length xs) zero)] in Some (Some out, h[out := put xs]))))"

section \<open>Maps\<close>

text \<open>
  \<open>*out = make(map, len(*in)); for key, val := range *in { (*out)[key] = val }\<close>. A list of entries is a map
  when no key occurs twice.
\<close>

fun getMap :: "cell \<Rightarrow> string gomap option" where
  "getMap (CMap m) = Some m"
| "getMap _ = None"

definition valEntries :: "mem \<Rightarrow> string gomap \<Rightarrow> string gomap option" where
  "valEntries h m = (if distinct (map fst m) then Some m else None)"

abbreviation valMap :: "mem \<Rightarrow> ref \<Rightarrow> string gomap option option" where
  "valMap \<equiv> valPtr getMap valEntries"

abbreviation footMap :: "mem \<Rightarrow> ref \<Rightarrow> nat set" where
  "footMap \<equiv> footPtr getMap footFlat"

fun copyEntries :: "nat \<Rightarrow> string gomap \<Rightarrow> mem \<Rightarrow> mem option" where
  "copyEntries out [] h = Some h"
| "copyEntries out ((key, v) # m) h =
     (case load getMap h out of
        None \<Rightarrow> None
      | Some done \<Rightarrow> copyEntries out m (h[out := CMap (AList.update key v done)]))"

definition copyMap :: "ref \<Rightarrow> mem \<Rightarrow> (ref \<times> mem) option" where
  "copyMap p h =
     (case p of
        None \<Rightarrow> Some (None, h)
      | Some a \<Rightarrow>
          (case load getMap h a of
             None \<Rightarrow> None
           | Some m \<Rightarrow> (let out = length h; h = h @ [CMap []] in map_option (Pair (Some out)) (copyEntries out m h))))"

section \<open>Slices and maps are copied\<close>

lemma those_eq_Some: "those xs = Some ys \<longleftrightarrow> xs = map Some ys"
  by (induction xs arbitrary: ys) (auto split: option.splits simp: Cons_eq_map_conv)

lemma those_map_eq: "those (map f xs) = Some ys \<longleftrightarrow> length ys = length xs \<and> (\<forall>i < length xs. f (xs ! i) = Some (ys ! i))"
  by (auto simp: those_eq_Some list_eq_iff_nth_eq)

lemma copyElements_spec:
  assumes D: "deep_copy val foot copy" and codec: "\<And>xs. get (put xs) = Some xs"
    and b: "load get h0 b = Some xs" and xs: "\<forall>j < length xs. val h0 (xs ! j) = Some (vs ! j)"
  shows "length ys = length xs \<Longrightarrow> i + n = length xs \<Longrightarrow>
    \<forall>j < i. val (h0 @ put ys # g) (ys ! j) = Some (vs ! j) \<and> foot (h0 @ put ys # g) (ys ! j) \<subseteq> {length h0 <..} \<Longrightarrow>
    \<exists>ys' g'. copyElements get put copy (b, length h0) i n (h0 @ put ys # g) = Some (h0 @ put ys' # g') \<and> length ys' = length xs \<and>
      (\<forall>j < length xs. val (h0 @ put ys' # g') (ys' ! j) = Some (vs ! j) \<and> foot (h0 @ put ys' # g') (ys' ! j) \<subseteq> {length h0 <..})"
proof (induction n arbitrary: i ys g)
  case (Suc n)
  let ?h = "h0 @ put ys # g"
  from Suc.prems(2) have i: "i < length xs" by simp
  have "val ?h (xs ! i) = Some (vs ! i)" using xs i deep_copy.val_grows [OF D] by blast
  then obtain x g1 where c: "copy (xs ! i) ?h = Some (x, ?h @ g1)" "val (?h @ g1) x = Some (vs ! i)"
      "\<forall>a \<in> foot (?h @ g1) x. length ?h \<le> a"
    by (rule deep_copy.copyE [OF D])
  let ?ys = "ys[i := x]" and ?g = "g @ g1"
  have upd: "(?h @ g1)[length h0 := put ?ys] = h0 @ put ?ys # ?g" by simp
  have kept: "val (h0 @ put ?ys # ?g) z = Some v \<and> foot (h0 @ put ?ys # ?g) z \<subseteq> {length h0 <..}"
    if "val (?h @ g1) z = Some v" "foot (?h @ g1) z \<subseteq> {length h0 <..}" for z v
    using deep_copy_update [OF D that(1), of "length h0" "put ?ys"] that(2) unfolding upd by auto
  have "val (h0 @ put ?ys # ?g) (?ys ! j) = Some (vs ! j) \<and> foot (h0 @ put ?ys # ?g) (?ys ! j) \<subseteq> {length h0 <..}"
    if j: "j < Suc i" for j
  proof (cases "j = i")
    case True
    have "foot (?h @ g1) x \<subseteq> {length h0 <..}" using c(3) by auto
    with kept [OF c(2)] True i Suc.prems(1) show ?thesis by simp
  next
    case False
    with j Suc.prems(3) have "val ?h (ys ! j) = Some (vs ! j)" "foot ?h (ys ! j) \<subseteq> {length h0 <..}" by auto
    with deep_copy.val_grows [OF D this(1), of g1] kept [of "ys ! j" "vs ! j"] False show ?thesis by simp
  qed
  with Suc.IH [of ?ys "Suc i" ?g] Suc.prems(1,2) obtain ys' g' where
    "copyElements get put copy (b, length h0) (Suc i) n (h0 @ put ?ys # ?g) = Some (h0 @ put ys' # g')" "length ys' = length xs"
    "\<forall>j < length xs. val (h0 @ put ys' # g') (ys' ! j) = Some (vs ! j) \<and> foot (h0 @ put ys' # g') (ys' ! j) \<subseteq> {length h0 <..}"
    by auto
  moreover have "load get (?h @ g1) (length h0) = Some ys" using load_new [of get put ys h0 ?g, OF codec] by simp
  ultimately show ?case
    using load_grows [OF b, of "put ys # g"] c(1) upd by (intro exI [of _ ys'] exI [of _ g']) simp
qed auto

lemma deep_copy_slice:
  assumes D: "deep_copy val foot copy" and codec: "\<And>xs. get (put xs) = Some xs"
  shows "deep_copy (valSlice get val) (footSlice get foot) (copySlice get put zero copy)"
proof (rule deep_copy.intro)
  fix h p v
  assume p: "valSlice get val h p = Some v"
  consider "p = None" "v = None" | b xs vs where "p = Some b" "load get h b = Some xs" "v = Some vs" "length vs = length xs"
    "\<forall>i < length xs. val h (xs ! i) = Some (vs ! i)"
    using p by (auto simp: valSlice_def those_map_eq split: option.splits)
  note cases = this
  show "a < length h" if "a \<in> footSlice get foot h p" for a
    using cases
  proof cases
    case (2 b xs vs)
    with that consider "a = b" | i where "i < length xs" "a \<in> foot h (xs ! i)" by (auto simp: footSlice_def in_set_conv_nth)
    then show ?thesis using load_bound [OF 2(2)] deep_copy.foot_bound [OF D] 2(5) by cases blast+
  qed (use that in \<open>simp add: footSlice_def\<close>)
  show "valSlice get val h' p = Some v \<and> footSlice get foot h' p = footSlice get foot h p"
    if local: "\<And>a. a \<in> footSlice get foot h p \<Longrightarrow> a < length h' \<and> h' ! a = h ! a" for h'
    using cases
  proof cases
    case (2 b xs vs)
    have sub: "insert b (\<Union> (foot h ` set xs)) \<subseteq> footSlice get foot h p" using 2(1,2) by (simp add: footSlice_def)
    have "load get h' b = Some xs" by (rule load_same [OF 2(2)]) (use local [of b] sub in simp_all)
    moreover have el: "val h' (xs ! i) = Some (vs ! i) \<and> foot h' (xs ! i) = foot h (xs ! i)" if "i < length xs" for i
    proof (rule deep_copy.val_local [OF D])
      show "val h (xs ! i) = Some (vs ! i)" using 2(5) that by blast
      show "a < length h' \<and> h' ! a = h ! a" if "a \<in> foot h (xs ! i)" for a
        by (rule local) (use that nth_mem [OF \<open>i < length xs\<close>] sub in blast)
    qed
    moreover have "foot h' x = foot h x" if "x \<in> set xs" for x using that el by (metis in_set_conv_nth)
    ultimately show ?thesis using 2 by (simp add: valSlice_def footSlice_def those_map_eq)
  qed (simp add: valSlice_def footSlice_def)
  show "\<exists>r' g. copySlice get put zero copy p h = Some (r', h @ g) \<and> valSlice get val (h @ g) r' = Some v \<and>
      (\<forall>a \<in> footSlice get foot (h @ g) r'. length h \<le> a)"
    using cases
  proof cases
    case 1
    then show ?thesis by (intro exI [of _ None] exI [of _ "[]"]) (simp add: copySlice_def valSlice_def footSlice_def)
  next
    case (2 b xs vs)
    obtain ys g where c: "copyElements get put copy (b, length h) 0 (length xs) (h @ put (replicate (length xs) zero) # []) = Some (h @ put ys # g)"
        "length ys = length xs"
        "\<forall>j < length xs. val (h @ put ys # g) (ys ! j) = Some (vs ! j) \<and> foot (h @ put ys # g) (ys ! j) \<subseteq> {length h <..}"
      using copyElements_spec [OF D codec 2(2,5), of "replicate (length xs) zero" 0 "length xs" "[]"] by auto
    let ?h = "h @ put ys # g"
    have l: "load get ?h (length h) = Some ys" by (rule load_new) (rule codec)
    have "copySlice get put zero copy p h = Some (Some (length h), ?h)" using 2(1,2) c(1) by (simp add: copySlice_def)
    moreover have "valSlice get val ?h (Some (length h)) = Some v" using l c(2,3) 2(3,4) by (simp add: valSlice_def those_map_eq)
    moreover have "footSlice get foot ?h (Some (length h)) \<subseteq> {length h..}"
      using l c(2,3) by (force simp: footSlice_def in_set_conv_nth)
    ultimately show ?thesis by (intro exI [of _ "Some (length h)"] exI [of _ "put ys # g"]) auto
  qed
qed

text \<open>It is enough to copy well what has a value.\<close>

lemma deep_copy_cong:
  assumes D: "deep_copy val foot copy" and copy_eq: "\<And>h r v. val h r = Some v \<Longrightarrow> copy' r h = copy r h"
  shows "deep_copy val foot copy'"
proof (rule deep_copy.intro)
  fix h r v
  assume v: "val h r = Some v"
  show "a < length h" if "a \<in> foot h r" for a by (rule deep_copy.foot_bound [OF D v that])
  show "val h' r = Some v \<and> foot h' r = foot h r" if "\<And>a. a \<in> foot h r \<Longrightarrow> a < length h' \<and> h' ! a = h ! a" for h'
    by (rule deep_copy.val_local [OF D v that])
  show "\<exists>r' g. copy' r h = Some (r', h @ g) \<and> val (h @ g) r' = Some v \<and> (\<forall>a \<in> foot (h @ g) r'. length h \<le> a)"
    unfolding copy_eq [OF v] by (rule deep_copy.copy_new [OF D v])
qed

lemma deep_copy_flat_slice:
  assumes codec: "\<And>xs. get (put xs) = Some xs"
  shows "deep_copy (valPtr get valFlat) (footPtr get footFlat) (copyFlatSlice get put zero)"
proof (rule deep_copy_cong [OF deep_copy_ptr [OF deep_copy_flat codec]])
  fix h p v
  assume "valPtr get valFlat h p = Some v"
  then show "copyFlatSlice get put zero p h = copyPtr get put [] memRet p h"
    by (auto simp: valPtr_def copyFlatSlice_def copyPtr_def memRet_def load_grows split: option.splits)
qed

lemma copyEntries_spec:
  "distinct (map fst (done @ m)) \<Longrightarrow> copyEntries (length h) m (h @ [CMap done]) = Some (h @ [CMap (done @ m)])"
proof (induction m arbitrary: "done")
  case (Cons e m)
  obtain k v where "e = (k, v)" by fastforce
  moreover have "AList.update k v done = done @ [(k, v)]"
    using Cons.prems calculation by (induction "done") auto
  ultimately show ?case using Cons.IH [of "done @ [(k, v)]"] Cons.prems by (simp add: load_def)
qed simp

lemma deep_copy_map: "deep_copy valMap footMap copyMap"
proof (rule deep_copy_cong [OF deep_copy_ptr])
  show "deep_copy valEntries footFlat memRet"
    by (rule deep_copy.intro) (auto simp: valEntries_def footFlat_def memRet_def intro: exI [of _ "[]"] split: if_splits)
  fix h p v
  assume "valMap h p = Some v"
  then show "copyMap p h = copyPtr getMap CMap [] memRet p h"
    using copyEntries_spec [of "[]"]
    by (auto simp: valPtr_def valEntries_def copyMap_def copyPtr_def memRet_def load_grows split: option.splits if_splits)
qed simp

end
