(* ===== verification/Deep_Copy.thy ===== *)
theory Deep_Copy
  imports Go_Memory Controller
begin

text \<open>
  The generated copy functions of the custom resource (\<open>apis/teiid/v1alpha1/zz_generated.deepcopy.go\<close>) and
  the ones of the vendored Kubernetes structs in it, field by field in the order of the code. Each is an
  interpretation of the contract \<open>deep_copy\<close>. The controller works on such a copy of what it read; that the
  rest of the development passes objects as values rests on \<open>DeepCopy_separates\<close>.
\<close>

section \<open>Cells and zero values\<close>

fun getInt :: "cell \<Rightarrow> int option" where
  "getInt (CInt x) = Some x"
| "getInt _ = None"

fun getFlag :: "cell \<Rightarrow> bool option" where
  "getFlag (CFlag x) = Some x"
| "getFlag _ = None"

fun getField :: "cell \<Rightarrow> ObjectFieldSelector option" where
  "getField (CField x) = Some x"
| "getField _ = None"

fun getResource :: "cell \<Rightarrow> ResourceFieldSelector option" where
  "getResource (CResource x) = Some x"
| "getResource _ = None"

fun getSel :: "cell \<Rightarrow> rKeySelector option" where
  "getSel (CSel x) = Some x"
| "getSel _ = None"

fun getEnvSource :: "cell \<Rightarrow> rEnvVarSource option" where
  "getEnvSource (CEnvSource x) = Some x"
| "getEnvSource _ = None"

fun getDataSource :: "cell \<Rightarrow> rDataSourceObject option" where
  "getDataSource (CDataSource x) = Some x"
| "getDataSource _ = None"

fun getSource :: "cell \<Rightarrow> rSource option" where
  "getSource (CSource x) = Some x"
| "getSource _ = None"

fun getValueSource :: "cell \<Rightarrow> rValueSource option" where
  "getValueSource (CValueSource x) = Some x"
| "getValueSource _ = None"

fun getBuild :: "cell \<Rightarrow> rBuild option" where
  "getBuild (CBuild x) = Some x"
| "getBuild _ = None"

fun getSpec :: "cell \<Rightarrow> rSpec option" where
  "getSpec (CSpec x) = Some x"
| "getSpec _ = None"

fun getStatus :: "cell \<Rightarrow> VirtualDatabaseStatus option" where
  "getStatus (CStatus x) = Some x"
| "getStatus _ = None"

fun getVdb :: "cell \<Rightarrow> rVdb option" where
  "getVdb (CVdb x) = Some x"
| "getVdb _ = None"

fun getVdbList :: "cell \<Rightarrow> rVdbList option" where
  "getVdbList (CVdbList x) = Some x"
| "getVdbList _ = None"

fun getStrings :: "cell \<Rightarrow> (string list) option" where
  "getStrings (CStrings x) = Some x"
| "getStrings _ = None"

fun getExposes :: "cell \<Rightarrow> (ExposeType list) option" where
  "getExposes (CExposes x) = Some x"
| "getExposes _ = None"

fun getOwners :: "cell \<Rightarrow> (OwnerReference list) option" where
  "getOwners (COwners x) = Some x"
| "getOwners _ = None"

fun getEnvs :: "cell \<Rightarrow> (rEnvVar list) option" where
  "getEnvs (CEnvs x) = Some x"
| "getEnvs _ = None"

fun getSources :: "cell \<Rightarrow> (rDataSourceObject list) option" where
  "getSources (CSources x) = Some x"
| "getSources _ = None"

fun getItems :: "cell \<Rightarrow> (rVdb list) option" where
  "getItems (CItems x) = Some x"
| "getItems _ = None"

definition zeroField :: ObjectFieldSelector where
  "zeroField = \<lparr>fs_APIVersion = [], FieldPath = []\<rparr>"

definition zeroResource :: ResourceFieldSelector where
  "zeroResource = \<lparr>ContainerName = [], Resource = [], Divisor = ''0''\<rparr>"

definition zeroSel :: rKeySelector where
  "zeroSel = \<lparr>go_sel_Name = [], go_sel_Key = [], go_sel_Optional = None\<rparr>"

definition zeroOwner :: OwnerReference where
  "zeroOwner = \<lparr>owner_Name = [], owner_UID = []\<rparr>"

definition zeroTypeMeta :: go_TypeMeta where
  "zeroTypeMeta = \<lparr>go_Kind = [], go_APIVersion = []\<rparr>"

text \<open>References to what has no references of its own.\<close>

lemma int_ptr: "deep_copy (valPtr getInt valFlat) (footPtr getInt footFlat) (copyPtr getInt CInt 0 memRet)"
  by (rule deep_copy_ptr [OF deep_copy_flat]) simp

lemma field_ptr: "deep_copy (valPtr getField valFlat) (footPtr getField footFlat) (copyPtr getField CField zeroField memRet)"
  by (rule deep_copy_ptr [OF deep_copy_flat]) simp

lemma resource_ptr: "deep_copy (valPtr getResource valFlat) (footPtr getResource footFlat) (copyPtr getResource CResource zeroResource memRet)"
  by (rule deep_copy_ptr [OF deep_copy_flat]) simp

lemma flag_ptr: "deep_copy (valPtr getFlag valFlat) (footPtr getFlag footFlat) (copyPtr getFlag CFlag False memRet)"
  by (rule deep_copy_ptr [OF deep_copy_flat]) simp

lemma strings_slice: "deep_copy (valPtr getStrings valFlat) (footPtr getStrings footFlat) (copyFlatSlice getStrings CStrings [])"
  by (rule deep_copy_flat_slice) simp

lemma exposes_slice:
  "deep_copy (valPtr getExposes valFlat) (footPtr getExposes footFlat) (copyFlatSlice getExposes CExposes (OtherExpose []))"
  by (rule deep_copy_flat_slice) simp

lemma owners_slice: "deep_copy (valSlice getOwners valFlat) (footSlice getOwners footFlat) (copySlice getOwners COwners zeroOwner memRet)"
  by (rule deep_copy_slice [OF deep_copy_flat]) simp

section \<open>The copy functions\<close>

text \<open>
  For every struct: the type of its values, the copy function, the value and the addresses of a struct in
  memory, and the interpretation. The vendored ones are those of the key selectors, \<open>EnvVarSource\<close>, \<open>EnvVar\<close>, \<open>Resources\<close>,
  \<open>ObjectMeta\<close> and \<open>ListMeta\<close>.
\<close>

subsection \<open>\<open>ConfigMapKeySelector\<close> and \<open>SecretKeySelector\<close>\<close>

type_synonym vKeySelector = "bool option go_KeySelector"

definition KeySelector_DeepCopyInto :: "rKeySelector \<Rightarrow> mem \<Rightarrow> (rKeySelector \<times> mem) option" where
  "KeySelector_DeepCopyInto inp =
     memBind (copyPtr getFlag CFlag False memRet (go_sel_Optional inp)) (\<lambda>x1.
     memRet (inp\<lparr>go_sel_Optional := x1\<rparr>))"

definition valKeySelector :: "mem \<Rightarrow> rKeySelector \<Rightarrow> vKeySelector option" where
  "valKeySelector h s =
     map_option (\<lambda>x1. \<lparr>go_sel_Name = go_sel_Name s, go_sel_Key = go_sel_Key s, go_sel_Optional = x1\<rparr>)
       (valPtr getFlag valFlat h (go_sel_Optional s))"

definition footKeySelector :: "mem \<Rightarrow> rKeySelector \<Rightarrow> nat set" where
  "footKeySelector h s = footPtr getFlag footFlat h (go_sel_Optional s)"

interpretation keySelector_copy: deep_copy valKeySelector footKeySelector KeySelector_DeepCopyInto
  by (rule deep_copy_struct [where refs = "\<lambda>s. (go_sel_Optional s)"
      and replace = "\<lambda>s x1. s\<lparr>go_sel_Optional := x1\<rparr>"
      and mk = "\<lambda>s x1. \<lparr>go_sel_Name = go_sel_Name s, go_sel_Key = go_sel_Key s, go_sel_Optional = x1\<rparr>",
      OF flag_ptr])
    (simp_all add: valKeySelector_def footKeySelector_def KeySelector_DeepCopyInto_def memBind_def memRet_def case_prod_unfold
      split: option.split)

lemma selector_ptr: "deep_copy (valPtr getSel valKeySelector) (footPtr getSel footKeySelector)
    (copyPtr getSel CSel zeroSel KeySelector_DeepCopyInto)"
  by (rule deep_copy_ptr [OF keySelector_copy.deep_copy_axioms]) simp

subsection \<open>\<open>EnvVarSource\<close>\<close>

type_synonym vEnvVarSource = "(ObjectFieldSelector option, ResourceFieldSelector option, vKeySelector option) go_EnvVarSource"

definition zeroEnvVarSource :: "rEnvVarSource" where
  "zeroEnvVarSource = \<lparr>go_FieldRef = None, go_ResourceFieldRef = None, go_ConfigMapKeyRef = None, go_SecretKeyRef = None\<rparr>"

definition EnvVarSource_DeepCopyInto :: "rEnvVarSource \<Rightarrow> mem \<Rightarrow> (rEnvVarSource \<times> mem) option" where
  "EnvVarSource_DeepCopyInto inp =
     memBind (copyPtr getField CField zeroField memRet (go_FieldRef inp)) (\<lambda>x1.
     memBind (copyPtr getResource CResource zeroResource memRet (go_ResourceFieldRef inp)) (\<lambda>x2.
     memBind (copyPtr getSel CSel zeroSel KeySelector_DeepCopyInto (go_ConfigMapKeyRef inp)) (\<lambda>x3.
     memBind (copyPtr getSel CSel zeroSel KeySelector_DeepCopyInto (go_SecretKeyRef inp)) (\<lambda>x4.
     memRet (inp\<lparr>go_FieldRef := x1, go_ResourceFieldRef := x2, go_ConfigMapKeyRef := x3, go_SecretKeyRef := x4\<rparr>)))))"

definition valEnvVarSource :: "mem \<Rightarrow> rEnvVarSource \<Rightarrow> vEnvVarSource option" where
  "valEnvVarSource h s =
     map_option (\<lambda>(x1, x2, x3, x4). \<lparr>go_FieldRef = x1, go_ResourceFieldRef = x2, go_ConfigMapKeyRef = x3, go_SecretKeyRef = x4\<rparr>)
       (valPair (valPtr getField valFlat) (valPair (valPtr getResource valFlat)
         (valPair (valPtr getSel valKeySelector) (valPtr getSel valKeySelector))) h
         (go_FieldRef s, go_ResourceFieldRef s, go_ConfigMapKeyRef s, go_SecretKeyRef s))"

definition footEnvVarSource :: "mem \<Rightarrow> rEnvVarSource \<Rightarrow> nat set" where
  "footEnvVarSource h s =
     footPair (footPtr getField footFlat) (footPair (footPtr getResource footFlat)
       (footPair (footPtr getSel footKeySelector) (footPtr getSel footKeySelector))) h
       (go_FieldRef s, go_ResourceFieldRef s, go_ConfigMapKeyRef s, go_SecretKeyRef s)"

interpretation envVarSource_copy: deep_copy valEnvVarSource footEnvVarSource EnvVarSource_DeepCopyInto
  by (rule deep_copy_struct [where refs = "\<lambda>s. (go_FieldRef s, go_ResourceFieldRef s, go_ConfigMapKeyRef s, go_SecretKeyRef s)"
      and replace = "\<lambda>s t. case t of (x1, x2, x3, x4) \<Rightarrow> s\<lparr>go_FieldRef := x1, go_ResourceFieldRef := x2, go_ConfigMapKeyRef := x3, go_SecretKeyRef := x4\<rparr>"
      and mk = "\<lambda>s t. case t of (x1, x2, x3, x4) \<Rightarrow> \<lparr>go_FieldRef = x1, go_ResourceFieldRef = x2, go_ConfigMapKeyRef = x3, go_SecretKeyRef = x4\<rparr>",
      OF deep_copy_pair [OF field_ptr deep_copy_pair [OF resource_ptr deep_copy_pair [OF selector_ptr
        selector_ptr]]]])
    (simp_all add: valEnvVarSource_def footEnvVarSource_def EnvVarSource_DeepCopyInto_def copyPair_def memBind_def memRet_def case_prod_unfold
      split: option.split)

lemma env_source_ptr: "deep_copy (valPtr getEnvSource valEnvVarSource) (footPtr getEnvSource footEnvVarSource)
    (copyPtr getEnvSource CEnvSource zeroEnvVarSource EnvVarSource_DeepCopyInto)"
  by (rule deep_copy_ptr [OF envVarSource_copy.deep_copy_axioms]) simp

subsection \<open>\<open>EnvVar\<close>\<close>

type_synonym vEnvVar = "vEnvVarSource option go_EnvVar"

definition zeroEnvVar :: "rEnvVar" where
  "zeroEnvVar = \<lparr>go_ev_Name = [], go_ev_Value = [], go_ValueFrom = None\<rparr>"

definition EnvVar_DeepCopyInto :: "rEnvVar \<Rightarrow> mem \<Rightarrow> (rEnvVar \<times> mem) option" where
  "EnvVar_DeepCopyInto inp =
     memBind (copyPtr getEnvSource CEnvSource zeroEnvVarSource EnvVarSource_DeepCopyInto (go_ValueFrom inp)) (\<lambda>x1.
     memRet (inp\<lparr>go_ValueFrom := x1\<rparr>))"

definition valEnvVar :: "mem \<Rightarrow> rEnvVar \<Rightarrow> vEnvVar option" where
  "valEnvVar h s =
     map_option (\<lambda>x1. \<lparr>go_ev_Name = go_ev_Name s, go_ev_Value = go_ev_Value s, go_ValueFrom = x1\<rparr>)
       (valPtr getEnvSource valEnvVarSource h
         (go_ValueFrom s))"

definition footEnvVar :: "mem \<Rightarrow> rEnvVar \<Rightarrow> nat set" where
  "footEnvVar h s =
     footPtr getEnvSource footEnvVarSource h
       (go_ValueFrom s)"

interpretation envVar_copy: deep_copy valEnvVar footEnvVar EnvVar_DeepCopyInto
  by (rule deep_copy_struct [where refs = "\<lambda>s. (go_ValueFrom s)"
      and replace = "\<lambda>s x1. s\<lparr>go_ValueFrom := x1\<rparr>"
      and mk = "\<lambda>s x1. \<lparr>go_ev_Name = go_ev_Name s, go_ev_Value = go_ev_Value s, go_ValueFrom = x1\<rparr>",
      OF env_source_ptr])
    (simp_all add: valEnvVar_def footEnvVar_def EnvVar_DeepCopyInto_def copyPair_def memBind_def memRet_def case_prod_unfold
      split: option.split)

lemma envs_slice: "deep_copy (valSlice getEnvs valEnvVar) (footSlice getEnvs footEnvVar)
    (copySlice getEnvs CEnvs zeroEnvVar EnvVar_DeepCopyInto)"
  by (rule deep_copy_slice [OF envVar_copy.deep_copy_axioms]) simp

subsection \<open>\<open>DataSourceObject\<close>\<close>

type_synonym vDataSourceObject = "vEnvVar list option go_DataSourceObject"

definition zeroDataSourceObject :: "rDataSourceObject" where
  "zeroDataSourceObject = \<lparr>go_ds_Name = [], go_ds_Type = [], go_Properties = None\<rparr>"

definition DataSourceObject_DeepCopyInto :: "rDataSourceObject \<Rightarrow> mem \<Rightarrow> (rDataSourceObject \<times> mem) option" where
  "DataSourceObject_DeepCopyInto inp =
     memBind (copySlice getEnvs CEnvs zeroEnvVar EnvVar_DeepCopyInto (go_Properties inp)) (\<lambda>x1.
     memRet (inp\<lparr>go_Properties := x1\<rparr>))"

definition valDataSourceObject :: "mem \<Rightarrow> rDataSourceObject \<Rightarrow> vDataSourceObject option" where
  "valDataSourceObject h s =
     map_option (\<lambda>x1. \<lparr>go_ds_Name = go_ds_Name s, go_ds_Type = go_ds_Type s, go_Properties = x1\<rparr>)
       (valSlice getEnvs valEnvVar h
         (go_Properties s))"

definition footDataSourceObject :: "mem \<Rightarrow> rDataSourceObject \<Rightarrow> nat set" where
  "footDataSourceObject h s =
     footSlice getEnvs footEnvVar h
       (go_Properties s)"

interpretation dataSourceObject_copy: deep_copy valDataSourceObject footDataSourceObject DataSourceObject_DeepCopyInto
  by (rule deep_copy_struct [where refs = "\<lambda>s. (go_Properties s)"
      and replace = "\<lambda>s x1. s\<lparr>go_Properties := x1\<rparr>"
      and mk = "\<lambda>s x1. \<lparr>go_ds_Name = go_ds_Name s, go_ds_Type = go_ds_Type s, go_Properties = x1\<rparr>",
      OF envs_slice])
    (simp_all add: valDataSourceObject_def footDataSourceObject_def DataSourceObject_DeepCopyInto_def copyPair_def memBind_def memRet_def case_prod_unfold
      split: option.split)

lemma sources_slice: "deep_copy (valSlice getSources valDataSourceObject) (footSlice getSources footDataSourceObject)
    (copySlice getSources CSources zeroDataSourceObject DataSourceObject_DeepCopyInto)"
  by (rule deep_copy_slice [OF dataSourceObject_copy.deep_copy_axioms]) simp

definition DataSourceObject_DeepCopy :: "ref \<Rightarrow> mem \<Rightarrow> (ref \<times> mem) option" where
  "DataSourceObject_DeepCopy = copyPtr getDataSource CDataSource zeroDataSourceObject DataSourceObject_DeepCopyInto"

interpretation dataSourceObject_pointer: deep_copy "valPtr getDataSource valDataSourceObject" "footPtr getDataSource footDataSourceObject" DataSourceObject_DeepCopy
  unfolding DataSourceObject_DeepCopy_def by (rule deep_copy_ptr [OF dataSourceObject_copy.deep_copy_axioms]) simp

subsection \<open>\<open>Source\<close>\<close>

type_synonym vSource = "(string list option, string gomap option) go_Source"

definition zeroSource :: "rSource" where
  "zeroSource = \<lparr>go_src_Version = [], go_DDL = [], go_Maven = [], go_OpenAPI = [], go_Dependencies = None,
     go_MavenRepositories = None\<rparr>"

definition Source_DeepCopyInto :: "rSource \<Rightarrow> mem \<Rightarrow> (rSource \<times> mem) option" where
  "Source_DeepCopyInto inp =
     memBind (copyFlatSlice getStrings CStrings [] (go_Dependencies inp)) (\<lambda>x1.
     memBind (copyMap (go_MavenRepositories inp)) (\<lambda>x2.
     memRet (inp\<lparr>go_Dependencies := x1, go_MavenRepositories := x2\<rparr>)))"

definition valSource :: "mem \<Rightarrow> rSource \<Rightarrow> vSource option" where
  "valSource h s =
     map_option (\<lambda>(x1, x2). \<lparr>go_src_Version = go_src_Version s, go_DDL = go_DDL s, go_Maven = go_Maven s,
          go_OpenAPI = go_OpenAPI s, go_Dependencies = x1, go_MavenRepositories = x2\<rparr>)
       (valPair (valPtr getStrings valFlat) (valMap) h
         (go_Dependencies s, go_MavenRepositories s))"

definition footSource :: "mem \<Rightarrow> rSource \<Rightarrow> nat set" where
  "footSource h s =
     footPair (footPtr getStrings footFlat) (footMap) h
       (go_Dependencies s, go_MavenRepositories s)"

interpretation source_copy: deep_copy valSource footSource Source_DeepCopyInto
  by (rule deep_copy_struct [where refs = "\<lambda>s. (go_Dependencies s, go_MavenRepositories s)"
      and replace = "\<lambda>s t. case t of (x1, x2) \<Rightarrow> s\<lparr>go_Dependencies := x1, go_MavenRepositories := x2\<rparr>"
      and mk = "\<lambda>s t. case t of (x1, x2) \<Rightarrow> \<lparr>go_src_Version = go_src_Version s, go_DDL = go_DDL s, go_Maven = go_Maven s,
        go_OpenAPI = go_OpenAPI s, go_Dependencies = x1, go_MavenRepositories = x2\<rparr>",
      OF deep_copy_pair [OF strings_slice deep_copy_map]])
    (simp_all add: valSource_def footSource_def Source_DeepCopyInto_def copyPair_def memBind_def memRet_def case_prod_unfold
      split: option.split)

definition Source_DeepCopy :: "ref \<Rightarrow> mem \<Rightarrow> (ref \<times> mem) option" where
  "Source_DeepCopy = copyPtr getSource CSource zeroSource Source_DeepCopyInto"

interpretation source_pointer: deep_copy "valPtr getSource valSource" "footPtr getSource footSource" Source_DeepCopy
  unfolding Source_DeepCopy_def by (rule deep_copy_ptr [OF source_copy.deep_copy_axioms]) simp

subsection \<open>\<open>ValueSource\<close>\<close>

type_synonym vValueSource = "vKeySelector option go_ValueSource"

definition zeroValueSource :: "rValueSource" where
  "zeroValueSource = \<lparr>go_vs_ConfigMapKeyRef = None, go_vs_SecretKeyRef = None\<rparr>"

definition ValueSource_DeepCopyInto :: "rValueSource \<Rightarrow> mem \<Rightarrow> (rValueSource \<times> mem) option" where
  "ValueSource_DeepCopyInto inp =
     memBind (copyPtr getSel CSel zeroSel KeySelector_DeepCopyInto (go_vs_ConfigMapKeyRef inp)) (\<lambda>x1.
     memBind (copyPtr getSel CSel zeroSel KeySelector_DeepCopyInto (go_vs_SecretKeyRef inp)) (\<lambda>x2.
     memRet (inp\<lparr>go_vs_ConfigMapKeyRef := x1, go_vs_SecretKeyRef := x2\<rparr>)))"

definition valValueSource :: "mem \<Rightarrow> rValueSource \<Rightarrow> vValueSource option" where
  "valValueSource h s =
     map_option (\<lambda>(x1, x2). \<lparr>go_vs_ConfigMapKeyRef = x1, go_vs_SecretKeyRef = x2\<rparr>)
       (valPair (valPtr getSel valKeySelector) (valPtr getSel valKeySelector) h
         (go_vs_ConfigMapKeyRef s, go_vs_SecretKeyRef s))"

definition footValueSource :: "mem \<Rightarrow> rValueSource \<Rightarrow> nat set" where
  "footValueSource h s =
     footPair (footPtr getSel footKeySelector) (footPtr getSel footKeySelector) h
       (go_vs_ConfigMapKeyRef s, go_vs_SecretKeyRef s)"

interpretation valueSource_copy: deep_copy valValueSource footValueSource ValueSource_DeepCopyInto
  by (rule deep_copy_struct [where refs = "\<lambda>s. (go_vs_ConfigMapKeyRef s, go_vs_SecretKeyRef s)"
      and replace = "\<lambda>s t. case t of (x1, x2) \<Rightarrow> s\<lparr>go_vs_ConfigMapKeyRef := x1, go_vs_SecretKeyRef := x2\<rparr>"
      and mk = "\<lambda>s t. case t of (x1, x2) \<Rightarrow> \<lparr>go_vs_ConfigMapKeyRef = x1, go_vs_SecretKeyRef = x2\<rparr>",
      OF deep_copy_pair [OF selector_ptr selector_ptr]])
    (simp_all add: valValueSource_def footValueSource_def ValueSource_DeepCopyInto_def copyPair_def memBind_def memRet_def case_prod_unfold
      split: option.split)

definition ValueSource_DeepCopy :: "ref \<Rightarrow> mem \<Rightarrow> (ref \<times> mem) option" where
  "ValueSource_DeepCopy = copyPtr getValueSource CValueSource zeroValueSource ValueSource_DeepCopyInto"

interpretation valueSource_pointer: deep_copy "valPtr getValueSource valValueSource" "footPtr getValueSource footValueSource" ValueSource_DeepCopy
  unfolding ValueSource_DeepCopy_def by (rule deep_copy_ptr [OF valueSource_copy.deep_copy_axioms]) simp

subsection \<open>\<open>Build\<close>\<close>

type_synonym vBuild = "(vEnvVar list option, string list option, string gomap option) go_Build"

definition zeroBuild :: "rBuild" where
  "zeroBuild = \<lparr>go_build_Env = None, go_build_Source = zeroSource\<rparr>"

definition Build_DeepCopyInto :: "rBuild \<Rightarrow> mem \<Rightarrow> (rBuild \<times> mem) option" where
  "Build_DeepCopyInto inp =
     memBind (copySlice getEnvs CEnvs zeroEnvVar EnvVar_DeepCopyInto (go_build_Env inp)) (\<lambda>x1.
     memBind (Source_DeepCopyInto (go_build_Source inp)) (\<lambda>x2.
     memRet (inp\<lparr>go_build_Env := x1, go_build_Source := x2\<rparr>)))"

definition valBuild :: "mem \<Rightarrow> rBuild \<Rightarrow> vBuild option" where
  "valBuild h s =
     map_option (\<lambda>(x1, x2). \<lparr>go_build_Env = x1, go_build_Source = x2\<rparr>)
       (valPair (valSlice getEnvs valEnvVar) (valSource) h
         (go_build_Env s, go_build_Source s))"

definition footBuild :: "mem \<Rightarrow> rBuild \<Rightarrow> nat set" where
  "footBuild h s =
     footPair (footSlice getEnvs footEnvVar) (footSource) h
       (go_build_Env s, go_build_Source s)"

interpretation build_copy: deep_copy valBuild footBuild Build_DeepCopyInto
  by (rule deep_copy_struct [where refs = "\<lambda>s. (go_build_Env s, go_build_Source s)"
      and replace = "\<lambda>s t. case t of (x1, x2) \<Rightarrow> s\<lparr>go_build_Env := x1, go_build_Source := x2\<rparr>"
      and mk = "\<lambda>s t. case t of (x1, x2) \<Rightarrow> \<lparr>go_build_Env = x1, go_build_Source = x2\<rparr>",
      OF deep_copy_pair [OF envs_slice source_copy.deep_copy_axioms]])
    (simp_all add: valBuild_def footBuild_def Build_DeepCopyInto_def copyPair_def memBind_def memRet_def case_prod_unfold
      split: option.split)

definition Build_DeepCopy :: "ref \<Rightarrow> mem \<Rightarrow> (ref \<times> mem) option" where
  "Build_DeepCopy = copyPtr getBuild CBuild zeroBuild Build_DeepCopyInto"

interpretation build_pointer: deep_copy "valPtr getBuild valBuild" "footPtr getBuild footBuild" Build_DeepCopy
  unfolding Build_DeepCopy_def by (rule deep_copy_ptr [OF build_copy.deep_copy_axioms]) simp

subsection \<open>\<open>Resources\<close>\<close>

type_synonym vResources = "string gomap option go_Resources"

definition zeroResources :: "rResources" where
  "zeroResources = \<lparr>go_Limits = None, go_Requests = None\<rparr>"

definition Resources_DeepCopyInto :: "rResources \<Rightarrow> mem \<Rightarrow> (rResources \<times> mem) option" where
  "Resources_DeepCopyInto inp =
     memBind (copyMap (go_Limits inp)) (\<lambda>x1.
     memBind (copyMap (go_Requests inp)) (\<lambda>x2.
     memRet (inp\<lparr>go_Limits := x1, go_Requests := x2\<rparr>)))"

definition valResources :: "mem \<Rightarrow> rResources \<Rightarrow> vResources option" where
  "valResources h s =
     map_option (\<lambda>(x1, x2). \<lparr>go_Limits = x1, go_Requests = x2\<rparr>)
       (valPair (valMap) (valMap) h
         (go_Limits s, go_Requests s))"

definition footResources :: "mem \<Rightarrow> rResources \<Rightarrow> nat set" where
  "footResources h s =
     footPair (footMap) (footMap) h
       (go_Limits s, go_Requests s)"

interpretation resources_copy: deep_copy valResources footResources Resources_DeepCopyInto
  by (rule deep_copy_struct [where refs = "\<lambda>s. (go_Limits s, go_Requests s)"
      and replace = "\<lambda>s t. case t of (x1, x2) \<Rightarrow> s\<lparr>go_Limits := x1, go_Requests := x2\<rparr>"
      and mk = "\<lambda>s t. case t of (x1, x2) \<Rightarrow> \<lparr>go_Limits = x1, go_Requests = x2\<rparr>",
      OF deep_copy_pair [OF deep_copy_map deep_copy_map]])
    (simp_all add: valResources_def footResources_def Resources_DeepCopyInto_def copyPair_def memBind_def memRet_def case_prod_unfold
      split: option.split)

subsection \<open>\<open>Spec\<close>\<close>

type_synonym vSpec = "(int option, vEnvVar list option, string list option, string gomap option, vDataSourceObject list option, ExposeType list option) go_Spec"

definition zeroSpec :: "rSpec" where
  "zeroSpec = \<lparr>go_Replicas = None, go_Env = None, go_Resources = zeroResources, go_Build = zeroBuild, go_Jaeger = [],
     go_DataSources = None, go_Expose = None\<rparr>"

definition Spec_DeepCopyInto :: "rSpec \<Rightarrow> mem \<Rightarrow> (rSpec \<times> mem) option" where
  "Spec_DeepCopyInto inp =
     memBind (copyPtr getInt CInt 0 memRet (go_Replicas inp)) (\<lambda>x1.
     memBind (copySlice getEnvs CEnvs zeroEnvVar EnvVar_DeepCopyInto (go_Env inp)) (\<lambda>x2.
     memBind (Resources_DeepCopyInto (go_Resources inp)) (\<lambda>x3.
     memBind (Build_DeepCopyInto (go_Build inp)) (\<lambda>x4.
     memBind (copySlice getSources CSources zeroDataSourceObject DataSourceObject_DeepCopyInto (go_DataSources inp)) (\<lambda>x5.
     memBind (copyFlatSlice getExposes CExposes (OtherExpose []) (go_Expose inp)) (\<lambda>x6.
     memRet (inp\<lparr>go_Replicas := x1, go_Env := x2, go_Resources := x3, go_Build := x4, go_DataSources := x5,
       go_Expose := x6\<rparr>)))))))"

definition valSpec :: "mem \<Rightarrow> rSpec \<Rightarrow> vSpec option" where
  "valSpec h s =
     map_option (\<lambda>(x1, x2, x3, x4, x5, x6). \<lparr>go_Replicas = x1, go_Env = x2, go_Resources = x3, go_Build = x4, go_Jaeger = go_Jaeger s,
          go_DataSources = x5, go_Expose = x6\<rparr>)
       (valPair (valPtr getInt valFlat) (valPair (valSlice getEnvs valEnvVar) (valPair (valResources)
         (valPair (valBuild) (valPair (valSlice getSources valDataSourceObject) (valPtr getExposes valFlat))))) h
         (go_Replicas s, go_Env s, go_Resources s, go_Build s, go_DataSources s, go_Expose s))"

definition footSpec :: "mem \<Rightarrow> rSpec \<Rightarrow> nat set" where
  "footSpec h s =
     footPair (footPtr getInt footFlat) (footPair (footSlice getEnvs footEnvVar) (footPair (footResources)
       (footPair (footBuild)
       (footPair (footSlice getSources footDataSourceObject) (footPtr getExposes footFlat))))) h
       (go_Replicas s, go_Env s, go_Resources s, go_Build s, go_DataSources s, go_Expose s)"

interpretation spec_copy: deep_copy valSpec footSpec Spec_DeepCopyInto
  by (rule deep_copy_struct [where refs = "\<lambda>s. (go_Replicas s, go_Env s, go_Resources s, go_Build s, go_DataSources s, go_Expose s)"
      and replace = "\<lambda>s t. case t of (x1, x2, x3, x4, x5, x6) \<Rightarrow> s\<lparr>go_Replicas := x1, go_Env := x2, go_Resources := x3, go_Build := x4, go_DataSources := x5,
        go_Expose := x6\<rparr>"
      and mk = "\<lambda>s t. case t of (x1, x2, x3, x4, x5, x6) \<Rightarrow> \<lparr>go_Replicas = x1, go_Env = x2, go_Resources = x3, go_Build = x4, go_Jaeger = go_Jaeger s,
        go_DataSources = x5, go_Expose = x6\<rparr>",
      OF deep_copy_pair [OF int_ptr deep_copy_pair [OF envs_slice deep_copy_pair [OF
        resources_copy.deep_copy_axioms deep_copy_pair [OF build_copy.deep_copy_axioms deep_copy_pair [OF
        sources_slice exposes_slice]]]]]])
    (simp_all add: valSpec_def footSpec_def Spec_DeepCopyInto_def copyPair_def memBind_def memRet_def case_prod_unfold
      split: option.split)

definition Spec_DeepCopy :: "ref \<Rightarrow> mem \<Rightarrow> (ref \<times> mem) option" where
  "Spec_DeepCopy = copyPtr getSpec CSpec zeroSpec Spec_DeepCopyInto"

interpretation spec_pointer: deep_copy "valPtr getSpec valSpec" "footPtr getSpec footSpec" Spec_DeepCopy
  unfolding Spec_DeepCopy_def by (rule deep_copy_ptr [OF spec_copy.deep_copy_axioms]) simp

subsection \<open>\<open>ObjectMeta\<close>\<close>

type_synonym vMeta = "(string gomap option, OwnerReference list option) go_ObjectMeta"

definition zeroObjectMeta :: "rMeta" where
  "zeroObjectMeta = \<lparr>go_Name = [], go_Namespace = [], go_Labels = None, go_Annotations = None, go_ResourceVersion = [],
     go_UID = [], go_Generation = 0, go_OwnerReferences = None\<rparr>"

definition ObjectMeta_DeepCopyInto :: "rMeta \<Rightarrow> mem \<Rightarrow> (rMeta \<times> mem) option" where
  "ObjectMeta_DeepCopyInto inp =
     memBind (copyMap (go_Labels inp)) (\<lambda>x1.
     memBind (copyMap (go_Annotations inp)) (\<lambda>x2.
     memBind (copySlice getOwners COwners zeroOwner memRet (go_OwnerReferences inp)) (\<lambda>x3.
     memRet (inp\<lparr>go_Labels := x1, go_Annotations := x2, go_OwnerReferences := x3\<rparr>))))"

definition valObjectMeta :: "mem \<Rightarrow> rMeta \<Rightarrow> vMeta option" where
  "valObjectMeta h s =
     map_option (\<lambda>(x1, x2, x3). \<lparr>go_Name = go_Name s, go_Namespace = go_Namespace s, go_Labels = x1, go_Annotations = x2,
          go_ResourceVersion = go_ResourceVersion s, go_UID = go_UID s, go_Generation = go_Generation s,
          go_OwnerReferences = x3\<rparr>)
       (valPair (valMap) (valPair (valMap) (valSlice getOwners valFlat)) h
         (go_Labels s, go_Annotations s, go_OwnerReferences s))"

definition footObjectMeta :: "mem \<Rightarrow> rMeta \<Rightarrow> nat set" where
  "footObjectMeta h s =
     footPair (footMap) (footPair (footMap) (footSlice getOwners footFlat)) h
       (go_Labels s, go_Annotations s, go_OwnerReferences s)"

interpretation objectMeta_copy: deep_copy valObjectMeta footObjectMeta ObjectMeta_DeepCopyInto
  by (rule deep_copy_struct [where refs = "\<lambda>s. (go_Labels s, go_Annotations s, go_OwnerReferences s)"
      and replace = "\<lambda>s t. case t of (x1, x2, x3) \<Rightarrow> s\<lparr>go_Labels := x1, go_Annotations := x2, go_OwnerReferences := x3\<rparr>"
      and mk = "\<lambda>s t. case t of (x1, x2, x3) \<Rightarrow> \<lparr>go_Name = go_Name s, go_Namespace = go_Namespace s, go_Labels = x1, go_Annotations = x2,
        go_ResourceVersion = go_ResourceVersion s, go_UID = go_UID s, go_Generation = go_Generation s,
        go_OwnerReferences = x3\<rparr>",
      OF deep_copy_pair [OF deep_copy_map deep_copy_pair [OF deep_copy_map owners_slice]]])
    (simp_all add: valObjectMeta_def footObjectMeta_def ObjectMeta_DeepCopyInto_def copyPair_def memBind_def memRet_def case_prod_unfold
      split: option.split)

subsection \<open>\<open>VirtualDatabase\<close>\<close>

type_synonym vVdb = "(int option, vEnvVar list option, string list option, string gomap option, vDataSourceObject list option, ExposeType list option, OwnerReference list option) go_Vdb"

definition zeroVirtualDatabase :: "rVdb" where
  "zeroVirtualDatabase = \<lparr>go_TypeMeta = zeroTypeMeta, go_ObjectMeta = zeroObjectMeta, go_Spec = zeroSpec, go_Status = emptyStatus\<rparr>"

definition VirtualDatabase_DeepCopyInto :: "rVdb \<Rightarrow> mem \<Rightarrow> (rVdb \<times> mem) option" where
  "VirtualDatabase_DeepCopyInto inp =
     memBind (ObjectMeta_DeepCopyInto (go_ObjectMeta inp)) (\<lambda>x1.
     memBind (Spec_DeepCopyInto (go_Spec inp)) (\<lambda>x2.
     memRet (inp\<lparr>go_ObjectMeta := x1, go_Spec := x2\<rparr>)))"

definition valVirtualDatabase :: "mem \<Rightarrow> rVdb \<Rightarrow> vVdb option" where
  "valVirtualDatabase h s =
     map_option (\<lambda>(x1, x2). \<lparr>go_TypeMeta = go_TypeMeta s, go_ObjectMeta = x1, go_Spec = x2, go_Status = go_Status s\<rparr>)
       (valPair (valObjectMeta) (valSpec) h
         (go_ObjectMeta s, go_Spec s))"

definition footVirtualDatabase :: "mem \<Rightarrow> rVdb \<Rightarrow> nat set" where
  "footVirtualDatabase h s =
     footPair (footObjectMeta) (footSpec) h
       (go_ObjectMeta s, go_Spec s)"

interpretation virtualDatabase_copy: deep_copy valVirtualDatabase footVirtualDatabase VirtualDatabase_DeepCopyInto
  by (rule deep_copy_struct [where refs = "\<lambda>s. (go_ObjectMeta s, go_Spec s)"
      and replace = "\<lambda>s t. case t of (x1, x2) \<Rightarrow> s\<lparr>go_ObjectMeta := x1, go_Spec := x2\<rparr>"
      and mk = "\<lambda>s t. case t of (x1, x2) \<Rightarrow> \<lparr>go_TypeMeta = go_TypeMeta s, go_ObjectMeta = x1, go_Spec = x2, go_Status = go_Status s\<rparr>",
      OF deep_copy_pair [OF objectMeta_copy.deep_copy_axioms spec_copy.deep_copy_axioms]])
    (simp_all add: valVirtualDatabase_def footVirtualDatabase_def VirtualDatabase_DeepCopyInto_def copyPair_def memBind_def memRet_def case_prod_unfold
      split: option.split)

lemma items_slice: "deep_copy (valSlice getItems valVirtualDatabase) (footSlice getItems footVirtualDatabase)
    (copySlice getItems CItems zeroVirtualDatabase VirtualDatabase_DeepCopyInto)"
  by (rule deep_copy_slice [OF virtualDatabase_copy.deep_copy_axioms]) simp

definition VirtualDatabase_DeepCopy :: "ref \<Rightarrow> mem \<Rightarrow> (ref \<times> mem) option" where
  "VirtualDatabase_DeepCopy = copyPtr getVdb CVdb zeroVirtualDatabase VirtualDatabase_DeepCopyInto"

interpretation virtualDatabase_pointer: deep_copy "valPtr getVdb valVirtualDatabase" "footPtr getVdb footVirtualDatabase" VirtualDatabase_DeepCopy
  unfolding VirtualDatabase_DeepCopy_def by (rule deep_copy_ptr [OF virtualDatabase_copy.deep_copy_axioms]) simp

subsection \<open>\<open>ListMeta\<close>\<close>

type_synonym vListMeta = "int option go_ListMeta"

definition zeroListMeta :: "ref go_ListMeta" where
  "zeroListMeta = \<lparr>go_list_ResourceVersion = [], go_Continue = [], go_RemainingItemCount = None\<rparr>"

definition ListMeta_DeepCopyInto :: "ref go_ListMeta \<Rightarrow> mem \<Rightarrow> (ref go_ListMeta \<times> mem) option" where
  "ListMeta_DeepCopyInto inp =
     memBind (copyPtr getInt CInt 0 memRet (go_RemainingItemCount inp)) (\<lambda>x1.
     memRet (inp\<lparr>go_RemainingItemCount := x1\<rparr>))"

definition valListMeta :: "mem \<Rightarrow> ref go_ListMeta \<Rightarrow> vListMeta option" where
  "valListMeta h s =
     map_option (\<lambda>x1. \<lparr>go_list_ResourceVersion = go_list_ResourceVersion s, go_Continue = go_Continue s,
          go_RemainingItemCount = x1\<rparr>)
       (valPtr getInt valFlat h
         (go_RemainingItemCount s))"

definition footListMeta :: "mem \<Rightarrow> ref go_ListMeta \<Rightarrow> nat set" where
  "footListMeta h s =
     footPtr getInt footFlat h
       (go_RemainingItemCount s)"

interpretation listMeta_copy: deep_copy valListMeta footListMeta ListMeta_DeepCopyInto
  by (rule deep_copy_struct [where refs = "\<lambda>s. (go_RemainingItemCount s)"
      and replace = "\<lambda>s x1. s\<lparr>go_RemainingItemCount := x1\<rparr>"
      and mk = "\<lambda>s x1. \<lparr>go_list_ResourceVersion = go_list_ResourceVersion s, go_Continue = go_Continue s,
        go_RemainingItemCount = x1\<rparr>",
      OF int_ptr])
    (simp_all add: valListMeta_def footListMeta_def ListMeta_DeepCopyInto_def copyPair_def memBind_def memRet_def case_prod_unfold
      split: option.split)

subsection \<open>\<open>VirtualDatabaseList\<close>\<close>

type_synonym vVdbList = "(int option, vVdb list option) go_VdbList"

definition zeroVirtualDatabaseList :: "rVdbList" where
  "zeroVirtualDatabaseList = \<lparr>go_list_TypeMeta = zeroTypeMeta, go_ListMeta = zeroListMeta, go_Items = None\<rparr>"

definition VirtualDatabaseList_DeepCopyInto :: "rVdbList \<Rightarrow> mem \<Rightarrow> (rVdbList \<times> mem) option" where
  "VirtualDatabaseList_DeepCopyInto inp =
     memBind (ListMeta_DeepCopyInto (go_ListMeta inp)) (\<lambda>x1.
     memBind (copySlice getItems CItems zeroVirtualDatabase VirtualDatabase_DeepCopyInto (go_Items inp)) (\<lambda>x2.
     memRet (inp\<lparr>go_ListMeta := x1, go_Items := x2\<rparr>)))"

definition valVirtualDatabaseList :: "mem \<Rightarrow> rVdbList \<Rightarrow> vVdbList option" where
  "valVirtualDatabaseList h s =
     map_option (\<lambda>(x1, x2). \<lparr>go_list_TypeMeta = go_list_TypeMeta s, go_ListMeta = x1, go_Items = x2\<rparr>)
       (valPair (valListMeta) (valSlice getItems valVirtualDatabase) h
         (go_ListMeta s, go_Items s))"

definition footVirtualDatabaseList :: "mem \<Rightarrow> rVdbList \<Rightarrow> nat set" where
  "footVirtualDatabaseList h s =
     footPair (footListMeta) (footSlice getItems footVirtualDatabase) h
       (go_ListMeta s, go_Items s)"

interpretation virtualDatabaseList_copy: deep_copy valVirtualDatabaseList footVirtualDatabaseList VirtualDatabaseList_DeepCopyInto
  by (rule deep_copy_struct [where refs = "\<lambda>s. (go_ListMeta s, go_Items s)"
      and replace = "\<lambda>s t. case t of (x1, x2) \<Rightarrow> s\<lparr>go_ListMeta := x1, go_Items := x2\<rparr>"
      and mk = "\<lambda>s t. case t of (x1, x2) \<Rightarrow> \<lparr>go_list_TypeMeta = go_list_TypeMeta s, go_ListMeta = x1, go_Items = x2\<rparr>",
      OF deep_copy_pair [OF listMeta_copy.deep_copy_axioms items_slice]])
    (simp_all add: valVirtualDatabaseList_def footVirtualDatabaseList_def VirtualDatabaseList_DeepCopyInto_def copyPair_def memBind_def memRet_def case_prod_unfold
      split: option.split)

definition VirtualDatabaseList_DeepCopy :: "ref \<Rightarrow> mem \<Rightarrow> (ref \<times> mem) option" where
  "VirtualDatabaseList_DeepCopy = copyPtr getVdbList CVdbList zeroVirtualDatabaseList VirtualDatabaseList_DeepCopyInto"

interpretation virtualDatabaseList_pointer: deep_copy "valPtr getVdbList valVirtualDatabaseList" "footPtr getVdbList footVirtualDatabaseList" VirtualDatabaseList_DeepCopy
  unfolding VirtualDatabaseList_DeepCopy_def by (rule deep_copy_ptr [OF virtualDatabaseList_copy.deep_copy_axioms]) simp

subsection \<open>\<open>VirtualDatabaseStatus\<close>\<close>

definition VirtualDatabaseStatus_DeepCopyInto :: "VirtualDatabaseStatus \<Rightarrow> mem \<Rightarrow> (VirtualDatabaseStatus \<times> mem) option" where
  "VirtualDatabaseStatus_DeepCopyInto inp = memRet inp"

definition VirtualDatabaseStatus_DeepCopy :: "ref \<Rightarrow> mem \<Rightarrow> (ref \<times> mem) option" where
  "VirtualDatabaseStatus_DeepCopy = copyPtr getStatus CStatus emptyStatus VirtualDatabaseStatus_DeepCopyInto"

interpretation status_copy: deep_copy valFlat footFlat VirtualDatabaseStatus_DeepCopyInto
  using deep_copy_flat by (simp add: VirtualDatabaseStatus_DeepCopyInto_def [abs_def])

section \<open>Objects of the runtime\<close>

text \<open>\<open>if c := in.DeepCopy(); c != nil { return c }; return nil\<close>.\<close>

definition VirtualDatabase_DeepCopyObject :: "ref \<Rightarrow> mem \<Rightarrow> (ref \<times> mem) option" where
  "VirtualDatabase_DeepCopyObject p =
     memBind (VirtualDatabase_DeepCopy p) (\<lambda>c. case c of Some a \<Rightarrow> memRet (Some a) | None \<Rightarrow> memRet None)"

definition VirtualDatabaseList_DeepCopyObject :: "ref \<Rightarrow> mem \<Rightarrow> (ref \<times> mem) option" where
  "VirtualDatabaseList_DeepCopyObject p =
     memBind (VirtualDatabaseList_DeepCopy p) (\<lambda>c. case c of Some a \<Rightarrow> memRet (Some a) | None \<Rightarrow> memRet None)"

lemma DeepCopyObject_eq:
  "VirtualDatabase_DeepCopyObject = VirtualDatabase_DeepCopy" "VirtualDatabaseList_DeepCopyObject = VirtualDatabaseList_DeepCopy"
  by (auto simp: fun_eq_iff VirtualDatabase_DeepCopyObject_def VirtualDatabaseList_DeepCopyObject_def memBind_def memRet_def
      split: option.split)

section \<open>The objects of the rest of the development\<close>

text \<open>
  A record of \<open>Types\<close> is a value in memory of which only the annotations tell nil from empty.
\<close>

abbreviation orEmpty :: "'a list option \<Rightarrow> 'a list" where
  "orEmpty xs \<equiv> (case xs of None \<Rightarrow> [] | Some ys \<Rightarrow> ys)"

definition keySelectorOf :: "vKeySelector \<Rightarrow> KeySelector" where
  "keySelectorOf s = \<lparr>sel_Name = go_sel_Name s, sel_Key = go_sel_Key s, sel_Optional = go_sel_Optional s\<rparr>"

definition envSourceOf :: "vEnvVarSource \<Rightarrow> EnvVarSource" where
  "envSourceOf s = \<lparr>FieldRef = go_FieldRef s, ResourceFieldRef = go_ResourceFieldRef s,
     ConfigMapKeyRef = map_option keySelectorOf (go_ConfigMapKeyRef s), SecretKeyRef = map_option keySelectorOf (go_SecretKeyRef s)\<rparr>"

definition envOf :: "vEnvVar \<Rightarrow> EnvVar" where
  "envOf e = \<lparr>ev_Name = go_ev_Name e, ev_Value = go_ev_Value e, ValueFrom = map_option envSourceOf (go_ValueFrom e)\<rparr>"

definition dataSourceOf :: "vDataSourceObject \<Rightarrow> DataSourceObject" where
  "dataSourceOf d = \<lparr>ds_Name = go_ds_Name d, ds_Type = go_ds_Type d, Properties = map envOf (orEmpty (go_Properties d))\<rparr>"

definition goSourceOf :: "vSource \<Rightarrow> Source" where
  "goSourceOf s = \<lparr>src_Version = go_src_Version s, DDL = go_DDL s, Maven = go_Maven s, OpenAPI = go_OpenAPI s,
     Dependencies = orEmpty (go_Dependencies s), MavenRepositories = orEmpty (go_MavenRepositories s)\<rparr>"

definition specOf :: "vSpec \<Rightarrow> VirtualDatabaseSpec" where
  "specOf s = \<lparr>Replicas = go_Replicas s, spec_Env = map envOf (orEmpty (go_Env s)),
     Resources = \<lparr>Limits = orEmpty (go_Limits (go_Resources s)), Requests = orEmpty (go_Requests (go_Resources s))\<rparr>,
     Build = \<lparr>build_Env = map envOf (orEmpty (go_build_Env (go_Build s))), build_Source = goSourceOf (go_build_Source (go_Build s))\<rparr>,
     Jaeger = go_Jaeger s, DataSources = map dataSourceOf (orEmpty (go_DataSources s)), Expose = orEmpty (go_Expose s)\<rparr>"

definition metaOf :: "vMeta \<Rightarrow> ObjectMeta" where
  "metaOf m = \<lparr>Name = go_Name m, Namespace = go_Namespace m, Labels = orEmpty (go_Labels m), Annotations = go_Annotations m,
     ResourceVersion = go_ResourceVersion m, UID = go_UID m, Generation = go_Generation m,
     OwnerReferences = orEmpty (go_OwnerReferences m)\<rparr>"

definition vdbOf :: "vVdb \<Rightarrow> VirtualDatabase" where
  "vdbOf v = \<lparr>vdb_Meta = metaOf (go_ObjectMeta v), Spec = specOf (go_Spec v), Status = go_Status v\<rparr>"

text \<open>The value of the object that a pointer leads to.\<close>

definition vdbAt :: "mem \<Rightarrow> ref \<Rightarrow> vVdb option option" where
  "vdbAt = valPtr getVdb valVirtualDatabase"

text \<open>
  \<open>hasChanges\<close> as the code has it: \<open>reflect.DeepEqual\<close> on two structs in memory, which follows their references and
  tells nil from empty; \<open>None\<close> is a nil dereference.
\<close>

definition memHasChanges :: "mem \<Rightarrow> ref \<Rightarrow> ref \<Rightarrow> bool option" where
  "memHasChanges h instance cached =
     (case (vdbAt h instance, vdbAt h cached) of
        (Some (Some v), Some (Some v')) \<Rightarrow>
          Some (if go_Spec v \<noteq> go_Spec v' then True else if go_Status v \<noteq> go_Status v' then True else False)
      | _ \<Rightarrow> None)"

section \<open>Properties\<close>

text \<open>
  C12: a deep copy shares nothing with its original. Copying a virtual database succeeds, only adds cells to
  memory, and yields an object of the same value, nil slices and maps included. Whatever is written afterwards to
  cells that did not exist before the copy, the original keeps its value; and whatever is written
  to the cells that did, the copy keeps its.
\<close>

theorem DeepCopy_separates:
  assumes "vdbAt h p = Some v"
  shows "\<exists>q g. VirtualDatabase_DeepCopy p h = Some (q, h @ g) \<and>
    (\<forall>h'. length h \<le> length h' \<longrightarrow> take (length h) h' = h \<longrightarrow> vdbAt h' p = Some v) \<and>
    (\<forall>h'. length h' = length (h @ g) \<longrightarrow> drop (length h) h' = g \<longrightarrow> vdbAt h' q = Some v)"
  using virtualDatabase_pointer.copy_separate assms unfolding vdbAt_def by blast

text \<open>A virtual database with replicas, a repository and an environment, in memory.\<close>

definition vdbCells :: mem where
  "vdbCells =
     [CInt 2, CMap [(''central'', ''https://repo'')], CSel (zeroSel\<lparr>go_sel_Name := ''db'', go_sel_Key := ''user''\<rparr>),
      CEnvSource (zeroEnvVarSource\<lparr>go_SecretKeyRef := Some 2\<rparr>),
      CEnvs [zeroEnvVar\<lparr>go_ev_Name := ''USER'', go_ValueFrom := Some 3\<rparr>, zeroEnvVar\<lparr>go_ev_Name := ''MODE''\<rparr>],
      CVdb (zeroVirtualDatabase\<lparr>go_Spec := zeroSpec\<lparr>go_Replicas := Some 0, go_Env := Some 4,
        go_Build := zeroBuild\<lparr>go_build_Source := zeroSource\<lparr>go_MavenRepositories := Some 1\<rparr>\<rparr>\<rparr>\<rparr>)]"

lemma vdbCells_vdb: "\<exists>v. vdbAt vdbCells (Some 5) = Some (Some v) \<and> go_Replicas (go_Spec v) = Some 2"
proof -
  have "map_option (map_option (\<lambda>v. go_Replicas (go_Spec v))) (vdbAt vdbCells (Some 5)) = Some (Some (Some 2))" by code_simp
  then show ?thesis by (auto simp: map_option_eq_Some)
qed

theorem DeepCopy_separates_witness:
  "\<exists>q g v. VirtualDatabase_DeepCopy (Some 5) vdbCells = Some (q, vdbCells @ g) \<and>
     vdbAt (vdbCells @ g) q = Some (Some v) \<and> go_Replicas (go_Spec v) = Some 2"
proof -
  obtain v where v: "vdbAt vdbCells (Some 5) = Some (Some v)" "go_Replicas (go_Spec v) = Some 2" using vdbCells_vdb by blast
  from DeepCopy_separates [OF v(1)] v(2) show ?thesis by (metis append_eq_conv_conj)
qed

text \<open>The cells that can be reached from a pointer to a virtual database.\<close>

definition reach :: "mem \<Rightarrow> ref \<Rightarrow> nat set" where
  "reach = footPtr getVdb footVirtualDatabase"

lemma copy_unreached:
  assumes "vdbAt h p = Some v"
  shows "\<exists>q g. VirtualDatabase_DeepCopy p h = Some (q, h @ g) \<and> vdbAt (h @ g) p = Some v \<and> vdbAt (h @ g) q = Some v \<and>
    (\<forall>h'. length (h @ g) \<le> length h' \<longrightarrow> (\<forall>a < length (h @ g). a \<notin> reach (h @ g) q \<longrightarrow> h' ! a = (h @ g) ! a) \<longrightarrow> vdbAt h' p = Some v)"
proof -
  note v = assms [unfolded vdbAt_def]
  obtain q g where c: "VirtualDatabase_DeepCopy p h = Some (q, h @ g)" "vdbAt (h @ g) q = Some v"
      "\<forall>a \<in> reach (h @ g) q. length h \<le> a" "vdbAt (h @ g) p = Some v"
    by (rule virtualDatabase_pointer.copyE [OF v, folded vdbAt_def reach_def])
  have foot: "reach (h @ g) p = reach h p"
    using virtualDatabase_pointer.val_grows [OF v, of g] by (simp add: reach_def)
  have "vdbAt h' p = Some v"
    if "length (h @ g) \<le> length h'" "\<forall>a < length (h @ g). a \<notin> reach (h @ g) q \<longrightarrow> h' ! a = (h @ g) ! a" for h'
    unfolding vdbAt_def
  proof (rule virtualDatabase_pointer.val_local [THEN conjunct1, OF c(4) [unfolded vdbAt_def]])
    fix a
    assume "a \<in> footPtr getVdb footVirtualDatabase (h @ g) p"
    then have "a < length h" using foot virtualDatabase_pointer.foot_bound [OF v] by (simp add: reach_def)
    with c(3) have "a \<notin> reach (h @ g) q" "a < length (h @ g)" by auto
    with that show "a < length h' \<and> h' ! a = (h @ g) ! a" by (meson order_less_le_trans)
  qed
  with c(1,2,4) show ?thesis by blast
qed

text \<open>
  C13: comparing values is what the controller does. Let the actions work on the deep copy of the object that was
  read: they write only cells that can be reached from the copy, or that are newer, and change of the specification at most the number of
  replicas. Then the object that was read is as it was, and the comparison in memory, which follows the
  references, has the result of \<open>hasChanges\<close> on the values. With a copy that shared a cell with the original, a write
  through it would change both, and the comparison would miss it.
\<close>

theorem memHasChanges_refines:
  assumes "vdbAt h p = Some (Some v)"
  shows "\<exists>q g. VirtualDatabase_DeepCopy p h = Some (q, h @ g) \<and> memHasChanges (h @ g) p q = Some False \<and>
    (\<forall>h' t n. length (h @ g) \<le> length h' \<longrightarrow> (\<forall>a < length (h @ g). a \<notin> reach (h @ g) q \<longrightarrow> h' ! a = (h @ g) ! a) \<longrightarrow>
       vdbAt h' q = Some (Some t) \<longrightarrow> go_Spec t = (go_Spec v)\<lparr>go_Replicas := n\<rparr> \<longrightarrow>
       vdbAt h' p = Some (Some v) \<and> memHasChanges h' p q = Some (hasChanges (vdbOf v) (vdbOf t)))"
proof -
  have refine: "memHasChanges h' p q = Some (hasChanges (vdbOf v) (vdbOf t))"
    if "vdbAt h' p = Some (Some v)" "vdbAt h' q = Some (Some t)" "go_Spec t = (go_Spec v)\<lparr>go_Replicas := n\<rparr>" for h' t n q
  proof -
    have "Spec (vdbOf v) = Spec (vdbOf t) \<longleftrightarrow> go_Spec v = go_Spec t"
      using that(3) by (cases "go_Spec v") (auto simp: vdbOf_def specOf_def)
    with that(1,2) show ?thesis by (simp add: memHasChanges_def hasChanges_def) (simp add: vdbOf_def)
  qed
  obtain q g where c: "VirtualDatabase_DeepCopy p h = Some (q, h @ g)" "vdbAt (h @ g) p = Some (Some v)" "vdbAt (h @ g) q = Some (Some v)"
      "\<forall>h'. length (h @ g) \<le> length h' \<longrightarrow> (\<forall>a < length (h @ g). a \<notin> reach (h @ g) q \<longrightarrow> h' ! a = (h @ g) ! a) \<longrightarrow>
        vdbAt h' p = Some (Some v)"
    using copy_unreached [OF assms] by blast
  from c(2,3) have "memHasChanges (h @ g) p q = Some False" by (simp add: memHasChanges_def)
  with c(1,4) refine show ?thesis by blast
qed

text \<open>The cells that the copy of the example brings; writing its number of replicas is seen by the comparison.\<close>

definition vdbCopy :: mem where
  "vdbCopy =
     [CVdb (zeroVirtualDatabase\<lparr>go_Spec := zeroSpec\<lparr>go_Replicas := Some 7, go_Env := Some 8,
        go_Build := zeroBuild\<lparr>go_build_Source := zeroSource\<lparr>go_MavenRepositories := Some 11\<rparr>\<rparr>\<rparr>\<rparr>),
      CInt 2, CEnvs [zeroEnvVar\<lparr>go_ev_Name := ''USER'', go_ValueFrom := Some 9\<rparr>, zeroEnvVar\<lparr>go_ev_Name := ''MODE''\<rparr>],
      CEnvSource (zeroEnvVarSource\<lparr>go_SecretKeyRef := Some 10\<rparr>), CSel (zeroSel\<lparr>go_sel_Name := ''db'', go_sel_Key := ''user''\<rparr>),
      CMap [(''central'', ''https://repo'')]]"

theorem memHasChanges_refines_witness:
  "VirtualDatabase_DeepCopy (Some 5) vdbCells = Some (Some 6, vdbCells @ vdbCopy) \<and>
   memHasChanges (vdbCells @ vdbCopy) (Some 5) (Some 6) = Some False \<and>
   vdbAt ((vdbCells @ vdbCopy)[7 := CInt 3]) (Some 5) = vdbAt vdbCells (Some 5) \<and>
   memHasChanges ((vdbCells @ vdbCopy)[7 := CInt 3]) (Some 5) (Some 6) = Some True"
proof -
  let ?h = "(vdbCells @ vdbCopy)[7 := CInt 3]"
  have copy: "VirtualDatabase_DeepCopy (Some 5) vdbCells = Some (Some 6, vdbCells @ vdbCopy)" by code_simp
  have "case (vdbAt vdbCells (Some 5), vdbAt ?h (Some 6)) of
      (Some (Some v), Some (Some t)) \<Rightarrow> go_Spec t = (go_Spec v)\<lparr>go_Replicas := Some 3\<rparr> \<and> hasChanges (vdbOf v) (vdbOf t)
    | _ \<Rightarrow> False" by code_simp
  then obtain v t where v: "vdbAt vdbCells (Some 5) = Some (Some v)" "vdbAt ?h (Some 6) = Some (Some t)"
      "go_Spec t = (go_Spec v)\<lparr>go_Replicas := Some 3\<rparr>" "hasChanges (vdbOf v) (vdbOf t)"
    by (auto split: option.splits)
  have "7 \<in> reach (vdbCells @ vdbCopy) (Some 6)" by code_simp
  then have w: "\<forall>a < length (vdbCells @ vdbCopy). a \<notin> reach (vdbCells @ vdbCopy) (Some 6) \<longrightarrow> ?h ! a = (vdbCells @ vdbCopy) ! a"
    by (metis nth_list_update_neq)
  obtain q g where qg: "VirtualDatabase_DeepCopy (Some 5) vdbCells = Some (q, vdbCells @ g)"
      "memHasChanges (vdbCells @ g) (Some 5) q = Some False"
    and after: "length (vdbCells @ g) \<le> length h' \<longrightarrow>
        (\<forall>a < length (vdbCells @ g). a \<notin> reach (vdbCells @ g) q \<longrightarrow> h' ! a = (vdbCells @ g) ! a) \<longrightarrow>
        vdbAt h' q = Some (Some t) \<longrightarrow> go_Spec t = (go_Spec v)\<lparr>go_Replicas := n\<rparr> \<longrightarrow>
        vdbAt h' (Some 5) = Some (Some v) \<and> memHasChanges h' (Some 5) q = Some (hasChanges (vdbOf v) (vdbOf t))" for h' t n
    using memHasChanges_refines [OF v(1)] by blast
  have same: "q = Some 6" "g = vdbCopy" using qg(1) copy by simp_all
  have "vdbAt ?h (Some 5) = Some (Some v) \<and> memHasChanges ?h (Some 5) (Some 6) = Some (hasChanges (vdbOf v) (vdbOf t))"
    using after [of ?h t, unfolded same] w v(2,3) by (metis length_list_update order_refl)
  with copy qg(2) v(1,4) same show ?thesis by simp
qed

end
