(* ===== verification/Json.thy ===== *)
theory Json
  imports Types "HOL-Library.Monad_Syntax"
begin

text \<open>
  Virtual databases as JSON, the form in which the API server keeps them: the field names and \<open>omitempty\<close>
  options of the struct tags in \<open>apis/teiid/v1alpha1/virtualdatabase_types.go\<close>, with the encoder and the
  decoder of \<open>encoding/json\<close> as far as these structs use them. The locale \<open>json_codec\<close> is the contract
  of a pair of encoder and decoder.
\<close>

datatype json =
    JString string
  | JInt int
  | JBool bool
  | JArray "json list"
  | JObject "(string \<times> json) list"

section \<open>Structs and their fields\<close>

text \<open>A struct becomes an object of the fields that are not omitted.\<close>

definition jstruct :: "(string \<times> json option) list \<Rightarrow> json" where
  "jstruct fs = JObject (List.map_filter (\<lambda>(k, j). map_option (Pair k) j) fs)"

text \<open>\<open>omitempty\<close>: strings, numbers, slices, maps and pointers are left out when they are empty, zero or nil.\<close>

definition jstring :: "string \<Rightarrow> json option" where
  "jstring s = (if s = [] then None else Some (JString s))"

definition jint :: "int \<Rightarrow> json option" where
  "jint i = (if i = 0 then None else Some (JInt i))"

definition jlist :: "('a \<Rightarrow> json) \<Rightarrow> 'a list \<Rightarrow> json option" where
  "jlist enc xs = (if xs = [] then None else Some (JArray (map enc xs)))"

definition jmap :: "string gomap \<Rightarrow> json option" where
  "jmap m = (if m = [] then None else Some (JObject (map (\<lambda>(k, v). (k, JString v)) m)))"

text \<open>A field that is missing keeps the zero value; a field of another kind is an error.\<close>

fun unString :: "json \<Rightarrow> string option" where
  "unString (JString s) = Some s"
| "unString _ = None"

text \<open>A number that does not fit the width of its field is an error of \<open>UnmarshalTypeError\<close>.\<close>

definition in_width :: "nat \<Rightarrow> int \<Rightarrow> bool" where
  "in_width w i \<longleftrightarrow> - (2 ^ (w - 1)) \<le> i \<and> i < 2 ^ (w - 1)"

fun unInt :: "nat \<Rightarrow> json \<Rightarrow> int option" where
  "unInt w (JInt i) = (if in_width w i then Some i else None)"
| "unInt _ _ = None"

fun unBool :: "json \<Rightarrow> bool option" where
  "unBool (JBool b) = Some b"
| "unBool _ = None"

fun unList :: "(json \<Rightarrow> 'a option) \<Rightarrow> json \<Rightarrow> 'a list option" where
  "unList dec (JArray xs) = those (map dec xs)"
| "unList dec _ = None"

fun unMap :: "json \<Rightarrow> string gomap option" where
  "unMap (JObject fs) = those (map (\<lambda>(k, j). map_option (Pair k) (unString j)) fs)"
| "unMap _ = None"

fun jfield :: "json \<Rightarrow> string \<Rightarrow> 'a \<Rightarrow> (json \<Rightarrow> 'a option) \<Rightarrow> 'a option" where
  "jfield (JObject fs) k zero dec = (case map_of fs k of None \<Rightarrow> Some zero | Some j \<Rightarrow> dec j)"
| "jfield _ k zero dec = None"

section \<open>The contract\<close>

locale json_codec =
  fixes enc :: "'a \<Rightarrow> json" and dec :: "json \<Rightarrow> 'a option" and ok :: "'a \<Rightarrow> bool"
  assumes dec_enc: "ok x \<Longrightarrow> dec (enc x) = Some x"
begin

lemma list_codec: "list_all ok xs \<Longrightarrow> those (map dec (map enc xs)) = Some xs"
  by (induction xs) (simp_all add: dec_enc)

lemma list_field:
  "list_all ok xs \<Longrightarrow> (case jlist enc xs of None \<Rightarrow> Some [] | Some j \<Rightarrow> unList dec j) = Some xs"
  using list_codec [of xs] by (simp add: jlist_def comp_def)

lemma pointer_field:
  "pred_option ok x \<Longrightarrow> (case x of None \<Rightarrow> Some None | Some y \<Rightarrow> (map_option Some \<circ> dec \<circ> enc) y) = Some x"
  by (cases x) (simp_all add: dec_enc)

end

text \<open>A decoder that accepts only what its encoder can write.\<close>

locale json_reader = json_codec +
  assumes dec_ok: "dec j = Some x \<Longrightarrow> ok x"
begin

lemma list_ok: "unList dec j = Some xs \<Longrightarrow> list_all ok xs"
proof (cases j)
  case (JArray js)
  then show "unList dec j = Some xs \<Longrightarrow> list_all ok xs"
    by (induction js arbitrary: j xs) (auto dest: dec_ok split: option.splits)
qed simp_all

lemma field_ok: "jfield j k zero dec = Some x \<Longrightarrow> ok zero \<Longrightarrow> ok x"
  by (cases j) (auto dest: dec_ok split: option.splits)

lemma list_field_ok: "jfield j k [] (unList dec) = Some xs \<Longrightarrow> list_all ok xs"
  by (cases j) (auto dest: list_ok split: option.splits)

lemma pointer_field_ok: "jfield j k None (map_option Some \<circ> dec) = Some x \<Longrightarrow> pred_option ok x"
  by (cases j) (auto dest: dec_ok split: option.splits)

end

text \<open>Reading a field of a struct gives what was written, or nothing when it was left out.\<close>

lemma map_of_present:
  "distinct (map fst fs) \<Longrightarrow>
     map_of (List.map_filter (\<lambda>(k, j). map_option (Pair k) j) fs) k = (case map_of fs k of None \<Rightarrow> None | Some j \<Rightarrow> j)"
proof (induction fs arbitrary: k)
  case (Cons e fs)
  obtain k' j where e: "e = (k', j)" by fastforce
  from Cons.prems e have "map_of fs k' = None" by (simp add: map_of_eq_None_iff)
  with Cons.IH [of k'] Cons.prems
  have "map_of (List.map_filter (\<lambda>(k, j). map_option (Pair k) j) fs) k' = None" by simp
  with Cons e show ?case by (cases j) (auto simp: map_filter_simps)
qed (simp add: map_filter_simps)

lemma jfield_jstruct:
  "distinct (map fst fs) \<Longrightarrow>
     jfield (jstruct fs) k zero dec =
       (case map_of fs k of None \<Rightarrow> Some zero | Some None \<Rightarrow> Some zero | Some (Some x) \<Rightarrow> dec x)"
  by (simp add: jstruct_def map_of_present split: option.split)

lemma string_field: "(case jstring s of None \<Rightarrow> Some [] | Some j \<Rightarrow> unString j) = Some s"
  by (simp add: jstring_def)

lemma int_field: "in_width w i \<Longrightarrow> (case jint i of None \<Rightarrow> Some 0 | Some j \<Rightarrow> unInt w j) = Some i"
  by (simp add: jint_def)

lemma map_entries: "those (map (\<lambda>(k, j). map_option (Pair k) (unString j)) (map (\<lambda>(k, v). (k, JString v)) m)) = Some m"
  by (induction m) auto

lemma map_field: "(case jmap m of None \<Rightarrow> Some [] | Some j \<Rightarrow> unMap j) = Some m"
  using map_entries [of m] by (simp add: jmap_def comp_def)

interpretation json_string: json_codec JString unString "\<lambda>_. True"
  by unfold_locales simp

interpretation json_bool: json_codec JBool unBool "\<lambda>_. True"
  by unfold_locales simp

lemmas field_simps = jfield_jstruct string_field int_field map_field option.pred_True

section \<open>The types of the Kubernetes API\<close>

text \<open>A pointer is nil when the field is missing.\<close>

definition jpointer :: "json \<Rightarrow> string \<Rightarrow> (json \<Rightarrow> 'a option) \<Rightarrow> 'a option option" where
  "jpointer j k dec = jfield j k None (map_option Some \<circ> dec)"

definition KeySelector_json :: "KeySelector \<Rightarrow> json" where
  "KeySelector_json s = jstruct
     [(''name'', jstring (sel_Name s)), (''key'', Some (JString (sel_Key s))), (''optional'', map_option JBool (sel_Optional s))]"

definition KeySelector_of_json :: "json \<Rightarrow> KeySelector option" where
  "KeySelector_of_json j = do {
     n \<leftarrow> jfield j ''name'' [] unString;
     k \<leftarrow> jfield j ''key'' [] unString;
     b \<leftarrow> jpointer j ''optional'' unBool;
     Some \<lparr>sel_Name = n, sel_Key = k, sel_Optional = b\<rparr> }"

interpretation json_KeySelector: json_codec KeySelector_json KeySelector_of_json "\<lambda>_. True"
  by unfold_locales (simp add: KeySelector_json_def KeySelector_of_json_def jpointer_def field_simps json_bool.pointer_field)

definition FieldSelector_json :: "ObjectFieldSelector \<Rightarrow> json" where
  "FieldSelector_json s = jstruct [(''apiVersion'', jstring (fs_APIVersion s)), (''fieldPath'', Some (JString (FieldPath s)))]"

definition FieldSelector_of_json :: "json \<Rightarrow> ObjectFieldSelector option" where
  "FieldSelector_of_json j = do {
     a \<leftarrow> jfield j ''apiVersion'' [] unString;
     p \<leftarrow> jfield j ''fieldPath'' [] unString;
     Some \<lparr>fs_APIVersion = a, FieldPath = p\<rparr> }"

interpretation json_FieldSelector: json_codec FieldSelector_json FieldSelector_of_json "\<lambda>_. True"
  by unfold_locales (simp add: FieldSelector_json_def FieldSelector_of_json_def field_simps)

text \<open>A quantity is a struct, which \<open>omitempty\<close> does not leave out; the zero quantity is written 0.\<close>

definition ResourceSelector_json :: "ResourceFieldSelector \<Rightarrow> json" where
  "ResourceSelector_json s = jstruct
     [(''containerName'', jstring (ContainerName s)), (''resource'', Some (JString (Resource s))), (''divisor'', Some (JString (Divisor s)))]"

definition ResourceSelector_of_json :: "json \<Rightarrow> ResourceFieldSelector option" where
  "ResourceSelector_of_json j = do {
     c \<leftarrow> jfield j ''containerName'' [] unString;
     r \<leftarrow> jfield j ''resource'' [] unString;
     d \<leftarrow> jfield j ''divisor'' ''0'' unString;
     Some \<lparr>ContainerName = c, Resource = r, Divisor = d\<rparr> }"

interpretation json_ResourceSelector: json_codec ResourceSelector_json ResourceSelector_of_json "\<lambda>_. True"
  by unfold_locales (simp add: ResourceSelector_json_def ResourceSelector_of_json_def field_simps)

definition EnvVarSource_json :: "EnvVarSource \<Rightarrow> json" where
  "EnvVarSource_json s = jstruct
     [(''fieldRef'', map_option FieldSelector_json (FieldRef s)),
      (''resourceFieldRef'', map_option ResourceSelector_json (ResourceFieldRef s)),
      (''configMapKeyRef'', map_option KeySelector_json (ConfigMapKeyRef s)),
      (''secretKeyRef'', map_option KeySelector_json (SecretKeyRef s))]"

definition EnvVarSource_of_json :: "json \<Rightarrow> EnvVarSource option" where
  "EnvVarSource_of_json j = do {
     f \<leftarrow> jpointer j ''fieldRef'' FieldSelector_of_json;
     r \<leftarrow> jpointer j ''resourceFieldRef'' ResourceSelector_of_json;
     c \<leftarrow> jpointer j ''configMapKeyRef'' KeySelector_of_json;
     s \<leftarrow> jpointer j ''secretKeyRef'' KeySelector_of_json;
     Some \<lparr>FieldRef = f, ResourceFieldRef = r, ConfigMapKeyRef = c, SecretKeyRef = s\<rparr> }"

interpretation json_EnvVarSource: json_codec EnvVarSource_json EnvVarSource_of_json "\<lambda>_. True"
  by unfold_locales
    (simp add: EnvVarSource_json_def EnvVarSource_of_json_def jpointer_def field_simps
      json_FieldSelector.pointer_field json_ResourceSelector.pointer_field json_KeySelector.pointer_field)

definition EnvVar_json :: "EnvVar \<Rightarrow> json" where
  "EnvVar_json e = jstruct
     [(''name'', Some (JString (ev_Name e))),
      (''value'', jstring (ev_Value e)),
      (''valueFrom'', map_option EnvVarSource_json (ValueFrom e))]"

definition EnvVar_of_json :: "json \<Rightarrow> EnvVar option" where
  "EnvVar_of_json j = do {
     n \<leftarrow> jfield j ''name'' [] unString;
     v \<leftarrow> jfield j ''value'' [] unString;
     f \<leftarrow> jpointer j ''valueFrom'' EnvVarSource_of_json;
     Some \<lparr>ev_Name = n, ev_Value = v, ValueFrom = f\<rparr> }"

interpretation json_EnvVar: json_codec EnvVar_json EnvVar_of_json "\<lambda>_. True"
  by unfold_locales
    (simp add: EnvVar_json_def EnvVar_of_json_def jpointer_def field_simps json_EnvVarSource.pointer_field)

definition OwnerReference_json :: "OwnerReference \<Rightarrow> json" where
  "OwnerReference_json r = jstruct [(''name'', Some (JString (owner_Name r))), (''uid'', Some (JString (owner_UID r)))]"

definition OwnerReference_of_json :: "json \<Rightarrow> OwnerReference option" where
  "OwnerReference_of_json j = do {
     n \<leftarrow> jfield j ''name'' [] unString;
     u \<leftarrow> jfield j ''uid'' [] unString;
     Some \<lparr>owner_Name = n, owner_UID = u\<rparr> }"

interpretation json_OwnerReference: json_codec OwnerReference_json OwnerReference_of_json "\<lambda>_. True"
  by unfold_locales (simp add: OwnerReference_json_def OwnerReference_of_json_def field_simps)

definition ObjectMeta_json :: "ObjectMeta \<Rightarrow> json" where
  "ObjectMeta_json m = jstruct
     [(''name'', jstring (Name m)),
      (''namespace'', jstring (Namespace m)),
      (''uid'', jstring (UID m)),
      (''resourceVersion'', jstring (ResourceVersion m)),
      (''generation'', jint (Generation m)),
      (''labels'', jmap (Labels m)),
      (''annotations'', case Annotations m of None \<Rightarrow> None | Some a \<Rightarrow> jmap a),
      (''ownerReferences'', jlist OwnerReference_json (OwnerReferences m))]"

definition ObjectMeta_of_json :: "json \<Rightarrow> ObjectMeta option" where
  "ObjectMeta_of_json j = do {
     n \<leftarrow> jfield j ''name'' [] unString;
     s \<leftarrow> jfield j ''namespace'' [] unString;
     u \<leftarrow> jfield j ''uid'' [] unString;
     v \<leftarrow> jfield j ''resourceVersion'' [] unString;
     g \<leftarrow> jfield j ''generation'' 0 (unInt 64);
     l \<leftarrow> jfield j ''labels'' [] unMap;
     a \<leftarrow> jpointer j ''annotations'' unMap;
     r \<leftarrow> jfield j ''ownerReferences'' [] (unList OwnerReference_of_json);
     Some \<lparr>Name = n, Namespace = s, Labels = l, Annotations = a, ResourceVersion = v, UID = u,
       Generation = g, OwnerReferences = r\<rparr> }"

text \<open>An annotation map that is empty and not nil is omitted, and read back as nil.\<close>

definition ok_ObjectMeta :: "ObjectMeta \<Rightarrow> bool" where
  "ok_ObjectMeta m \<longleftrightarrow> in_width 64 (Generation m) \<and> Annotations m \<noteq> Some []"

lemma annotations_field:
  "a \<noteq> Some [] \<Longrightarrow>
     (case case a of None \<Rightarrow> None | Some m \<Rightarrow> jmap m of None \<Rightarrow> Some None | Some j \<Rightarrow> (map_option Some \<circ> unMap) j) = Some a"
  using map_entries by (auto simp: jmap_def comp_def split: option.split)

interpretation json_ObjectMeta: json_codec ObjectMeta_json ObjectMeta_of_json ok_ObjectMeta
  by unfold_locales
    (simp add: ObjectMeta_json_def ObjectMeta_of_json_def ok_ObjectMeta_def jpointer_def field_simps annotations_field
      json_OwnerReference.list_field)

definition ResourceRequirements_json :: "ResourceRequirements \<Rightarrow> json" where
  "ResourceRequirements_json r = jstruct [(''limits'', jmap (Limits r)), (''requests'', jmap (Requests r))]"

definition ResourceRequirements_of_json :: "json \<Rightarrow> ResourceRequirements option" where
  "ResourceRequirements_of_json j = do {
     l \<leftarrow> jfield j ''limits'' [] unMap;
     r \<leftarrow> jfield j ''requests'' [] unMap;
     Some \<lparr>Limits = l, Requests = r\<rparr> }"

interpretation json_ResourceRequirements: json_codec ResourceRequirements_json ResourceRequirements_of_json "\<lambda>_. True"
  by unfold_locales (simp add: ResourceRequirements_json_def ResourceRequirements_of_json_def field_simps)

section \<open>The types of the custom resource\<close>

definition DataSourceObject_json :: "DataSourceObject \<Rightarrow> json" where
  "DataSourceObject_json d = jstruct
     [(''name'', jstring (ds_Name d)),
      (''type'', jstring (ds_Type d)),
      (''properties'', jlist EnvVar_json (Properties d))]"

definition DataSourceObject_of_json :: "json \<Rightarrow> DataSourceObject option" where
  "DataSourceObject_of_json j = do {
     n \<leftarrow> jfield j ''name'' [] unString;
     t \<leftarrow> jfield j ''type'' [] unString;
     p \<leftarrow> jfield j ''properties'' [] (unList EnvVar_of_json);
     Some \<lparr>ds_Name = n, ds_Type = t, Properties = p\<rparr> }"

interpretation json_DataSourceObject: json_codec DataSourceObject_json DataSourceObject_of_json "\<lambda>_. True"
  by unfold_locales
    (simp add: DataSourceObject_json_def DataSourceObject_of_json_def field_simps json_EnvVar.list_field)

definition Source_json :: "Source \<Rightarrow> json" where
  "Source_json s = jstruct
     [(''version'', jstring (src_Version s)),
      (''ddl'', jstring (DDL s)),
      (''maven'', jstring (Maven s)),
      (''openapi'', jstring (OpenAPI s)),
      (''dependencies'', jlist JString (Dependencies s)),
      (''mavenRepositories'', jmap (MavenRepositories s))]"

definition Source_of_json :: "json \<Rightarrow> Source option" where
  "Source_of_json j = do {
     v \<leftarrow> jfield j ''version'' [] unString;
     d \<leftarrow> jfield j ''ddl'' [] unString;
     m \<leftarrow> jfield j ''maven'' [] unString;
     a \<leftarrow> jfield j ''openapi'' [] unString;
     ds \<leftarrow> jfield j ''dependencies'' [] (unList unString);
     rs \<leftarrow> jfield j ''mavenRepositories'' [] unMap;
     Some \<lparr>src_Version = v, DDL = d, Maven = m, OpenAPI = a, Dependencies = ds, MavenRepositories = rs\<rparr> }"

interpretation json_Source: json_codec Source_json Source_of_json "\<lambda>_. True"
  by unfold_locales (simp add: Source_json_def Source_of_json_def field_simps json_string.list_field)

definition ValueSource_json :: "ValueSource \<Rightarrow> json" where
  "ValueSource_json s = jstruct
     [(''configMapKeyRef'', map_option KeySelector_json (vs_ConfigMapKeyRef s)),
      (''secretKeyRef'', map_option KeySelector_json (vs_SecretKeyRef s))]"

definition ValueSource_of_json :: "json \<Rightarrow> ValueSource option" where
  "ValueSource_of_json j = do {
     c \<leftarrow> jpointer j ''configMapKeyRef'' KeySelector_of_json;
     s \<leftarrow> jpointer j ''secretKeyRef'' KeySelector_of_json;
     Some \<lparr>vs_ConfigMapKeyRef = c, vs_SecretKeyRef = s\<rparr> }"

interpretation json_ValueSource: json_codec ValueSource_json ValueSource_of_json "\<lambda>_. True"
  by unfold_locales
    (simp add: ValueSource_json_def ValueSource_of_json_def jpointer_def field_simps json_KeySelector.pointer_field)

definition Build_json :: "VirtualDatabaseBuildObject \<Rightarrow> json" where
  "Build_json b = jstruct
     [(''env'', jlist EnvVar_json (build_Env b)),
      (''source'', Some (Source_json (build_Source b)))]"

definition Build_of_json :: "json \<Rightarrow> VirtualDatabaseBuildObject option" where
  "Build_of_json j = do {
     e \<leftarrow> jfield j ''env'' [] (unList EnvVar_of_json);
     s \<leftarrow> jfield j ''source'' emptySource Source_of_json;
     Some \<lparr>build_Env = e, build_Source = s\<rparr> }"

interpretation json_Build: json_codec Build_json Build_of_json "\<lambda>_. True"
  by unfold_locales
    (simp add: Build_json_def Build_of_json_def field_simps json_EnvVar.list_field json_Source.dec_enc)

text \<open>The services to expose are strings; a string that is no constant is kept apart.\<close>

fun expose_string :: "ExposeType \<Rightarrow> string" where
  "expose_string LoadBalancer = ''LoadBalancer''"
| "expose_string NodePort = ''NodePort''"
| "expose_string ExposeType.Route = ''Route''"
| "expose_string ExposeVia3scale = ''ExposeVia3scale''"
| "expose_string (OtherExpose s) = s"

definition expose_of_string :: "string \<Rightarrow> ExposeType" where
  "expose_of_string s =
     (if s = ''LoadBalancer'' then LoadBalancer else if s = ''NodePort'' then NodePort
      else if s = ''Route'' then ExposeType.Route else if s = ''ExposeVia3scale'' then ExposeVia3scale
      else OtherExpose s)"

definition expose_json :: "ExposeType \<Rightarrow> json" where
  "expose_json = JString \<circ> expose_string"

definition expose_of_json :: "json \<Rightarrow> ExposeType option" where
  "expose_of_json = map_option expose_of_string \<circ> unString"

fun ok_expose :: "ExposeType \<Rightarrow> bool" where
  "ok_expose (OtherExpose s) \<longleftrightarrow> s \<notin> {''LoadBalancer'', ''NodePort'', ''Route'', ''ExposeVia3scale''}"
| "ok_expose _ \<longleftrightarrow> True"

interpretation json_expose: json_codec expose_json expose_of_json ok_expose
proof
  show "ok_expose x \<Longrightarrow> expose_of_json (expose_json x) = Some x" for x
    by (cases x) (simp_all add: expose_json_def expose_of_json_def expose_of_string_def)
qed

definition Spec_json :: "VirtualDatabaseSpec \<Rightarrow> json" where
  "Spec_json s = jstruct
     [(''replicas'', map_option JInt (Replicas s)),
      (''env'', jlist EnvVar_json (spec_Env s)),
      (''resources'', Some (ResourceRequirements_json (Resources s))),
      (''build'', Some (Build_json (Build s))),
      (''jaeger'', jstring (Jaeger s)),
      (''datasources'', jlist DataSourceObject_json (DataSources s)),
      (''expose'', jlist expose_json (Expose s))]"

definition Spec_of_json :: "json \<Rightarrow> VirtualDatabaseSpec option" where
  "Spec_of_json j = do {
     n \<leftarrow> jpointer j ''replicas'' (unInt 32);
     e \<leftarrow> jfield j ''env'' [] (unList EnvVar_of_json);
     r \<leftarrow> jfield j ''resources'' (Resources emptySpec) ResourceRequirements_of_json;
     b \<leftarrow> jfield j ''build'' (Build emptySpec) Build_of_json;
     t \<leftarrow> jfield j ''jaeger'' [] unString;
     d \<leftarrow> jfield j ''datasources'' [] (unList DataSourceObject_of_json);
     x \<leftarrow> jfield j ''expose'' [] (unList expose_of_json);
     Some \<lparr>Replicas = n, spec_Env = e, Resources = r, Build = b, Jaeger = t, DataSources = d, Expose = x\<rparr> }"

interpretation json_int: json_codec JInt "unInt w" "in_width w" for w
  by unfold_locales simp

definition ok_Spec :: "VirtualDatabaseSpec \<Rightarrow> bool" where
  "ok_Spec s \<longleftrightarrow> pred_option (in_width 32) (Replicas s) \<and> list_all ok_expose (Expose s)"

interpretation json_Spec: json_codec Spec_json Spec_of_json ok_Spec
  by unfold_locales
    (simp add: Spec_json_def Spec_of_json_def ok_Spec_def jpointer_def field_simps json_int.pointer_field
      json_EnvVar.list_field json_ResourceRequirements.dec_enc json_Build.dec_enc
      json_DataSourceObject.list_field json_expose.list_field)

definition phase_of_json :: "json \<Rightarrow> ReconcilerPhase option" where
  "phase_of_json = map_option phase_of_string \<circ> unString"

fun ok_phase :: "ReconcilerPhase \<Rightarrow> bool" where
  "ok_phase (PhaseOther s) \<longleftrightarrow> s \<notin> set (map phase_string phase_constants)"
| "ok_phase _ \<longleftrightarrow> True"

lemma phase_of_string_ok: "ok_phase p \<Longrightarrow> phase_of_string (phase_string p) = p"
proof (cases p)
  case (PhaseOther s)
  moreover assume "ok_phase p"
  ultimately have "\<forall>q\<in>set phase_constants. phase_string q \<noteq> s" by auto
  with PhaseOther show ?thesis by (auto simp: phase_of_string_def split: option.split dest: find_SomeD)
qed (rule phase_of_string_constant, simp add: phase_constants_def)+

lemma phase_string_Nil: "ok_phase p \<Longrightarrow> phase_string p = [] \<longleftrightarrow> p = ReconcilerPhaseInitial"
  by (cases p) (simp_all add: phase_constants_def)

lemma phase_field:
  "ok_phase p \<Longrightarrow>
     (case jstring (phase_string p) of None \<Rightarrow> Some ReconcilerPhaseInitial | Some j \<Rightarrow> phase_of_json j) = Some p"
  using phase_string_Nil [of p] phase_of_string_ok [of p] by (simp add: jstring_def phase_of_json_def)

definition Status_json :: "VirtualDatabaseStatus \<Rightarrow> json" where
  "Status_json s = jstruct
     [(''phase'', jstring (phase_string (Phase s))),
      (''digest'', jstring (Digest s)),
      (''configdigest'', jstring (ConfigDigest s)),
      (''failure'', jstring (Failure s)),
      (''route'', jstring (status_Route s)),
      (''version'', jstring (Version s)),
      (''cachestore'', jstring (CacheStore s))]"

definition Status_of_json :: "json \<Rightarrow> VirtualDatabaseStatus option" where
  "Status_of_json j = do {
     p \<leftarrow> jfield j ''phase'' ReconcilerPhaseInitial phase_of_json;
     d \<leftarrow> jfield j ''digest'' [] unString;
     c \<leftarrow> jfield j ''configdigest'' [] unString;
     f \<leftarrow> jfield j ''failure'' [] unString;
     r \<leftarrow> jfield j ''route'' [] unString;
     v \<leftarrow> jfield j ''version'' [] unString;
     s \<leftarrow> jfield j ''cachestore'' [] unString;
     Some \<lparr>Phase = p, Digest = d, ConfigDigest = c, Failure = f, status_Route = r, Version = v, CacheStore = s\<rparr> }"

definition ok_Status :: "VirtualDatabaseStatus \<Rightarrow> bool" where
  "ok_Status s \<longleftrightarrow> ok_phase (Phase s)"

interpretation json_Status: json_codec Status_json Status_of_json ok_Status
  by unfold_locales
    (simp add: Status_json_def Status_of_json_def ok_Status_def field_simps phase_field)

text \<open>
  The resource itself. Its kind and the version of its group come from \<open>VirtualDatabaseKind\<close> and from
  \<open>SchemeGroupVersion\<close> in \<open>register.go\<close>; reading the struct does not check them.
\<close>

definition VirtualDatabaseKind :: string where
  "VirtualDatabaseKind = ''VirtualDatabase''"

definition SchemeGroupVersion :: "string \<times> string" where
  "SchemeGroupVersion = (''teiid.io'', ''v1alpha1'')"

definition apiVersion :: string where
  "apiVersion = fst SchemeGroupVersion @ ''/'' @ snd SchemeGroupVersion"

definition VirtualDatabase_json :: "VirtualDatabase \<Rightarrow> json" where
  "VirtualDatabase_json v = jstruct
     [(''kind'', jstring VirtualDatabaseKind),
      (''apiVersion'', jstring apiVersion),
      (''metadata'', Some (ObjectMeta_json (vdb_Meta v))),
      (''spec'', Some (Spec_json (Spec v))),
      (''status'', Some (Status_json (Status v)))]"

definition VirtualDatabase_of_json :: "json \<Rightarrow> VirtualDatabase option" where
  "VirtualDatabase_of_json j = do {
     m \<leftarrow> jfield j ''metadata'' (vdb_Meta emptyVdb) ObjectMeta_of_json;
     s \<leftarrow> jfield j ''spec'' emptySpec Spec_of_json;
     t \<leftarrow> jfield j ''status'' emptyStatus Status_of_json;
     Some \<lparr>vdb_Meta = m, Spec = s, Status = t\<rparr> }"

definition ok_VirtualDatabase :: "VirtualDatabase \<Rightarrow> bool" where
  "ok_VirtualDatabase v \<longleftrightarrow> ok_ObjectMeta (vdb_Meta v) \<and> ok_Spec (Spec v) \<and> ok_Status (Status v)"

interpretation json_VirtualDatabase: json_codec VirtualDatabase_json VirtualDatabase_of_json ok_VirtualDatabase
  by unfold_locales
    (simp add: VirtualDatabase_json_def VirtualDatabase_of_json_def ok_VirtualDatabase_def field_simps
      json_ObjectMeta.dec_enc json_Spec.dec_enc json_Status.dec_enc)

section \<open>What is read can be written\<close>

interpretation json_int: json_reader JInt "unInt w" "in_width w" for w
proof
  show "unInt w j = Some x \<Longrightarrow> in_width w x" for j x
    by (cases j) (auto split: if_splits)
qed

interpretation json_expose: json_reader expose_json expose_of_json ok_expose
  by unfold_locales (auto simp: expose_of_json_def expose_of_string_def)

lemma ok_phase_of_string: "ok_phase (phase_of_string s)"
proof (cases "find (\<lambda>p. phase_string p = s) phase_constants")
  case None
  then have "s \<notin> set (map phase_string phase_constants)" by (auto simp: find_None_iff)
  with None show ?thesis by (simp add: phase_of_string_def)
next
  case (Some p)
  then have "p \<in> set phase_constants" by (auto dest: find_SomeD)
  with Some show ?thesis by (auto simp: phase_of_string_def phase_constants_def)
qed

interpretation json_Spec: json_reader Spec_json Spec_of_json ok_Spec
  by unfold_locales
    (auto simp: Spec_of_json_def jpointer_def ok_Spec_def bind_eq_Some_conv
      dest: json_int.pointer_field_ok json_expose.list_field_ok)

interpretation json_phase: json_reader "JString \<circ> phase_string" phase_of_json ok_phase
  by unfold_locales (auto simp: phase_of_json_def phase_of_string_ok ok_phase_of_string)

interpretation json_Status: json_reader Status_json Status_of_json ok_Status
  by unfold_locales
    (auto simp: Status_of_json_def ok_Status_def bind_eq_Some_conv intro: json_phase.field_ok)

lemma decoded_Generation: "ObjectMeta_of_json j = Some m \<Longrightarrow> in_width 64 (Generation m)"
  using json_int.field_ok [of j "''generation''" 0 64]
  by (auto simp: ObjectMeta_of_json_def bind_eq_Some_conv in_width_def)

lemma ok_zero: "in_width 64 (Generation (vdb_Meta emptyVdb))" "ok_Spec emptySpec" "ok_Status emptyStatus"
  by (simp_all add: emptyVdb_def objectMeta_def in_width_def ok_Spec_def emptySpec_def ok_Status_def emptyStatus_def)

lemma decoded_ok:
  assumes "VirtualDatabase_of_json j = Some v" and "Annotations (vdb_Meta v) \<noteq> Some []"
  shows "ok_VirtualDatabase v"
proof -
  from assms(1) obtain m s t where
    m: "jfield j ''metadata'' (vdb_Meta emptyVdb) ObjectMeta_of_json = Some m" and
    s: "jfield j ''spec'' emptySpec Spec_of_json = Some s" and
    t: "jfield j ''status'' emptyStatus Status_of_json = Some t" and
    v: "v = \<lparr>vdb_Meta = m, Spec = s, Status = t\<rparr>"
    by (auto simp: VirtualDatabase_of_json_def bind_eq_Some_conv)
  from m have "in_width 64 (Generation m)"
    using ok_zero(1) by (cases j) (auto dest: decoded_Generation split: option.splits)
  with assms(2) v show ?thesis
    using json_Spec.field_ok [OF s ok_zero(2)] json_Status.field_ok [OF t ok_zero(3)]
    by (simp add: ok_VirtualDatabase_def ok_ObjectMeta_def)
qed

text \<open>
  C35: a virtual database that was read from the API server is written back without loss: whatever the
  document \<open>j\<close> was from which it was read, reading the document written for it gives the same virtual
  database again. Every field has a tag of its own, an omitted field stands for the zero value of its
  type, a phase or a service that is no constant is kept as it was, and the numbers stay in their width.
  The one value that is lost is an annotation map that is present and empty, which comes back as nil.
\<close>

theorem VirtualDatabase_read_write:
  assumes "VirtualDatabase_of_json j = Some v"
    and "Annotations (vdb_Meta v) \<noteq> Some []"
  shows "VirtualDatabase_of_json (VirtualDatabase_json v) = Some v"
  using decoded_ok [OF assms] by (rule json_VirtualDatabase.dec_enc)

definition exampleDocument :: json where
  "exampleDocument = JObject
     [(''kind'', JString ''VirtualDatabase''),
      (''metadata'', JObject [(''name'', JString ''vdb''), (''generation'', JInt 3)]),
      (''spec'', JObject
        [(''replicas'', JInt 2),
         (''expose'', JArray [JString ''Route'', JString ''Ingress'']),
         (''build'', JObject [(''source'', JObject [(''ddl'', JString ''create database vdb'')])])]),
      (''status'', JObject [(''phase'', JString ''Running'')])]"

definition exampleVdb :: VirtualDatabase where
  "exampleVdb = emptyVdb
     \<lparr>vdb_Meta := (objectMeta ''vdb'' [])\<lparr>Generation := 3\<rparr>,
      Spec := emptySpec
        \<lparr>Replicas := Some 2, Expose := [ExposeType.Route, OtherExpose ''Ingress''],
         Build := \<lparr>build_Env = [], build_Source = emptySource\<lparr>DDL := ''create database vdb''\<rparr>\<rparr>\<rparr>,
      Status := emptyStatus\<lparr>Phase := ReconcilerPhaseRunning\<rparr>\<rparr>"

lemma VirtualDatabase_read_write_witness:
  "VirtualDatabase_of_json exampleDocument = Some exampleVdb \<and>
   VirtualDatabase_of_json (VirtualDatabase_json exampleVdb) = Some exampleVdb"
proof -
  have 1: "VirtualDatabase_of_json exampleDocument = Some exampleVdb" by code_simp
  have 2: "Annotations (vdb_Meta exampleVdb) \<noteq> Some []" by code_simp
  from 1 VirtualDatabase_read_write [OF 1 2] show ?thesis by simp
qed

end
