(* ===== verification/Open_Api.thy ===== *)
theory Open_Api
  imports Json
begin

text \<open>
  The OpenAPI definitions of the custom resource, \<open>apis/teiid/v1alpha1/zz_generated.openapi.go\<close>: the schema
  of each struct, which names the JSON fields, their types and the schemas they refer to. \<open>conforms\<close> reads a
  schema as a predicate on documents that knows no field beside those the schema lists, since the API server
  prunes the others. The documents of \<open>Json\<close> conform, so nothing of a virtual database is pruned.
\<close>

section \<open>Schemas\<close>

datatype Schema = Schema
  (Description: string) (SchemaType: "string list") (Format: string) (Ref: "string option")
  (SchemaProps: "(string \<times> Schema) list") (Items: "Schema option") (AdditionalProperties: "Schema option")
  (Required: "string list")

record OpenAPIDefinition =
  oa_Schema :: Schema
  oa_Dependencies :: "string list"

text \<open>The composite literals of the file, by what they set.\<close>

fun described :: "string \<Rightarrow> Schema \<Rightarrow> Schema" where
  "described d (Schema _ t f r ps i a q) = Schema d t f r ps i a q"

definition plain :: "string \<Rightarrow> Schema" where
  "plain t = Schema [] [t] [] None [] None None []"

fun withFormat :: "string \<Rightarrow> Schema \<Rightarrow> Schema" where
  "withFormat f (Schema d t _ r ps i a q) = Schema d t f r ps i a q"

definition refTo :: "string \<Rightarrow> Schema" where
  "refTo r = Schema [] [] [] (Some r) [] None None []"

definition arrayOf :: "Schema \<Rightarrow> Schema" where
  "arrayOf s = Schema [] [''array''] [] None [] (Some s) None []"

definition mapOf :: "Schema \<Rightarrow> Schema" where
  "mapOf s = Schema [] [''object''] [] None [] None (Some s) []"

definition objectOf :: "(string \<times> Schema) list \<Rightarrow> string list \<Rightarrow> Schema" where
  "objectOf ps required = Schema [] [''object''] [] None ps None None required"

section \<open>The definitions\<close>

text \<open>\<open>ref\<close> is the callback that turns the name of a definition into a reference.\<close>

definition schema_DataSourceObject :: "(string \<Rightarrow> string) \<Rightarrow> OpenAPIDefinition" where
  "schema_DataSourceObject ref =
     \<lparr>oa_Schema = described ''DataSourceObject - define the datasources that this Virtual Database integrates''
        (objectOf
          [(''name'', described ''Name of the Data Source'' (plain ''string'')),
           (''type'', described ''Type of Data Source. ex: Oracle, PostgreSQL, MySQL, Salesforce etc.'' (plain ''string'')),
           (''properties'', described ''Properties required for Data Source connection'' (arrayOf (refTo (ref ''k8s.io/api/core/v1.EnvVar''))))]
          []),
      oa_Dependencies = [''k8s.io/api/core/v1.EnvVar'']\<rparr>"

definition schema_Source :: "(string \<Rightarrow> string) \<Rightarrow> OpenAPIDefinition" where
  "schema_Source ref =
     \<lparr>oa_Schema = described ''Source VDB coordinates to locate the source code to build''
        (objectOf
          [(''version'', described (''Deployed vdb version. For embedded DDL version this will be implicitly provided '' @
              ''when ignored, for maven based vdb the maven version is always'') (plain ''string'')),
           (''ddl'', described ''DDL based VDB'' (plain ''string'')),
           (''maven'', described ''A VDB defined in GAV format'' (plain ''string'')),
           (''openapi'', described ''Open API contract that is exposed by the VDB'' (plain ''string'')),
           (''dependencies'', described ''List of maven dependencies for the build in GAV format'' (arrayOf (plain ''string''))),
           (''mavenRepositories'', described ''Custom maven repositories that need to be used for the S2I build'' (mapOf (plain ''string'')))]
          []),
      oa_Dependencies = []\<rparr>"

definition schema_ValueSource :: "(string \<Rightarrow> string) \<Rightarrow> OpenAPIDefinition" where
  "schema_ValueSource ref =
     \<lparr>oa_Schema = described ''ValueSource --''
        (objectOf
          [(''configMapKeyRef'', described ''Selects a key of a ConfigMap.'' (refTo (ref ''k8s.io/api/core/v1.ConfigMapKeySelector''))),
           (''secretKeyRef'', described ''Selects a key of a secret.'' (refTo (ref ''k8s.io/api/core/v1.SecretKeySelector'')))]
          []),
      oa_Dependencies =
        [''k8s.io/api/core/v1.ConfigMapKeySelector'',
         ''k8s.io/api/core/v1.SecretKeySelector'']\<rparr>"

definition schema_VirtualDatabase :: "(string \<Rightarrow> string) \<Rightarrow> OpenAPIDefinition" where
  "schema_VirtualDatabase ref =
     \<lparr>oa_Schema = described ''VirtualDatabase is the Schema for the virtualdatabases API''
        (objectOf
          [(''kind'', described (''Kind is a string value representing the REST resource this object represents. '' @
              ''Servers may infer this from the endpoint the client submits requests to. Cannot '' @
              ''be updated. In CamelCase. More info: '' @
              ''https://git.k8s.io/community/contributors/devel/sig-architecture/api-conventions.md#types-kinds'') (plain ''string'')),
           (''apiVersion'', described (''APIVersion defines the versioned schema of this representation of an object. '' @
              ''Servers should convert recognized schemas to the latest internal value, and may '' @
              ''reject unrecognized values. More info: '' @
              ''https://git.k8s.io/community/contributors/devel/sig-architecture/api-conventions.md#resources'') (plain ''string'')),
           (''metadata'', refTo (ref ''k8s.io/apimachinery/pkg/apis/meta/v1.ObjectMeta'')),
           (''spec'', described ''Virtual Database specification'' (refTo (ref ''./pkg/apis/teiid/v1alpha1.VirtualDatabaseSpec''))),
           (''status'', described ''Virtual Database Status'' (refTo (ref ''./pkg/apis/teiid/v1alpha1.VirtualDatabaseStatus'')))]
          []),
      oa_Dependencies =
        [''./pkg/apis/teiid/v1alpha1.VirtualDatabaseSpec'',
         ''./pkg/apis/teiid/v1alpha1.VirtualDatabaseStatus'',
         ''k8s.io/apimachinery/pkg/apis/meta/v1.ObjectMeta'']\<rparr>"

definition schema_VirtualDatabaseBuildObject :: "(string \<Rightarrow> string) \<Rightarrow> OpenAPIDefinition" where
  "schema_VirtualDatabaseBuildObject ref =
     \<lparr>oa_Schema = described ''VirtualDatabaseBuildObject Data to define how to build an application from source''
        (objectOf
          [(''env'', described ''Environment properties set build purpose'' (arrayOf (refTo (ref ''k8s.io/api/core/v1.EnvVar'')))),
           (''source'', described ''VDB Source details'' (refTo (ref ''./pkg/apis/teiid/v1alpha1.Source'')))]
          []),
      oa_Dependencies =
        [''./pkg/apis/teiid/v1alpha1.Source'',
         ''k8s.io/api/core/v1.EnvVar'']\<rparr>"

definition schema_VirtualDatabaseSpec :: "(string \<Rightarrow> string) \<Rightarrow> OpenAPIDefinition" where
  "schema_VirtualDatabaseSpec ref =
     \<lparr>oa_Schema = described ''VirtualDatabaseSpec defines the desired state of VirtualDatabase''
        (objectOf
          [(''replicas'', described ''Number Of deployment units required'' (withFormat ''int32'' (plain ''integer''))),
           (''env'', described ''Environment properties required for deployment'' (arrayOf (refTo (ref ''k8s.io/api/core/v1.EnvVar'')))),
           (''resources'', described ''memory, disk cpu requirements'' (refTo (ref ''k8s.io/api/core/v1.ResourceRequirements''))),
           (''build'', described ''S2I Build configuration'' (refTo (ref ''./pkg/apis/teiid/v1alpha1.VirtualDatabaseBuildObject''))),
           (''jaeger'', described ''Jaeger instance to use to push the tracing information'' (plain ''string'')),
           (''datasources'', described ''DataSources configuration for this Virtual Database'' (arrayOf (refTo (ref ''./pkg/apis/teiid/v1alpha1.DataSourceObject'')))),
           (''expose'', described ''Defines the services (LoadBalancer, NodePort, 3scale) to expose'' (arrayOf (plain ''string'')))]
          [''build'']),
      oa_Dependencies =
        [''./pkg/apis/teiid/v1alpha1.DataSourceObject'',
         ''./pkg/apis/teiid/v1alpha1.VirtualDatabaseBuildObject'',
         ''k8s.io/api/core/v1.EnvVar'',
         ''k8s.io/api/core/v1.ResourceRequirements'']\<rparr>"

definition schema_VirtualDatabaseStatus :: "(string \<Rightarrow> string) \<Rightarrow> OpenAPIDefinition" where
  "schema_VirtualDatabaseStatus ref =
     \<lparr>oa_Schema = described ''VirtualDatabaseStatus defines the observed state of VirtualDatabase''
        (objectOf
          [(''phase'', described ''The current phase of the build the operator deployment is running'' (plain ''string'')),
           (''digest'', described ''Digest value of the vdb'' (plain ''string'')),
           (''configdigest'', described ''ConfigDigest value of the vdb'' (plain ''string'')),
           (''failure'', described ''Failure message if deployment ended in failure'' (plain ''string'')),
           (''route'', described ''Route information that is exposed for clients'' (plain ''string'')),
           (''version'', described ''Deployed vdb version.'' (plain ''string'')),
           (''cachestore'', described ''Deployed vdb version.'' (plain ''string''))]
          []),
      oa_Dependencies = []\<rparr>"

definition GetOpenAPIDefinitions :: "(string \<Rightarrow> string) \<Rightarrow> (string \<times> OpenAPIDefinition) list" where
  "GetOpenAPIDefinitions ref =
     [(''./pkg/apis/teiid/v1alpha1.DataSourceObject'', schema_DataSourceObject ref),
      (''./pkg/apis/teiid/v1alpha1.Source'', schema_Source ref),
      (''./pkg/apis/teiid/v1alpha1.ValueSource'', schema_ValueSource ref),
      (''./pkg/apis/teiid/v1alpha1.VirtualDatabase'', schema_VirtualDatabase ref),
      (''./pkg/apis/teiid/v1alpha1.VirtualDatabaseBuildObject'', schema_VirtualDatabaseBuildObject ref),
      (''./pkg/apis/teiid/v1alpha1.VirtualDatabaseSpec'', schema_VirtualDatabaseSpec ref),
      (''./pkg/apis/teiid/v1alpha1.VirtualDatabaseStatus'', schema_VirtualDatabaseStatus ref)]"

section \<open>Conformity\<close>

text \<open>
  A reference is looked up among the definitions of the file; the schemas of the Kubernetes types are not in
  the file and are a parameter \<open>ext\<close>. Following references uses up fuel.
\<close>

definition resolve :: "(string \<Rightarrow> string) \<Rightarrow> string \<Rightarrow> Schema option" where
  "resolve ref r = map_option (oa_Schema \<circ> snd) (find (\<lambda>(n, _). ref n = r) (GetOpenAPIDefinitions ref))"

fun type_ok :: "string list \<Rightarrow> string \<Rightarrow> json \<Rightarrow> bool" where
  "type_ok t f (JString _) \<longleftrightarrow> t = [''string'']"
| "type_ok t f (JInt i) \<longleftrightarrow> t = [''integer''] \<and> (f = ''int32'' \<longrightarrow> in_width 32 i)"
| "type_ok t f (JBool _) \<longleftrightarrow> t = [''boolean'']"
| "type_ok t f (JArray _) \<longleftrightarrow> t = [''array'']"
| "type_ok t f (JObject _) \<longleftrightarrow> t = [''object'']"

fun conforms :: "(string \<Rightarrow> json \<Rightarrow> bool) \<Rightarrow> (string \<Rightarrow> Schema option) \<Rightarrow> nat \<Rightarrow> Schema \<Rightarrow> json \<Rightarrow> bool" where
  "conforms ext defs 0 s j \<longleftrightarrow> False"
| "conforms ext defs (Suc n) s j \<longleftrightarrow>
     (case Ref s of
        Some r \<Rightarrow> (case defs r of Some s' \<Rightarrow> conforms ext defs n s' j | None \<Rightarrow> ext r j)
      | None \<Rightarrow> type_ok (SchemaType s) (Format s) j \<and>
          (case j of
             JArray js \<Rightarrow> (case Items s of None \<Rightarrow> True | Some i \<Rightarrow> list_all (conforms ext defs n i) js)
           | JObject fs \<Rightarrow> set (Required s) \<subseteq> set (map fst fs) \<and>
               list_all (\<lambda>(k, x). case map_of (SchemaProps s) k of
                   Some p \<Rightarrow> conforms ext defs n p x
                 | None \<Rightarrow> (case AdditionalProperties s of None \<Rightarrow> False | Some a \<Rightarrow> conforms ext defs n a x)) fs
           | _ \<Rightarrow> True))"

section \<open>The documents of virtual databases conform\<close>

text \<open>The fields of a struct, each of which is left out or conforms to its schema.\<close>

definition fits :: "(json \<Rightarrow> bool) \<Rightarrow> json option \<Rightarrow> bool" where
  "fits p = pred_option p"

lemma fits_simps [simp]: "fits p None" "fits p (Some j) \<longleftrightarrow> p j"
  by (simp_all add: fits_def)

lemma list_all_present:
  "list_all (\<lambda>(k, x). P k x) (List.map_filter (\<lambda>(k, j). map_option (Pair k) j) fs) \<longleftrightarrow>
     list_all (\<lambda>(k, j). fits (P k) j) fs"
proof (induction fs)
  case (Cons e fs)
  then show ?case by (cases e; cases "snd e") (simp_all add: map_filter_simps)
qed (simp add: map_filter_simps)

lemma keys_present: "fst ` set (List.map_filter (\<lambda>(k, j). map_option (Pair k) j) fs) = {k. \<exists>x. (k, Some x) \<in> set fs}"
  by (force simp: List.map_filter_def image_iff split: option.splits)

lemma conforms_struct:
  "conforms ext defs (Suc n) (objectOf ps req) (jstruct fs) \<longleftrightarrow>
     (\<forall>k\<in>set req. \<exists>x. (k, Some x) \<in> set fs) \<and>
     list_all (\<lambda>(k, j). fits (\<lambda>x. case map_of ps k of Some p \<Rightarrow> conforms ext defs n p x | None \<Rightarrow> False) j) fs"
  by (simp add: objectOf_def jstruct_def list_all_present keys_present subset_eq cong: option.case_cong)

lemma conforms_described [simp]: "conforms ext defs n (described d s) j \<longleftrightarrow> conforms ext defs n s j"
  by (cases n; cases s) (simp_all cong: json.case_cong option.case_cong)

lemma conforms_plain [simp]: "conforms ext defs (Suc n) (plain t) (JString s) \<longleftrightarrow> t = ''string''"
  by (simp add: plain_def)

lemma conforms_int32 [simp]: "conforms ext defs (Suc n) (withFormat ''int32'' (plain ''integer'')) (JInt i) \<longleftrightarrow> in_width 32 i"
  by (simp add: plain_def)

lemma conforms_array [simp]: "conforms ext defs (Suc n) (arrayOf s) (JArray js) \<longleftrightarrow> list_all (conforms ext defs n s) js"
  by (simp add: arrayOf_def)

lemma conforms_map [simp]:
  "conforms ext defs (Suc n) (mapOf s) (JObject fs) \<longleftrightarrow> list_all (\<lambda>(k, x). conforms ext defs n s x) fs"
  by (simp add: mapOf_def)

lemma conforms_ref:
  "conforms ext defs (Suc n) (refTo r) j \<longleftrightarrow>
     (case defs r of Some s' \<Rightarrow> conforms ext defs n s' j | None \<Rightarrow> ext r j)"
  by (simp add: refTo_def)

declare conforms.simps(2) [simp del]

lemma fits_string [simp]: "fits (conforms ext defs (Suc n) (plain ''string'')) (jstring s)"
  by (simp add: jstring_def)

lemma fits_list [simp]:
  "(\<And>x. x \<in> set xs \<Longrightarrow> conforms ext defs n s (enc x)) \<Longrightarrow> fits (conforms ext defs (Suc n) (arrayOf s)) (jlist enc xs)"
  by (auto simp: jlist_def list_all_iff)

lemma fits_map [simp]: "fits (conforms ext defs (Suc (Suc n)) (mapOf (plain ''string''))) (jmap m)"
  by (auto simp: jmap_def list_all_iff)

text \<open>What the schemas of Kubernetes accept: the documents of the types they describe.\<close>

definition kubernetes_schemas :: "(string \<Rightarrow> string) \<Rightarrow> (string \<Rightarrow> json \<Rightarrow> bool) \<Rightarrow> bool" where
  "kubernetes_schemas ref ext \<longleftrightarrow>
     (\<forall>e. ext (ref ''k8s.io/api/core/v1.EnvVar'') (EnvVar_json e)) \<and>
     (\<forall>r. ext (ref ''k8s.io/api/core/v1.ResourceRequirements'') (ResourceRequirements_json r)) \<and>
     (\<forall>m. ext (ref ''k8s.io/apimachinery/pkg/apis/meta/v1.ObjectMeta'') (ObjectMeta_json m))"

lemma resolve_own:
  assumes "inj ref"
  shows
    "resolve ref (ref ''./pkg/apis/teiid/v1alpha1.DataSourceObject'') = Some (oa_Schema (schema_DataSourceObject ref))"
    "resolve ref (ref ''./pkg/apis/teiid/v1alpha1.Source'') = Some (oa_Schema (schema_Source ref))"
    "resolve ref (ref ''./pkg/apis/teiid/v1alpha1.VirtualDatabaseBuildObject'') = Some (oa_Schema (schema_VirtualDatabaseBuildObject ref))"
    "resolve ref (ref ''./pkg/apis/teiid/v1alpha1.VirtualDatabaseSpec'') = Some (oa_Schema (schema_VirtualDatabaseSpec ref))"
    "resolve ref (ref ''./pkg/apis/teiid/v1alpha1.VirtualDatabaseStatus'') = Some (oa_Schema (schema_VirtualDatabaseStatus ref))"
    "resolve ref (ref ''./pkg/apis/teiid/v1alpha1.VirtualDatabase'') = Some (oa_Schema (schema_VirtualDatabase ref))"
  using assms by (simp_all add: resolve_def GetOpenAPIDefinitions_def inj_eq)

lemma resolve_external:
  assumes "inj ref"
  shows "resolve ref (ref ''k8s.io/api/core/v1.EnvVar'') = None"
    "resolve ref (ref ''k8s.io/api/core/v1.ResourceRequirements'') = None"
    "resolve ref (ref ''k8s.io/apimachinery/pkg/apis/meta/v1.ObjectMeta'') = None"
  using assms by (simp_all add: resolve_def GetOpenAPIDefinitions_def inj_eq)

lemmas schema_simps = conforms_struct conforms_ref resolve_own resolve_external

lemma EnvVar_conforms:
  assumes "inj ref" and "kubernetes_schemas ref ext"
  shows "conforms ext (resolve ref) (Suc n) (refTo (ref ''k8s.io/api/core/v1.EnvVar'')) (EnvVar_json e)"
  using assms by (simp add: schema_simps kubernetes_schemas_def)

lemma DataSourceObject_conforms:
  assumes "inj ref" and "kubernetes_schemas ref ext"
  shows "conforms ext (resolve ref) (n + 3) (oa_Schema (schema_DataSourceObject ref)) (DataSourceObject_json d)"
  using EnvVar_conforms [OF assms]
  by (simp add: schema_DataSourceObject_def DataSourceObject_json_def conforms_struct numeral_3_eq_3)

lemma Source_conforms: "conforms ext defs (n + 3) (oa_Schema (schema_Source ref)) (Source_json s)"
  by (simp add: schema_Source_def Source_json_def conforms_struct numeral_3_eq_3)

lemma Build_conforms:
  assumes "inj ref" and "kubernetes_schemas ref ext"
  shows "conforms ext (resolve ref) (n + 5) (oa_Schema (schema_VirtualDatabaseBuildObject ref)) (Build_json b)"
  using EnvVar_conforms [OF assms] Source_conforms [of ext "resolve ref" n] assms(1)
  by (simp add: schema_VirtualDatabaseBuildObject_def Build_json_def schema_simps eval_nat_numeral)

lemma replicas_fits:
  "fits (conforms ext defs (Suc m) (withFormat ''int32'' (plain ''integer''))) (map_option JInt x) \<longleftrightarrow> pred_option (in_width 32) x"
  by (cases x) simp_all

lemma Spec_conforms:
  assumes "inj ref" and "kubernetes_schemas ref ext"
  shows "conforms ext (resolve ref) (n + 7) (oa_Schema (schema_VirtualDatabaseSpec ref)) (Spec_json s) \<longleftrightarrow>
           pred_option (in_width 32) (Replicas s)"
proof -
  have "ext (ref ''k8s.io/api/core/v1.ResourceRequirements'') (ResourceRequirements_json (Resources s))"
    using assms(2) by (simp add: kubernetes_schemas_def)
  then show ?thesis
    using EnvVar_conforms [OF assms] Build_conforms [OF assms, of n] DataSourceObject_conforms [OF assms, of "Suc n"] assms(1)
    by (simp add: schema_VirtualDatabaseSpec_def Spec_json_def schema_simps eval_nat_numeral expose_json_def
      replicas_fits)
qed

lemma Status_conforms: "conforms ext defs (n + 2) (oa_Schema (schema_VirtualDatabaseStatus ref)) (Status_json s)"
  by (simp add: schema_VirtualDatabaseStatus_def Status_json_def conforms_struct numeral_2_eq_2)

text \<open>
  C36: the document of a virtual database conforms to the OpenAPI definition of \<open>VirtualDatabase\<close>, with the
  references followed through the definitions of \<open>GetOpenAPIDefinitions\<close>, exactly when its number of replicas
  is a 32-bit integer, as Go's \<open>*int32\<close> always is. Every field that is written is listed in the schema of its
  struct with the type it is written in, and the field \<open>build\<close>, which is required, is always written. So the
  schema describes the struct: the API server neither refuses nor prunes any part of what the operator writes.
\<close>

theorem VirtualDatabase_conforms:
  assumes "inj ref" and "kubernetes_schemas ref ext"
  shows "conforms ext (resolve ref) (n + 10) (oa_Schema (schema_VirtualDatabase ref)) (VirtualDatabase_json v) \<longleftrightarrow>
           pred_option (in_width 32) (Replicas (Spec v))"
proof -
  have "ext (ref ''k8s.io/apimachinery/pkg/apis/meta/v1.ObjectMeta'') (ObjectMeta_json (vdb_Meta v))"
    using assms(2) by (simp add: kubernetes_schemas_def)
  then show ?thesis
    using Spec_conforms [OF assms, of "Suc n" "Spec v"] Status_conforms [of ext "resolve ref" "n + 6" ref "Status v"] assms(1)
    by (simp add: schema_VirtualDatabase_def VirtualDatabase_json_def schema_simps eval_nat_numeral
      VirtualDatabaseKind_def apiVersion_def SchemeGroupVersion_def jstring_def)
qed

text \<open>A reference callback and schemas for the Kubernetes types that check that they are given an object.\<close>

definition exampleRef :: "string \<Rightarrow> string" where
  "exampleRef n = ''#/definitions/'' @ n"

definition isObject :: "json \<Rightarrow> bool" where
  "isObject j = (case j of JObject _ \<Rightarrow> True | _ \<Rightarrow> False)"

lemma VirtualDatabase_conforms_witness:
  "conforms (\<lambda>_. isObject) (resolve exampleRef) 10 (oa_Schema (schema_VirtualDatabase exampleRef))
     (VirtualDatabase_json exampleVdb) \<and>
   \<not> conforms (\<lambda>_. isObject) (resolve exampleRef) 10 (oa_Schema (schema_VirtualDatabase exampleRef))
     (VirtualDatabase_json (setReplicas (Some 2147483648) exampleVdb))"
proof -
  have "inj exampleRef" by (simp add: exampleRef_def inj_def)
  moreover have "kubernetes_schemas exampleRef (\<lambda>_. isObject)"
    by (simp add: kubernetes_schemas_def isObject_def EnvVar_json_def ResourceRequirements_json_def
      ObjectMeta_json_def jstruct_def)
  ultimately have c: "conforms (\<lambda>_. isObject) (resolve exampleRef) (0 + 10) (oa_Schema (schema_VirtualDatabase exampleRef))
      (VirtualDatabase_json v) \<longleftrightarrow> pred_option (in_width 32) (Replicas (Spec v))" for v
    by (rule VirtualDatabase_conforms)
  show ?thesis
    using c [of exampleVdb] c [of "setReplicas (Some 2147483648) exampleVdb"]
    by (simp add: exampleVdb_def setReplicas_def in_width_def)
qed

section \<open>The definitions are closed\<close>

text \<open>The references of a schema.\<close>

primrec refs :: "Schema \<Rightarrow> string set" where
  "refs (Schema d t f r ps i a q) =
     set_option r \<union> \<Union> (snd ` set (map (map_prod id refs) ps)) \<union>
     \<Union> (set_option (map_option refs i)) \<union> \<Union> (set_option (map_option refs a))"

text \<open>
  A definition is well formed when it lists the definitions its schema refers to, those of this package are
  among the definitions of the file, and the fields it requires are fields it describes.
\<close>

definition own_name :: "string \<Rightarrow> bool" where
  "own_name x \<longleftrightarrow> take 6 x = ''./pkg/''"

definition closed_definition :: "(string \<Rightarrow> string) \<Rightarrow> OpenAPIDefinition \<Rightarrow> bool" where
  "closed_definition ref d \<longleftrightarrow>
     refs (oa_Schema d) = ref ` set (oa_Dependencies d) \<and>
     set (filter own_name (oa_Dependencies d)) \<subseteq> set (map fst (GetOpenAPIDefinitions ref)) \<and>
     set (Required (oa_Schema d)) \<subseteq> set (map fst (SchemaProps (oa_Schema d)))"

lemma refs_literals [simp]:
  "refs (described d s) = refs s" "refs (plain t) = {}" "refs (withFormat f s) = refs s"
  "refs (refTo r) = {r}" "refs (arrayOf s) = refs s" "refs (mapOf s) = refs s"
  "refs (objectOf ps q) = \<Union> (refs ` snd ` set ps)"
  by (cases s; force simp: plain_def refTo_def arrayOf_def mapOf_def objectOf_def)+

lemma literals_select [simp]:
  "Required (described d s) = Required s" "SchemaProps (described d s) = SchemaProps s"
  "Required (objectOf ps q) = q" "SchemaProps (objectOf ps q) = ps"
  by (cases s; simp add: objectOf_def)+

text \<open>
  The OpenAPI definitions are closed, whatever callback builds the references: the dependencies a
  definition lists are exactly the references its schema contains, every dependency on a type of this
  package is a definition of the file, and every required field is described.
\<close>

theorem GetOpenAPIDefinitions_closed:
  "list_all (closed_definition ref \<circ> snd) (GetOpenAPIDefinitions ref)"
  by (auto simp: GetOpenAPIDefinitions_def closed_definition_def own_name_def
    schema_DataSourceObject_def schema_Source_def schema_ValueSource_def schema_VirtualDatabase_def
    schema_VirtualDatabaseBuildObject_def schema_VirtualDatabaseSpec_def schema_VirtualDatabaseStatus_def)

end
