(* ===== verification/Schemes.thy ===== *)
theory Schemes
  imports Operator_Main Json
begin

text \<open>
  The registration of Go types and of the controller: \<open>pkg/apis/apis.go\<close>, \<open>addtoscheme_vdb_v1alpha1.go\<close>,
  \<open>teiid/v1alpha1/register.go\<close>, \<open>zz_generated.defaults.go\<close>, \<open>opentracing/client/scheme/register.go\<close> and
  \<open>pkg/controller/add_virtualdatabase.go\<close>, with what they use of \<open>runtime.Scheme\<close>. The registration functions
  of other packages are parameters. A client refuses the types its scheme does not know, which is what the
  property of this theory is about.
\<close>

section \<open>Schemes\<close>

text \<open>A Go type: its package and its name, which is also its kind.\<close>

datatype GoType = GoType (pkgPath: string) (typeName: string)

record Scheme =
  gvkToType :: "(GroupVersionKind \<times> GoType) list"

type_synonym SchemeBuilder = "(Scheme, unit) M list"

definition NewScheme :: Scheme where
  "NewScheme = \<lparr>gvkToType = []\<rparr>"

definition AddKnownTypeWithName :: "GroupVersionKind \<Rightarrow> GoType \<Rightarrow> (Scheme, unit) M" where
  "AddKnownTypeWithName gvk t s =
     (if gvk_Version gvk = [] then (Panic ''version is required on all types'', s)
      else case map_of (gvkToType s) gvk of
        Some oldT \<Rightarrow> if oldT \<noteq> t then (Panic ''Double registration of different types'', s) else (Ok (), s)
      | None \<Rightarrow> (Ok (), s\<lparr>gvkToType := gvkToType s @ [(gvk, t)]\<rparr>))"

definition AddKnownTypes :: "string \<times> string \<Rightarrow> GoType list \<Rightarrow> (Scheme, unit) M" where
  "AddKnownTypes gv types =
     forM types (\<lambda>t. AddKnownTypeWithName \<lparr>gvk_Group = fst gv, gvk_Version = snd gv, gvk_Kind = typeName t\<rparr> t)"

definition ObjectKinds :: "Scheme \<Rightarrow> GoType \<Rightarrow> GroupVersionKind list" where
  "ObjectKinds s t = map fst (filter (\<lambda>e. snd e = t) (gvkToType s))"

text \<open>\<open>(sb *SchemeBuilder) AddToScheme\<close> abandons the attempt at the first error.\<close>

definition SchemeBuilder_AddToScheme :: "SchemeBuilder \<Rightarrow> (Scheme, unit) M" where
  "SchemeBuilder_AddToScheme sb = forM sb (\<lambda>f. f)"

section \<open>The types of the operator\<close>

text \<open>\<open>addToGroupVersion\<close> adds the types every group has, such as its watch events.\<close>

definition Builder_Register :: "(string \<times> string \<Rightarrow> (Scheme, unit) M) \<Rightarrow> string \<times> string \<Rightarrow> GoType list \<Rightarrow> SchemeBuilder \<Rightarrow> SchemeBuilder" where
  "Builder_Register addToGroupVersion gv objects sb =
     sb @ [bindM (AddKnownTypes gv objects) (\<lambda>_. addToGroupVersion gv)]"

definition v1alpha1_package :: string where
  "v1alpha1_package = ''github.com/teiid/teiid-operator/pkg/apis/teiid/v1alpha1''"

definition VirtualDatabase_type :: GoType where
  "VirtualDatabase_type = GoType v1alpha1_package ''VirtualDatabase''"

definition VirtualDatabaseList_type :: GoType where
  "VirtualDatabaseList_type = GoType v1alpha1_package ''VirtualDatabaseList''"

definition SchemeBuilder_init :: "(string \<times> string \<Rightarrow> (Scheme, unit) M) \<Rightarrow> SchemeBuilder" where
  "SchemeBuilder_init addToGroupVersion =
     Builder_Register addToGroupVersion SchemeGroupVersion [VirtualDatabase_type, VirtualDatabaseList_type] []"

definition RegisterDefaults :: "(Scheme, unit) M" where
  "RegisterDefaults = returnM ()"

text \<open>The registration functions of other packages.\<close>

record Registrations =
  addToGroupVersion :: "string \<times> string \<Rightarrow> (Scheme, unit) M"
  oappsv1_AddToScheme :: "(Scheme, unit) M"
  routev1_AddToScheme :: "(Scheme, unit) M"
  oimagev1_AddToScheme :: "(Scheme, unit) M"
  buildv1_AddToScheme :: "(Scheme, unit) M"
  monitoringv1_AddToScheme :: "(Scheme, unit) M"
  jaegertracingv1_AddToScheme :: "(Scheme, unit) M"
  consolev1_Install :: "(Scheme, unit) M"

text \<open>The scheme of the Jaeger client: \<open>utilruntime.Must\<close> panics when the registration fails.\<close>

definition localSchemeBuilder :: "Registrations \<Rightarrow> SchemeBuilder" where
  "localSchemeBuilder p = [jaegertracingv1_AddToScheme p]"

definition jaegerv1_AddToScheme :: "Registrations \<Rightarrow> (Scheme, unit) M" where
  "jaegerv1_AddToScheme p = SchemeBuilder_AddToScheme (localSchemeBuilder p)"

definition jaeger_scheme_init :: "Registrations \<Rightarrow> (Scheme, unit) M" where
  "jaeger_scheme_init p =
     bindM (addToGroupVersion p ([], ''v1'')) (\<lambda>_.
       tryM (jaegerv1_AddToScheme p) (\<lambda>x. case x of Inl e \<Rightarrow> panicM (Error e) | Inr _ \<Rightarrow> returnM ()))"

text \<open>
  The scheme of the operator. The types of the console, samples and links alike, are registered when the
  cluster knows the resource of the samples as the operator starts.
\<close>

definition addtoscheme_init :: "'w Reconciler \<Rightarrow> Registrations \<Rightarrow> SchemeBuilder \<Rightarrow> ('w, SchemeBuilder) M" where
  "addtoscheme_init r p AddToSchemes =
     (let AddToSchemes = AddToSchemes @
            [SchemeBuilder_AddToScheme (SchemeBuilder_init (addToGroupVersion p)),
             oappsv1_AddToScheme p,
             routev1_AddToScheme p,
             oimagev1_AddToScheme p,
             buildv1_AddToScheme p,
             monitoringv1_AddToScheme p,
             jaegerv1_AddToScheme p] in
      tryM (ConsoleYAMLSampleExists r) (\<lambda>err. case err of
        Inr _ \<Rightarrow> returnM (AddToSchemes @ [consolev1_Install p])
      | Inl _ \<Rightarrow> returnM AddToSchemes))"

definition apis_AddToScheme :: "SchemeBuilder \<Rightarrow> (Scheme, unit) M" where
  "apis_AddToScheme AddToSchemes = SchemeBuilder_AddToScheme AddToSchemes"

text \<open>\<open>controller.init\<close> registers the one controller.\<close>

definition controller_init :: "('w, unit) M \<Rightarrow> ('w, unit) M list \<Rightarrow> ('w, unit) M list" where
  "controller_init virtualdatabase_Add AddToManagerFuncs = AddToManagerFuncs @ [virtualdatabase_Add]"

section \<open>A client over a scheme\<close>

text \<open>Before it sends a request the client looks up the kind of the type; a type without one is an error.\<close>

definition notRegistered :: "GoType \<Rightarrow> error" where
  "notRegistered t = Err (''no kind is registered for the type '' @ typeName t)"

definition typedCall :: "Scheme \<Rightarrow> GoType \<Rightarrow> ('w \<Rightarrow> (error + 'a) \<times> 'w) \<Rightarrow> 'w \<Rightarrow> (error + 'a) \<times> 'w" where
  "typedCall s t f w = (if ObjectKinds s t = [] then (Inl (notRegistered t), w) else f w)"

definition typedClient :: "Scheme \<Rightarrow> GoType \<Rightarrow> ('w, 'o) resource_client \<Rightarrow> ('w, 'o) resource_client" where
  "typedClient s t c =
     \<lparr>rGet = (\<lambda>ns n. typedCall s t (rGet c ns n)),
      rList = (\<lambda>ns sel. typedCall s t (rList c ns sel)),
      rCreate = (\<lambda>x. typedCall s t (rCreate c x)),
      rUpdate = (\<lambda>x. typedCall s t (rUpdate c x)),
      rDelete = (\<lambda>x. typedCall s t (rDelete c x))\<rparr>"

definition ConsoleLink_type :: GoType where
  "ConsoleLink_type = GoType ''github.com/openshift/api/console/v1'' ''ConsoleLink''"

section \<open>Lemmas\<close>

definition types :: "Scheme \<Rightarrow> GoType set" where
  "types s = snd ` set (gvkToType s)"

lemma ObjectKinds_Nil: "ObjectKinds s t = [] \<longleftrightarrow> t \<notin> types s"
  by (force simp: ObjectKinds_def types_def filter_empty_conv)

text \<open>A registration that adds the types \<open>K\<close> when it succeeds.\<close>

definition adds :: "(Scheme, unit) M \<Rightarrow> GoType set \<Rightarrow> bool" where
  "adds f K \<longleftrightarrow> (\<forall>s s'. f s = (Ok (), s') \<longrightarrow> types s' = types s \<union> K)"

lemma addsD: "adds f K \<Longrightarrow> f s = (Ok (), s') \<Longrightarrow> types s' = types s \<union> K"
  by (simp add: adds_def)

lemma adds_bind: "adds f K \<Longrightarrow> adds g L \<Longrightarrow> adds (bindM f (\<lambda>_. g)) (K \<union> L)"
  unfolding adds_def bindM_def by (fastforce split: prod.splits res.splits)

lemma adds_return: "adds (returnM ()) {}"
  by (simp add: adds_def returnM_def)

lemma adds_forM: "list_all2 (\<lambda>x K. adds (f x) K) xs Ks \<Longrightarrow> adds (forM xs f) (\<Union> (set Ks))"
  by (induction rule: list_all2_induct) (simp_all add: adds_return adds_bind)

lemma adds_AddKnownTypeWithName: "adds (AddKnownTypeWithName gvk t) {t}"
  unfolding adds_def AddKnownTypeWithName_def types_def
  by (force dest: map_of_SomeD split: if_splits option.splits)

lemma adds_AddKnownTypes: "adds (AddKnownTypes gv ts) (set ts)"
  using adds_forM [of "\<lambda>t. AddKnownTypeWithName \<lparr>gvk_Group = fst gv, gvk_Version = snd gv, gvk_Kind = typeName t\<rparr> t" ts "map (\<lambda>t. {t}) ts"]
  by (simp add: AddKnownTypes_def list_all2_conv_all_nth adds_AddKnownTypeWithName)

text \<open>What the operator's scheme knows after the start.\<close>

definition ownTypes :: "GoType set" where
  "ownTypes = {VirtualDatabase_type, VirtualDatabaseList_type}"

lemma adds_SchemeBuilder_init:
  assumes "adds (agv SchemeGroupVersion) G"
  shows "adds (SchemeBuilder_AddToScheme (SchemeBuilder_init agv)) (ownTypes \<union> G)"
  using adds_bind [OF adds_bind [OF adds_AddKnownTypes [of SchemeGroupVersion "[VirtualDatabase_type, VirtualDatabaseList_type]"] assms] adds_return]
  by (simp add: SchemeBuilder_AddToScheme_def SchemeBuilder_init_def Builder_Register_def ownTypes_def)

text \<open>The packages whose types are always registered, and the types they add.\<close>

definition packages :: "Registrations \<Rightarrow> (Scheme, unit) M list" where
  "packages p = [addToGroupVersion p SchemeGroupVersion, oappsv1_AddToScheme p, routev1_AddToScheme p, oimagev1_AddToScheme p,
     buildv1_AddToScheme p, monitoringv1_AddToScheme p, jaegertracingv1_AddToScheme p]"

lemma adds_always:
  assumes "list_all2 adds (packages p) Ks"
  shows "adds (forM
     [SchemeBuilder_AddToScheme (SchemeBuilder_init (addToGroupVersion p)), oappsv1_AddToScheme p, routev1_AddToScheme p,
      oimagev1_AddToScheme p, buildv1_AddToScheme p, monitoringv1_AddToScheme p, jaegerv1_AddToScheme p] (\<lambda>f. f))
     (ownTypes \<union> \<Union> (set Ks))"
proof -
  from assms obtain G A R I B M J where K: "Ks = [G, A, R, I, B, M, J]"
    and G: "adds (addToGroupVersion p SchemeGroupVersion) G" and J: "adds (jaegertracingv1_AddToScheme p) J"
    and rest: "adds (oappsv1_AddToScheme p) A" "adds (routev1_AddToScheme p) R" "adds (oimagev1_AddToScheme p) I"
      "adds (buildv1_AddToScheme p) B" "adds (monitoringv1_AddToScheme p) M"
    by (auto simp: packages_def list_all2_Cons1)
  have "adds (jaegerv1_AddToScheme p) J"
    using adds_bind [OF J adds_return] by (simp add: jaegerv1_AddToScheme_def SchemeBuilder_AddToScheme_def localSchemeBuilder_def)
  with rest adds_SchemeBuilder_init [where agv = "addToGroupVersion p", OF G]
    adds_forM [where f = "\<lambda>f. f" and Ks = "[ownTypes \<union> G, A, R, I, B, M, J]"
      and xs = "[SchemeBuilder_AddToScheme (SchemeBuilder_init (addToGroupVersion p)), oappsv1_AddToScheme p, routev1_AddToScheme p,
      oimagev1_AddToScheme p, buildv1_AddToScheme p, monitoringv1_AddToScheme p, jaegerv1_AddToScheme p]"]
  show ?thesis by (simp add: K Un_assoc)
qed

lemma forM_append: "forM (xs @ ys) f = bindM (forM xs f) (\<lambda>_. forM ys f)"
  by (induction xs) (simp_all add: bindM_assoc)

lemma adds_append:
  assumes "adds (forM xs (\<lambda>f. f)) K" and "adds f L"
  shows "adds (forM (xs @ [f]) (\<lambda>f. f)) (K \<union> L)"
  using adds_bind [OF assms(1) adds_bind [OF assms(2) adds_return]] by (simp add: forM_append)

text \<open>The scheme after the start: the console types are in it exactly when the samples were known to the cluster.\<close>

lemma addtoscheme_types:
  assumes "list_all2 adds (packages p) Ks" and "adds (consolev1_Install p) C"
    and "addtoscheme_init r p [] w = (Ok sb, w')" and "apis_AddToScheme sb NewScheme = (Ok (), s)"
  shows "types s = ownTypes \<union> \<Union> (set Ks) \<union> (if isl (fst (crdExists r ''ConsoleYAMLSample'' w)) then {} else C)"
proof -
  note always = adds_always [OF assms(1)]
  let ?fs = "[SchemeBuilder_AddToScheme (SchemeBuilder_init (addToGroupVersion p)), oappsv1_AddToScheme p, routev1_AddToScheme p,
      oimagev1_AddToScheme p, buildv1_AddToScheme p, monitoringv1_AddToScheme p, jaegerv1_AddToScheme p]"
  obtain x w2 where x: "crdExists r ''ConsoleYAMLSample'' w = (x, w2)" by fastforce
  with assms(3) have sb: "sb = (if isl x then ?fs else ?fs @ [consolev1_Install p])"
    by (cases x) (simp_all add: addtoscheme_init_def ConsoleYAMLSampleExists_def monad_defs Let_def)
  have "adds (forM sb (\<lambda>f. f)) (ownTypes \<union> \<Union> (set Ks) \<union> (if isl x then {} else C))"
    using always adds_append [OF always assms(2)] by (simp only: sb split: if_split) simp
  from addsD [OF this, of NewScheme s] assms(4) x show ?thesis
    by (simp add: apis_AddToScheme_def SchemeBuilder_AddToScheme_def types_def NewScheme_def)
qed

lemma typedClient_known: "t \<in> types s \<Longrightarrow> typedClient s t c = c"
  by (simp add: typedClient_def typedCall_def [abs_def] ObjectKinds_Nil)

lemma link_client_unknown:
  assumes "ConsoleLink_type \<notin> types s" and "consoleLinks r = typedClient s ConsoleLink_type c"
  shows "CreateConsoleLink r route vdb w = (Ok (), w)" "RemoveConsoleLink r m w = (Ok (), w)"
  using assms
  by (simp_all add: CreateConsoleLink_def doCreateConsoleLink_def checkConsoleLink_def RemoveConsoleLink_def
    doDeleteConsoleLink_def getM_def monad_defs typedClient_def typedCall_def ObjectKinds_Nil notRegistered_def)

section \<open>Properties\<close>

text \<open>
  C31: whether console links are created hangs on another resource. The types of the console, the links among
  them, enter the scheme only if the cluster knew the resource of the YAML samples when the operator started.
  If it did not, as in clusters whose console has links and no samples, creating the link of a virtual database
  sends no request at all, reports nothing, and leaves the cluster as it is, although the handler has just found that the resource
  of the links exists. If it did, the client is the one without the check.
\<close>

theorem CreateConsoleLink_scheme:
  assumes "list_all2 adds (packages p) Ks" and "ConsoleLink_type \<notin> \<Union> (set Ks)"
    and "adds (consolev1_Install p) C" and "ConsoleLink_type \<in> C"
    and "addtoscheme_init r p [] w0 = (Ok sb, w0')" and "apis_AddToScheme sb NewScheme = (Ok (), s)"
  shows "CreateConsoleLink (r\<lparr>consoleLinks := typedClient s ConsoleLink_type c\<rparr>) route vdb w =
    (if isl (fst (crdExists r ''ConsoleYAMLSample'' w0)) then (Ok (), w)
     else CreateConsoleLink (r\<lparr>consoleLinks := c\<rparr>) route vdb w)"
proof -
  have "ConsoleLink_type \<in> types s \<longleftrightarrow> \<not> isl (fst (crdExists r ''ConsoleYAMLSample'' w0))"
    using addtoscheme_types [OF assms(1,3,5,6)] assms(2,4)
    by (auto simp: ownTypes_def ConsoleLink_type_def VirtualDatabase_type_def VirtualDatabaseList_type_def)
  then show ?thesis
    using link_client_unknown(1) [of s "r\<lparr>consoleLinks := typedClient s ConsoleLink_type c\<rparr>"]
    by (cases "isl (fst (crdExists r ''ConsoleYAMLSample'' w0))") (simp_all add: typedClient_known)
qed

text \<open>Packages without types but for the console's links, in a cluster that knows links and no samples.\<close>

definition exampleRegistrations :: Registrations where
  "exampleRegistrations =
     \<lparr>addToGroupVersion = (\<lambda>_. returnM ()), oappsv1_AddToScheme = returnM (), routev1_AddToScheme = returnM (),
      oimagev1_AddToScheme = returnM (), buildv1_AddToScheme = returnM (), monitoringv1_AddToScheme = returnM (),
      jaegertracingv1_AddToScheme = returnM (),
      consolev1_Install = AddKnownTypes (''console.openshift.io'', ''v1'') [ConsoleLink_type]\<rparr>"

definition linksOnly :: "ConsoleLink list Reconciler" where
  "linksOnly = emptyCluster\<lparr>crdExists := (\<lambda>kind w. (if kind = ''ConsoleLink'' then Inr () else Inl (NotFound kind), w))\<rparr>"

definition linkStore :: "(ConsoleLink list, ConsoleLink) resource_client" where
  "linkStore = emptyClient\<lparr>rCreate := (\<lambda>x w. (Inr x, x # w))\<rparr>"

definition exampleRoute :: Objects.Route where
  "exampleRoute = \<lparr>route_Meta = objectMeta ''vdb'' ''ns'', route_TargetPort = 8080,
     route_To = \<lparr>ref_Kind = ''Service'', ref_Name = ''vdb'', ref_Namespace = []\<rparr>, Termination = ''edge'', Host = ''vdb.example.com''\<rparr>"

lemma CreateConsoleLink_scheme_witness:
  "\<exists>sb s. addtoscheme_init linksOnly exampleRegistrations [] [] = (Ok sb, []) \<and>
     apis_AddToScheme sb NewScheme = (Ok (), s) \<and>
     CreateConsoleLink (linksOnly\<lparr>consoleLinks := typedClient s ConsoleLink_type linkStore\<rparr>) exampleRoute emptyVdb [] = (Ok (), []) \<and>
     length (snd (CreateConsoleLink (linksOnly\<lparr>consoleLinks := linkStore\<rparr>) exampleRoute emptyVdb [])) = 1"
proof -
  let ?p = exampleRegistrations
  have packs: "list_all2 adds (packages ?p) (replicate 7 {})"
    by (simp add: packages_def exampleRegistrations_def adds_return eval_nat_numeral)
  have console: "adds (consolev1_Install ?p) {ConsoleLink_type}"
    using adds_AddKnownTypes [of "(''console.openshift.io'', ''v1'')" "[ConsoleLink_type]"] by (simp add: exampleRegistrations_def)
  obtain sb where sb: "addtoscheme_init linksOnly ?p [] [] = (Ok sb, [])"
    by (simp add: addtoscheme_init_def ConsoleYAMLSampleExists_def linksOnly_def monad_defs Let_def)
  moreover from sb obtain s where s: "apis_AddToScheme sb NewScheme = (Ok (), s)"
    by (auto simp: addtoscheme_init_def ConsoleYAMLSampleExists_def linksOnly_def monad_defs Let_def apis_AddToScheme_def
      SchemeBuilder_AddToScheme_def SchemeBuilder_init_def Builder_Register_def exampleRegistrations_def AddKnownTypes_def
      AddKnownTypeWithName_def SchemeGroupVersion_def VirtualDatabase_type_def VirtualDatabaseList_type_def
      NewScheme_def jaegerv1_AddToScheme_def localSchemeBuilder_def)
  moreover have "isl (fst (crdExists linksOnly ''ConsoleYAMLSample'' []))" by (simp add: linksOnly_def)
  ultimately show ?thesis
    using CreateConsoleLink_scheme [OF packs _ console _ sb s, of linkStore exampleRoute emptyVdb "[]"]
    by (simp add: CreateConsoleLink_def doCreateConsoleLink_def checkConsoleLink_def getM_def createM_def monad_defs
      linkStore_def emptyClient_def)
qed

end
