(* ===== verification/Logs.thy ===== *)
theory Logs
  imports Kube_Client
begin

text \<open>
  The loggers of \<open>pkg/util/logs/logs.go\<close>: what \<open>GetLogger\<close> builds, as the data the zap library is given, and
  which entries such a logger writes. Rendering an entry and the clock belong to the libraries.
\<close>

section \<open>Loggers\<close>

datatype LogLevel = DebugLevel | InfoLevel | WarnLevel | ErrorLevel | DPanicLevel | PanicLevel | FatalLevel

text \<open>The numbers of \<open>zapcore.Level\<close>.\<close>

fun levelNumber :: "LogLevel \<Rightarrow> int" where
  "levelNumber DebugLevel = -1"
| "levelNumber InfoLevel = 0"
| "levelNumber WarnLevel = 1"
| "levelNumber ErrorLevel = 2"
| "levelNumber DPanicLevel = 3"
| "levelNumber PanicLevel = 4"
| "levelNumber FatalLevel = 5"

instantiation LogLevel :: linorder
begin

definition less_eq_LogLevel :: "LogLevel \<Rightarrow> LogLevel \<Rightarrow> bool" where
  "less_eq_LogLevel a b \<longleftrightarrow> levelNumber a \<le> levelNumber b"

definition less_LogLevel :: "LogLevel \<Rightarrow> LogLevel \<Rightarrow> bool" where
  "less_LogLevel a b \<longleftrightarrow> levelNumber a < levelNumber b"

instance
proof
  fix a b :: LogLevel
  show "a \<le> b \<Longrightarrow> b \<le> a \<Longrightarrow> a = b"
    by (cases a; cases b) (simp_all add: less_eq_LogLevel_def)
qed (auto simp: less_eq_LogLevel_def less_LogLevel_def)

end

datatype ZapEncoder = ConsoleEncoder | JSONEncoder

text \<open>The sampler lets the first entries of a period pass, and then one of so many.\<close>

record Sampler =
  Tick :: int
  First :: nat
  Thereafter :: nat

datatype 'sink ZapOption =
    Development
  | AddStacktrace LogLevel
  | WrapCore Sampler
  | AddCallerSkip nat
  | ErrorOutput 'sink

record 'sink ZapLogger =
  zap_Name :: string
  zap_Encoder :: ZapEncoder
  KubeVerbose :: bool
  zap_Sink :: 'sink
  zap_Level :: LogLevel
  zap_Options :: "'sink ZapOption list"

definition zapSugaredLoggerTo :: "'sink \<Rightarrow> bool \<Rightarrow> 'sink ZapLogger" where
  "zapSugaredLoggerTo destWriter development =
     (let (enc, lvl, opts) =
            (if development
             then (ConsoleEncoder, DebugLevel, [Development, AddStacktrace ErrorLevel])
             else (JSONEncoder, InfoLevel, [WrapCore \<lparr>Tick = 1000000000, First = 100, Thereafter = 100\<rparr>]));
          opts = opts @ [AddCallerSkip 1, ErrorOutput destWriter] in
      \<lparr>zap_Name = [], zap_Encoder = enc, KubeVerbose = development, zap_Sink = destWriter, zap_Level = lvl, zap_Options = opts\<rparr>)"

definition zapSugaredLogger :: "'sink \<Rightarrow> bool \<Rightarrow> 'sink ZapLogger" where
  "zapSugaredLogger stderr development = zapSugaredLoggerTo stderr development"

text \<open>\<open>(*Logger) Named\<close>.\<close>

definition Named :: "string \<Rightarrow> 'sink ZapLogger \<Rightarrow> 'sink ZapLogger" where
  "Named s log =
     (if s = [] then log
      else if zap_Name log = [] then log\<lparr>zap_Name := s\<rparr>
      else log\<lparr>zap_Name := Join [zap_Name log, s] ''.''\<rparr>)"

text \<open>
  The logger of the controller library is global and settled by the first call of \<open>SetLogger\<close>: its
  promise is fulfilled once. It is represented by its development flag.
\<close>

definition SetLogger :: "bool \<Rightarrow> bool option \<Rightarrow> bool option" where
  "SetLogger development global = (case global of None \<Rightarrow> Some development | Some d \<Rightarrow> Some d)"

record 'sink Logger =
  logr_Development :: bool
  SugaredLogger :: "'sink ZapLogger"

definition createLogger :: "'sink \<Rightarrow> bool \<Rightarrow> bool option \<Rightarrow> 'sink Logger \<times> bool option" where
  "createLogger stderr development global =
     (let log = \<lparr>logr_Development = development, SugaredLogger = zapSugaredLogger stderr development\<rparr> in
      (log, SetLogger (logr_Development log) global))"

definition GetLogger :: "(string \<Rightarrow> string option) \<Rightarrow> 'sink \<Rightarrow> string \<Rightarrow> bool option \<Rightarrow> 'sink ZapLogger \<times> bool option" where
  "GetLogger env stderr name global =
     (let debugBool = GetBoolEnv env ''DEBUG'';
          (logger, global) = (if debugBool then createLogger stderr True global else createLogger stderr False global) in
      (Named name (SugaredLogger logger), global))"

text \<open>Times are written in UTC; the clock and the layout belong to package \<open>time\<close>.\<close>

definition timeEncoder :: "('t \<Rightarrow> 't) \<Rightarrow> ('t \<Rightarrow> string \<Rightarrow> string) \<Rightarrow> 't \<Rightarrow> string list \<Rightarrow> string list" where
  "timeEncoder UTC layout t enc = (let t = UTC t in enc @ [layout t ''2006-01-02T15:04:05.999999999Z07:00''])"

section \<open>What a logger writes\<close>

definition writesLevel :: "'sink ZapLogger \<Rightarrow> LogLevel \<Rightarrow> bool" where
  "writesLevel log lvl \<longleftrightarrow> zap_Level log \<le> lvl"

text \<open>Without the option no entry carries a stack trace; the last option counts.\<close>

definition hasStacktrace :: "'sink ZapLogger \<Rightarrow> LogLevel \<Rightarrow> bool" where
  "hasStacktrace log lvl \<longleftrightarrow>
     fold (\<lambda>opt s. case opt of AddStacktrace l \<Rightarrow> l \<le> lvl | _ \<Rightarrow> s) (zap_Options log) False"

lemma GetBoolEnv_iff:
  "GetBoolEnv env key \<longleftrightarrow> (\<exists>v. env key = Some v \<and> v \<in> {''1'', ''t'', ''T'', ''TRUE'', ''true'', ''True''})"
  by (auto simp: GetBoolEnv_def GetEnv_def ParseBool_def split: option.split)

lemma zap_Named [simp]:
  "zap_Level (Named s l) = zap_Level l" "zap_Options (Named s l) = zap_Options l" "zap_Sink (Named s l) = zap_Sink l"
  by (simp_all add: Named_def)

lemma GetLogger_development:
  "zap_Level (fst (GetLogger env e n g)) = (if GetBoolEnv env ''DEBUG'' then DebugLevel else InfoLevel)"
  "zap_Options (fst (GetLogger env e n g)) = zap_Options (zapSugaredLoggerTo e (GetBoolEnv env ''DEBUG''))"
  by (simp_all add: GetLogger_def createLogger_def zapSugaredLogger_def zapSugaredLoggerTo_def)

text \<open>
  Every entry from the info level up is written, whatever the environment; the entries below are written
  when \<open>DEBUG\<close> reads as true, and any other value, one that does not parse included, means false.
\<close>

lemma GetLogger_writes:
  "writesLevel (fst (GetLogger env e n g)) lvl \<longleftrightarrow> InfoLevel \<le> lvl \<or> GetBoolEnv env ''DEBUG''"
  by (cases lvl) (simp_all add: writesLevel_def GetLogger_development less_eq_LogLevel_def)

text \<open>
  Stack traces are added in development only, to the entries from the error level up: the comment of
  \<open>zapSugaredLogger\<close> promises them for the production configuration.
\<close>

lemma GetLogger_stacktraces:
  "hasStacktrace (fst (GetLogger env e n g)) lvl \<longleftrightarrow> GetBoolEnv env ''DEBUG'' \<and> ErrorLevel \<le> lvl"
  by (simp add: hasStacktrace_def GetLogger_development zapSugaredLoggerTo_def)

text \<open>Each package asks for a logger of its own; the first request settles the global one.\<close>

lemma GetLogger_global:
  "snd (GetLogger env e n g) = (case g of None \<Rightarrow> Some (GetBoolEnv env ''DEBUG'') | Some d \<Rightarrow> Some d)"
  by (simp add: GetLogger_def createLogger_def SetLogger_def split: option.split)

lemma GetLogger_name: "zap_Name (fst (GetLogger env e n g)) = n"
  by (simp add: GetLogger_def createLogger_def zapSugaredLogger_def zapSugaredLoggerTo_def Named_def)

end
