(* ===== verification/Maven_Xml.thy ===== *)
theory Maven_Xml
  imports Maven_Run
begin

text \<open>
  The XML of \<open>pkg/util/maven/maven_project_types.go\<close>: the elements that \<open>encoding/xml\<close> makes of a project and
  of a settings file by the struct tags, the encoder of property maps that the file brings itself, and the reader of
  repository metadata. \<open>omitempty\<close> leaves out empty strings, lists and maps but no structs, and the element around
  a list (\<open>a>b\<close>) is written even around an empty list.
\<close>

section \<open>Elements\<close>

datatype xml =
    Element string "(string \<times> string) list" "xml list"
  | CharData string

fun xchildren :: "xml \<Rightarrow> xml list" where
  "xchildren (Element n as cs) = cs"
| "xchildren (CharData s) = []"

fun xnamed :: "string \<Rightarrow> xml \<Rightarrow> bool" where
  "xnamed k (Element n as cs) \<longleftrightarrow> n = k"
| "xnamed k (CharData s) \<longleftrightarrow> False"

text \<open>What a struct field writes: a string, a string with \<open>omitempty\<close>, a struct, a list inside an element.\<close>

definition xtext :: "string \<Rightarrow> string \<Rightarrow> xml list" where
  "xtext k s = [Element k [] (if s = [] then [] else [CharData s])]"

definition xopt :: "string \<Rightarrow> string \<Rightarrow> xml list" where
  "xopt k s = (if s = [] then [] else xtext k s)"

definition xstruct :: "string \<Rightarrow> xml list \<Rightarrow> xml list" where
  "xstruct k cs = [Element k [] cs]"

definition xlist :: "string \<Rightarrow> string \<Rightarrow> ('a \<Rightarrow> xml list) \<Rightarrow> 'a list \<Rightarrow> xml list" where
  "xlist k item enc xs = [Element k [] (map (\<lambda>x. Element item [] (enc x)) xs)]"

definition xbool :: "bool \<Rightarrow> string" where
  "xbool b = (if b then ''true'' else ''false'')"

section \<open>The encoder of properties\<close>

text \<open>
  \<open>(m Properties) MarshalXML\<close> writes tokens to an encoder, which is a parameter. An entry is a struct with
  the name of its element and the text in it.
\<close>

datatype XmlToken = StartElement string | EndElement string | Chars string

record propertiesEntry =
  entry_XMLName :: string
  entry_Value :: string

definition Properties_MarshalXML ::
  "(XmlToken \<Rightarrow> 'w \<Rightarrow> (error + unit) \<times> 'w) \<Rightarrow> (propertiesEntry \<Rightarrow> 'w \<Rightarrow> (error + unit) \<times> 'w) \<Rightarrow>
   string gomap \<Rightarrow> string \<Rightarrow> ('w, unit) M" where
  "Properties_MarshalXML encodeToken encode m start =
     (if m = [] then returnM ()
      else bindM (callM (encodeToken (StartElement start))) (\<lambda>_.
           bindM (forM m (\<lambda>(k, v). callM (encode \<lparr>entry_XMLName = k, entry_Value = v\<rparr>))) (\<lambda>_.
             callM (encodeToken (EndElement start)))))"

text \<open>The element it amounts to. An entry without a name is written under the name of its type.\<close>

definition entryName :: "string \<Rightarrow> string" where
  "entryName k = (if k = [] then ''propertiesEntry'' else k)"

definition Properties_xml :: "string \<Rightarrow> string gomap \<Rightarrow> xml list" where
  "Properties_xml k m = (if m = [] then [] else [Element k [] (concat (map (\<lambda>(k, v). xtext (entryName k) v) m))])"

section \<open>The structs\<close>

definition Parent_xml :: "Parent \<Rightarrow> xml list" where
  "Parent_xml p = xopt ''groupId'' (par_GroupID p) @ xopt ''artifactId'' (par_ArtifactID p) @ xopt ''version'' (par_Version p)"

definition Exclusion_xml :: "Exclusion \<Rightarrow> xml list" where
  "Exclusion_xml e = xtext ''groupId'' (ex_GroupID e) @ xtext ''artifactId'' (ex_ArtifactID e)"

text \<open>A nil pointer to a list writes nothing, not even the element around it.\<close>

definition Dependency_xml :: "Dependency \<Rightarrow> xml list" where
  "Dependency_xml d =
     xtext ''groupId'' (GroupID d) @ xtext ''artifactId'' (ArtifactID d) @ xopt ''version'' (dep_Version d) @
     xopt ''type'' (dep_Type d) @ xopt ''classifier'' (Classifier d) @ xopt ''scope'' (Scope d) @
     (case Exclusions d of None \<Rightarrow> [] | Some es \<Rightarrow> xlist ''exclusions'' ''exclusion'' Exclusion_xml es)"

definition DependencyManagement_xml :: "Dependency list \<Rightarrow> xml list" where
  "DependencyManagement_xml ds = xlist ''dependencies'' ''dependency'' Dependency_xml ds"

definition RepositoryPolicy_xml :: "RepositoryPolicy \<Rightarrow> xml list" where
  "RepositoryPolicy_xml p =
     xtext ''enabled'' (xbool (RepositoryPolicy.Enabled p)) @ xopt ''updatePolicy'' (UpdatePolicy p) @
     xopt ''checksumPolicy'' (ChecksumPolicy p)"

definition Repository_xml :: "Repository \<Rightarrow> xml list" where
  "Repository_xml r =
     xtext ''id'' (repo_ID r) @ xopt ''name'' (repo_Name r) @ xtext ''url'' (URL r) @
     xstruct ''snapshots'' (RepositoryPolicy_xml (Snapshots r)) @ xstruct ''releases'' (RepositoryPolicy_xml (Releases r))"

definition ArtifactItem_xml :: "ArtifactItem \<Rightarrow> xml list" where
  "ArtifactItem_xml a =
     xtext ''groupId'' (ai_GroupID a) @ xtext ''artifactId'' (ai_ArtifactID a) @ xopt ''version'' (ai_Version a) @
     xopt ''type'' (ai_Type a) @ xopt ''destFileName'' (DestinationFileName a)"

definition PluginConfiguration_xml :: "PluginConfiguration \<Rightarrow> xml list" where
  "PluginConfiguration_xml c =
     xlist ''artifactItems'' ''artifactItem'' ArtifactItem_xml (ArtifactItems c) @
     xopt ''outputDirectory'' (OutputDirectory c) @ xopt ''vdbFile'' (VdbFile c) @
     (if MaterializationEnable c then xtext ''materializationEnable'' ''true'' else []) @
     xopt ''vdbVersion'' (VdbVersion c) @ xopt ''materializationType'' (MaterializationType c)"

text \<open>\<open>omitempty\<close> of a list of strings also applies to its elements.\<close>

definition Execution_xml :: "Execution \<Rightarrow> xml list" where
  "Execution_xml e =
     xtext ''id'' (exec_ID e) @ xopt ''phase'' (exec_Phase e) @
     xstruct ''goals'' (concat (map (xopt ''goal'') (Goals e))) @
     xstruct ''configuration'' (PluginConfiguration_xml (exec_Configuration e))"

definition Plugin_xml :: "Plugin \<Rightarrow> xml list" where
  "Plugin_xml p =
     xtext ''groupId'' (plug_GroupID p) @ xtext ''artifactId'' (plug_ArtifactID p) @ xopt ''version'' (plug_Version p) @
     xlist ''executions'' ''execution'' Execution_xml (Executions p) @
     xlist ''dependencies'' ''dependency'' Dependency_xml (plug_Dependencies p)"

definition ProjectBuild_xml :: "ProjectBuild \<Rightarrow> xml list" where
  "ProjectBuild_xml b = xopt ''defaultGoal'' (DefaultGoal b) @ xlist ''plugins'' ''plugin'' Plugin_xml (Plugins b)"

definition Project_xml :: "Project \<Rightarrow> xml" where
  "Project_xml p =
     Element (XMLName p)
       [(''xmlns'', XMLNs p), (''xmlns:xsi'', XMLNsXsi p), (''xsi:schemaLocation'', XsiSchemaLocation p)]
       (xtext ''modelVersion'' (ModelVersion p) @ xtext ''groupId'' (p_GroupID p) @ xtext ''artifactId'' (p_ArtifactID p) @
        xtext ''version'' (p_Version p) @ xtext ''packaging'' (Packaging p) @ xstruct ''parent'' (Parent_xml (p_Parent p)) @
        Properties_xml ''properties'' (p_Properties p) @
        xstruct ''dependencyManagement'' (DependencyManagement_xml (Project.DependencyManagement p)) @
        xlist ''dependencies'' ''dependency'' Dependency_xml (p_Dependencies p) @
        xlist ''repositories'' ''repository'' Repository_xml (Repositories p) @
        xlist ''pluginRepositories'' ''pluginRepository'' Repository_xml (PluginRepositories p) @
        xstruct ''build'' (ProjectBuild_xml (p_Build p)))"

definition PropertyActivation_xml :: "string \<times> string \<Rightarrow> xml list" where
  "PropertyActivation_xml p = xtext ''name'' (fst p) @ xtext ''value'' (snd p)"

definition Activation_xml :: "Activation \<Rightarrow> xml list" where
  "Activation_xml a =
     xtext ''activeByDefault'' (xbool (ActiveByDefault a)) @
     (case act_Property a of None \<Rightarrow> [] | Some p \<Rightarrow> xstruct ''property'' (PropertyActivation_xml p))"

definition Profile_xml :: "Profile \<Rightarrow> xml list" where
  "Profile_xml p =
     xtext ''id'' (prof_ID p) @ xstruct ''activation'' (Activation_xml (prof_Activation p)) @
     Properties_xml ''properties'' (prof_Properties p) @
     xlist ''repositories'' ''repository'' Repository_xml (prof_Repositories p) @
     xlist ''pluginRepositories'' ''pluginRepository'' Repository_xml (prof_PluginRepositories p)"

definition Settings_xml :: "Settings \<Rightarrow> xml" where
  "Settings_xml s =
     Element (set_XMLName s)
       [(''xmlns'', set_XMLNs s), (''xmlns:xsi'', set_XMLNsXsi s), (''xsi:schemaLocation'', set_XsiSchemaLocation s)]
       (xtext ''localRepository'' (LocalRepository s) @ xlist ''profiles'' ''profile'' Profile_xml (Profiles s))"

section \<open>Reading the elements\<close>

text \<open>The way \<open>xml.Unmarshal\<close> and Maven read: a field is the child of its name, missing ones are empty.\<close>

definition kids :: "string \<Rightarrow> xml list \<Rightarrow> xml list" where
  "kids k cs = filter (xnamed k) cs"

fun xdata :: "xml \<Rightarrow> string" where
  "xdata (CharData s) = s"
| "xdata (Element n as cs) = []"

definition xcontent :: "xml \<Rightarrow> string" where
  "xcontent x = concat (map xdata (xchildren x))"

definition getText :: "string \<Rightarrow> xml list \<Rightarrow> string" where
  "getText k cs = (case kids k cs of [] \<Rightarrow> [] | c # _ \<Rightarrow> xcontent c)"

definition getStruct :: "string \<Rightarrow> xml list \<Rightarrow> xml list" where
  "getStruct k cs = (case kids k cs of [] \<Rightarrow> [] | c # _ \<Rightarrow> xchildren c)"

definition getList :: "string \<Rightarrow> string \<Rightarrow> (xml list \<Rightarrow> 'a) \<Rightarrow> xml list \<Rightarrow> 'a list" where
  "getList k item dec cs = map (dec \<circ> xchildren) (kids item (getStruct k cs))"

lemma kids_append [simp]: "kids k (xs @ ys) = kids k xs @ kids k ys" "kids k [] = []"
  by (simp_all add: kids_def)

lemma kids_fields [simp]:
  "kids k (xtext k' s) = (if k = k' then xtext k' s else [])"
  "kids k (xopt k' s) = (if k = k' then xopt k' s else [])"
  "kids k (xstruct k' cs) = (if k = k' then xstruct k' cs else [])"
  "kids k (xlist k' item enc xs) = (if k = k' then xlist k' item enc xs else [])"
  "kids k (Properties_xml k' m) = (if k = k' then Properties_xml k' m else [])"
  "kids k [Element k' as cs] = (if k = k' then [Element k' as cs] else [])"
  by (auto simp: kids_def xtext_def xopt_def xstruct_def xlist_def Properties_xml_def)

lemma xtext_simps [simp]:
  "(case xtext k s of [] \<Rightarrow> d | c # _ \<Rightarrow> f c) = f (Element k [] (if s = [] then [] else [CharData s]))"
  "xcontent (Element k as (if s = [] then [] else [CharData s])) = s"
  by (simp_all add: xtext_def xcontent_def)

lemma xopt_content [simp]: "(case xopt k s of [] \<Rightarrow> [] | c # _ \<Rightarrow> xcontent c) = s"
  by (simp add: xopt_def xcontent_def)

lemma xstruct_case [simp]:
  "(case xstruct k cs of [] \<Rightarrow> d | c # _ \<Rightarrow> f c) = f (Element k [] cs)"
  "(case xlist k item enc xs of [] \<Rightarrow> d | c # _ \<Rightarrow> f c) = f (Element k [] (map (\<lambda>x. Element item [] (enc x)) xs))"
  by (simp_all add: xstruct_def xlist_def)

lemma kids_items: "kids item (map (\<lambda>x. Element item [] (enc x)) xs) = map (\<lambda>x. Element item [] (enc x)) xs"
  by (induction xs) (simp_all add: kids_def)

text \<open>The contract of an encoder and a decoder of the children of an element.\<close>

locale xml_codec =
  fixes enc :: "'a \<Rightarrow> xml list" and dec :: "xml list \<Rightarrow> 'a" and ok :: "'a \<Rightarrow> bool"
  assumes dec_enc: "ok x \<Longrightarrow> dec (enc x) = x"
begin

lemma list_codec: "list_all ok xs \<Longrightarrow> map (dec \<circ> xchildren) (kids item (map (\<lambda>x. Element item [] (enc x)) xs)) = xs"
  by (induction xs) (simp_all add: dec_enc kids_def)

end

named_theorems xml_fields \<open>definitions of the encoders and decoders\<close>

lemmas [xml_fields] = getText_def getStruct_def getList_def

definition Parent_of_xml :: "xml list \<Rightarrow> Parent" where
  [xml_fields]: "Parent_of_xml cs =
     \<lparr>par_GroupID = getText ''groupId'' cs, par_ArtifactID = getText ''artifactId'' cs, par_Version = getText ''version'' cs\<rparr>"

definition Exclusion_of_xml :: "xml list \<Rightarrow> Exclusion" where
  [xml_fields]: "Exclusion_of_xml cs = \<lparr>ex_GroupID = getText ''groupId'' cs, ex_ArtifactID = getText ''artifactId'' cs\<rparr>"

definition Dependency_of_xml :: "xml list \<Rightarrow> Dependency" where
  [xml_fields]: "Dependency_of_xml cs =
     \<lparr>GroupID = getText ''groupId'' cs, ArtifactID = getText ''artifactId'' cs, dep_Version = getText ''version'' cs,
      dep_Type = getText ''type'' cs, Classifier = getText ''classifier'' cs, Scope = getText ''scope'' cs,
      Exclusions = (if kids ''exclusions'' cs = [] then None else Some (getList ''exclusions'' ''exclusion'' Exclusion_of_xml cs))\<rparr>"

lemma xlist_not_Nil [simp]: "xlist k item enc xs \<noteq> []"
  by (simp add: xlist_def)

interpretation xml_Parent: xml_codec Parent_xml Parent_of_xml "\<lambda>_. True"
  by unfold_locales (simp add: xml_fields Parent_xml_def)

interpretation xml_Exclusion: xml_codec Exclusion_xml Exclusion_of_xml "\<lambda>_. True"
  by unfold_locales (simp add: xml_fields Exclusion_xml_def)

interpretation xml_Dependency: xml_codec Dependency_xml Dependency_of_xml "\<lambda>_. True"
proof
  fix d :: Dependency
  show "Dependency_of_xml (Dependency_xml d) = d"
    by (cases "Exclusions d") (simp_all add: xml_fields Dependency_xml_def xml_Exclusion.list_codec)
qed

definition RepositoryPolicy_of_xml :: "xml list \<Rightarrow> RepositoryPolicy" where
  [xml_fields]: "RepositoryPolicy_of_xml cs =
     \<lparr>Enabled = (getText ''enabled'' cs = ''true''), UpdatePolicy = getText ''updatePolicy'' cs,
      ChecksumPolicy = getText ''checksumPolicy'' cs\<rparr>"

lemma xbool_true [simp]: "xbool b = ''true'' \<longleftrightarrow> b"
  by (simp add: xbool_def)

interpretation xml_RepositoryPolicy: xml_codec RepositoryPolicy_xml RepositoryPolicy_of_xml "\<lambda>_. True"
  by unfold_locales (simp add: xml_fields RepositoryPolicy_xml_def)

definition Repository_of_xml :: "xml list \<Rightarrow> Repository" where
  "Repository_of_xml cs =
     \<lparr>repo_ID = getText ''id'' cs, repo_Name = getText ''name'' cs, URL = getText ''url'' cs,
      Snapshots = RepositoryPolicy_of_xml (getStruct ''snapshots'' cs),
      Releases = RepositoryPolicy_of_xml (getStruct ''releases'' cs)\<rparr>"

lemmas xml_reads = getText_def getStruct_def getList_def

interpretation xml_Repository: xml_codec Repository_xml Repository_of_xml "\<lambda>_. True"
  by unfold_locales (simp add: Repository_of_xml_def xml_reads Repository_xml_def xml_RepositoryPolicy.dec_enc)

definition ArtifactItem_of_xml :: "xml list \<Rightarrow> ArtifactItem" where
  "ArtifactItem_of_xml cs =
     \<lparr>ai_GroupID = getText ''groupId'' cs, ai_ArtifactID = getText ''artifactId'' cs, ai_Version = getText ''version'' cs,
      ai_Type = getText ''type'' cs, DestinationFileName = getText ''destFileName'' cs\<rparr>"

interpretation xml_ArtifactItem: xml_codec ArtifactItem_xml ArtifactItem_of_xml "\<lambda>_. True"
  by unfold_locales (simp add: ArtifactItem_of_xml_def xml_reads ArtifactItem_xml_def)

definition PluginConfiguration_of_xml :: "xml list \<Rightarrow> PluginConfiguration" where
  "PluginConfiguration_of_xml cs =
     \<lparr>ArtifactItems = getList ''artifactItems'' ''artifactItem'' ArtifactItem_of_xml cs,
      OutputDirectory = getText ''outputDirectory'' cs, VdbFile = getText ''vdbFile'' cs,
      MaterializationEnable = (getText ''materializationEnable'' cs = ''true''),
      VdbVersion = getText ''vdbVersion'' cs, MaterializationType = getText ''materializationType'' cs\<rparr>"

interpretation xml_PluginConfiguration: xml_codec PluginConfiguration_xml PluginConfiguration_of_xml "\<lambda>_. True"
  by unfold_locales
    (simp add: PluginConfiguration_of_xml_def xml_reads PluginConfiguration_xml_def xml_ArtifactItem.list_codec xcontent_def)

definition Execution_of_xml :: "xml list \<Rightarrow> Execution" where
  "Execution_of_xml cs =
     \<lparr>exec_ID = getText ''id'' cs, exec_Phase = getText ''phase'' cs,
      Goals = map xcontent (kids ''goal'' (getStruct ''goals'' cs)),
      exec_Configuration = PluginConfiguration_of_xml (getStruct ''configuration'' cs)\<rparr>"

lemma goals_codec: "[] \<notin> set gs \<Longrightarrow> map xcontent (kids ''goal'' (concat (map (xopt ''goal'') gs))) = gs"
  by (induction gs) (auto simp: xopt_def xtext_def xcontent_def)

interpretation xml_Execution: xml_codec Execution_xml Execution_of_xml "\<lambda>e. [] \<notin> set (Goals e)"
  by unfold_locales
    (simp add: Execution_of_xml_def xml_reads Execution_xml_def xml_PluginConfiguration.dec_enc goals_codec)

definition Plugin_of_xml :: "xml list \<Rightarrow> Plugin" where
  "Plugin_of_xml cs =
     \<lparr>plug_GroupID = getText ''groupId'' cs, plug_ArtifactID = getText ''artifactId'' cs, plug_Version = getText ''version'' cs,
      Executions = getList ''executions'' ''execution'' Execution_of_xml cs,
      plug_Dependencies = getList ''dependencies'' ''dependency'' Dependency_of_xml cs\<rparr>"

definition ok_Plugin :: "Plugin \<Rightarrow> bool" where
  "ok_Plugin p \<longleftrightarrow> list_all (\<lambda>e. [] \<notin> set (Goals e)) (Executions p)"

interpretation xml_Plugin: xml_codec Plugin_xml Plugin_of_xml ok_Plugin
  by unfold_locales
    (simp add: Plugin_of_xml_def xml_reads Plugin_xml_def ok_Plugin_def xml_Execution.list_codec xml_Dependency.list_codec)

definition ProjectBuild_of_xml :: "xml list \<Rightarrow> ProjectBuild" where
  "ProjectBuild_of_xml cs = \<lparr>DefaultGoal = getText ''defaultGoal'' cs, Plugins = getList ''plugins'' ''plugin'' Plugin_of_xml cs\<rparr>"

interpretation xml_ProjectBuild: xml_codec ProjectBuild_xml ProjectBuild_of_xml "\<lambda>b. list_all ok_Plugin (Plugins b)"
  by unfold_locales (simp add: ProjectBuild_of_xml_def xml_reads ProjectBuild_xml_def xml_Plugin.list_codec)

fun xentry :: "xml \<Rightarrow> (string \<times> string) list" where
  "xentry (Element n as cs) = [(n, xcontent (Element n as cs))]"
| "xentry (CharData s) = []"

definition Properties_of_xml :: "string \<Rightarrow> xml list \<Rightarrow> string gomap" where
  "Properties_of_xml k cs = concat (map xentry (getStruct k cs))"

lemma Properties_codec:
  "[] \<notin> fst ` set m \<Longrightarrow> concat (map xentry (case Properties_xml k m of [] \<Rightarrow> [] | c # _ \<Rightarrow> xchildren c)) = m"
proof -
  assume "[] \<notin> fst ` set m"
  then have "concat (map xentry (concat (map (\<lambda>(k, v). xtext (entryName k) v) m))) = m"
    by (induction m) (auto simp: entryName_def xtext_def xcontent_def image_iff)
  then show ?thesis by (simp add: Properties_xml_def)
qed

definition Project_of_xml :: "xml \<Rightarrow> Project" where
  "Project_of_xml x = (case x of Element n as cs \<Rightarrow>
     \<lparr>XMLName = n, XMLNs = the (map_of as ''xmlns''), XMLNsXsi = the (map_of as ''xmlns:xsi''),
      XsiSchemaLocation = the (map_of as ''xsi:schemaLocation''),
      ModelVersion = getText ''modelVersion'' cs, p_GroupID = getText ''groupId'' cs, p_ArtifactID = getText ''artifactId'' cs,
      p_Version = getText ''version'' cs, Packaging = getText ''packaging'' cs,
      p_Parent = Parent_of_xml (getStruct ''parent'' cs),
      p_Properties = Properties_of_xml ''properties'' cs,
      DependencyManagement = getList ''dependencies'' ''dependency'' Dependency_of_xml (getStruct ''dependencyManagement'' cs),
      p_Dependencies = getList ''dependencies'' ''dependency'' Dependency_of_xml cs,
      Repositories = getList ''repositories'' ''repository'' Repository_of_xml cs,
      PluginRepositories = getList ''pluginRepositories'' ''pluginRepository'' Repository_of_xml cs,
      p_Build = ProjectBuild_of_xml (getStruct ''build'' cs)\<rparr>)"

definition ok_Project :: "Project \<Rightarrow> bool" where
  "ok_Project p \<longleftrightarrow> [] \<notin> fst ` set (p_Properties p) \<and> list_all ok_Plugin (Plugins (p_Build p))"

lemma Project_of_xml_inverse: "ok_Project p \<Longrightarrow> Project_of_xml (Project_xml p) = p"
  by (simp add: Project_of_xml_def xml_reads Project_xml_def ok_Project_def Properties_of_xml_def Properties_codec
      DependencyManagement_xml_def xml_Parent.dec_enc xml_Dependency.list_codec xml_Repository.list_codec
      xml_ProjectBuild.dec_enc)

definition PropertyActivation_of_xml :: "xml list \<Rightarrow> string \<times> string" where
  "PropertyActivation_of_xml cs = (getText ''name'' cs, getText ''value'' cs)"

definition Activation_of_xml :: "xml list \<Rightarrow> Activation" where
  "Activation_of_xml cs =
     \<lparr>ActiveByDefault = (getText ''activeByDefault'' cs = ''true''),
      act_Property = (if kids ''property'' cs = [] then None else Some (PropertyActivation_of_xml (getStruct ''property'' cs)))\<rparr>"

lemma xstruct_not_Nil [simp]: "xstruct k cs \<noteq> []"
  by (simp add: xstruct_def)

interpretation xml_Activation: xml_codec Activation_xml Activation_of_xml "\<lambda>_. True"
proof
  fix a :: Activation
  show "Activation_of_xml (Activation_xml a) = a"
    by (cases "act_Property a")
      (simp_all add: Activation_of_xml_def Activation_xml_def PropertyActivation_of_xml_def PropertyActivation_xml_def xml_reads)
qed

definition Profile_of_xml :: "xml list \<Rightarrow> Profile" where
  "Profile_of_xml cs =
     \<lparr>prof_ID = getText ''id'' cs, prof_Activation = Activation_of_xml (getStruct ''activation'' cs),
      prof_Properties = Properties_of_xml ''properties'' cs,
      prof_Repositories = getList ''repositories'' ''repository'' Repository_of_xml cs,
      prof_PluginRepositories = getList ''pluginRepositories'' ''pluginRepository'' Repository_of_xml cs\<rparr>"

interpretation xml_Profile: xml_codec Profile_xml Profile_of_xml "\<lambda>p. [] \<notin> fst ` set (prof_Properties p)"
  by unfold_locales
    (simp add: Profile_of_xml_def Profile_xml_def xml_reads xml_Activation.dec_enc Properties_of_xml_def Properties_codec
      xml_Repository.list_codec)

definition Settings_of_xml :: "xml \<Rightarrow> Settings" where
  "Settings_of_xml x = (case x of Element n as cs \<Rightarrow>
     \<lparr>set_XMLName = n, set_XMLNs = the (map_of as ''xmlns''), set_XMLNsXsi = the (map_of as ''xmlns:xsi''),
      set_XsiSchemaLocation = the (map_of as ''xsi:schemaLocation''),
      LocalRepository = getText ''localRepository'' cs, Profiles = getList ''profiles'' ''profile'' Profile_of_xml cs\<rparr>)"

lemma Settings_of_xml_inverse:
  "list_all (\<lambda>p. [] \<notin> fst ` set (prof_Properties p)) (Profiles s) \<Longrightarrow> Settings_of_xml (Settings_xml s) = s"
  by (simp add: Settings_of_xml_def xml_reads Settings_xml_def xml_Profile.list_codec)

text \<open>\<open>parseMavenMetadata\<close> over the parser of documents. The element of the document is not checked.\<close>

definition SnapshotVersion_of_xml :: "xml list \<Rightarrow> SnapshotVersion" where
  "SnapshotVersion_of_xml cs =
     \<lparr>Extension = getText ''extension'' cs, sv_Value = getText ''value'' cs, Updated = getText ''updated'' cs\<rparr>"

definition Snapshot_of_xml :: "xml list \<Rightarrow> Snapshot" where
  "Snapshot_of_xml cs = \<lparr>snap_Timestamp = getText ''timestamp'' cs, snap_BuildNumber = getText ''buildNumber'' cs\<rparr>"

definition Versioning_of_xml :: "xml list \<Rightarrow> Versioning" where
  "Versioning_of_xml cs =
     \<lparr>ver_Snapshot = Snapshot_of_xml (getStruct ''snapshot'' cs), LastUpdated = getText ''lastUpdated'' cs,
      SnapshotVersions = getList ''snapshotVersions'' ''snapshotVersion'' SnapshotVersion_of_xml cs\<rparr>"

definition Metadata_of_xml :: "xml list \<Rightarrow> Metadata" where
  "Metadata_of_xml cs =
     \<lparr>meta_GroupID = getText ''groupId'' cs, meta_ArtifactID = getText ''artifactId'' cs, meta_Version = getText ''version'' cs,
      meta_Versioning = Versioning_of_xml (getStruct ''versioning'' cs)\<rparr>"

definition parseMavenMetadata :: "(string \<Rightarrow> error + xml) \<Rightarrow> string \<Rightarrow> Metadata \<times> error option" where
  "parseMavenMetadata unmarshal contents =
     (case unmarshal contents of
        Inl e \<Rightarrow> (Metadata_of_xml [], Some e)
      | Inr x \<Rightarrow> (Metadata_of_xml (xchildren x), None))"

section \<open>The encoder of properties writes the element\<close>

text \<open>The tokens of an element, and an encoder that collects tokens.\<close>

fun tokens :: "xml \<Rightarrow> XmlToken list" where
  "tokens (CharData s) = [Chars s]"
| "tokens (Element n as cs) = StartElement n # concat (map tokens cs) @ [EndElement n]"

definition bufferToken :: "XmlToken \<Rightarrow> XmlToken list \<Rightarrow> (error + unit) \<times> XmlToken list" where
  "bufferToken t w = (Inr (), w @ [t])"

definition bufferEntry :: "propertiesEntry \<Rightarrow> XmlToken list \<Rightarrow> (error + unit) \<times> XmlToken list" where
  "bufferEntry e w = (Inr (), w @ concat (map tokens (xtext (entryName (entry_XMLName e)) (entry_Value e))))"

lemma entries_tokens:
  "forM m (\<lambda>(k, v). callM (bufferEntry \<lparr>entry_XMLName = k, entry_Value = v\<rparr>)) w =
     (Ok (), w @ concat (map tokens (concat (map (\<lambda>(k, v). xtext (entryName k) v) m))))"
  by (induction m arbitrary: w) (auto simp: monad_defs bufferEntry_def Let_def)

lemma Properties_MarshalXML_tokens:
  "Properties_MarshalXML bufferToken bufferEntry m k w = (Ok (), w @ concat (map tokens (Properties_xml k m)))"
  by (simp add: Properties_MarshalXML_def Properties_xml_def bindM_def callM_def bufferToken_def entries_tokens)
    (simp add: returnM_def)

text \<open>The first error of the encoder is the error of the whole.\<close>

lemma Properties_MarshalXML_error:
  "m \<noteq> [] \<Longrightarrow> encodeToken (StartElement k) w = (Inl e, w') \<Longrightarrow> Properties_MarshalXML encodeToken encode m k w = (Fail e, w')"
  by (simp add: Properties_MarshalXML_def bindM_def callM_def)

end
