(* ===== verification/Xml_Text.thy ===== *)
theory Xml_Text
  imports Maven_Xml
begin

text \<open>
  The text of XML documents as \<open>EncodeXML\<close> of \<open>pkg/util/maven/maven.go\<close> writes it: \<open>encoding/xml\<close> with two blanks
  of indentation and its escapes. A reader that splits such a text into tags and texts gets back the tags and texts
  of the elements, whatever the texts contain, so no text is ever read as markup. Strings are bytes, and the
  bytes from 128 on are taken to be valid UTF-8, which is written as it is.
\<close>

section \<open>Escapes\<close>

abbreviation newline :: char where
  "newline \<equiv> CHR 0x0A"

definition entities :: "(string \<times> char) list" where
  "entities =
     [(''&#34;'', CHR 0x22), (''&#39;'', CHR 0x27), (''&amp;'', CHR ''&''), (''&lt;'', CHR ''<''), (''&gt;'', CHR ''>''),
      (''&#x9;'', CHR 0x09), (''&#xA;'', CHR 0x0A), (''&#xD;'', CHR 0x0D)]"

text \<open>A character XML does not have is written as U+FFFD.\<close>

definition escapeChar :: "char \<Rightarrow> string" where
  "escapeChar c =
     (case find (\<lambda>(e, d). d = c) entities of
        Some (e, _) \<Rightarrow> e
      | None \<Rightarrow> if (of_char c :: nat) < 32 then [CHR 0xEF, CHR 0xBF, CHR 0xBD] else [c])"

definition EscapeText :: "string \<Rightarrow> string" where
  "EscapeText s = concat (map escapeChar s)"

definition printable :: "string \<Rightarrow> bool" where
  "printable s \<longleftrightarrow> list_all (\<lambda>c. 32 \<le> (of_char c :: nat) \<or> c \<in> {CHR 0x09, CHR 0x0A, CHR 0x0D}) s"

function unescape :: "string \<Rightarrow> string" where
  "unescape s =
     (if s = [] then []
      else case find (\<lambda>(e, d). prefix e s) entities of
        Some (e, d) \<Rightarrow> d # unescape (drop (length e) s)
      | None \<Rightarrow> hd s # unescape (tl s))"
  by auto

termination
  by (relation "measure length") (auto simp: entities_def split: if_splits)

declare unescape.simps [simp del]

lemma unescape_Nil [simp]: "unescape [] = []"
  by (simp add: unescape.simps)

lemma unescape_entity:
  assumes "(e, c) \<in> set entities"
  shows "unescape (e @ t) = c # unescape t"
proof -
  have "find (\<lambda>(e', d). prefix e' (e @ t)) entities = Some (e, c)" and "e \<noteq> []"
    using assms unfolding entities_def set_simps insert_iff empty_iff Pair_inject by (elim disjE; simp)+
  then show ?thesis by (subst unescape.simps) simp
qed

lemma unescape_plain:
  assumes "c \<noteq> CHR ''&''"
  shows "unescape (c # t) = c # unescape t"
proof -
  have "find (\<lambda>(e, d). prefix e (c # t)) entities = None"
    using assms by (simp add: entities_def)
  then show ?thesis by (subst unescape.simps) simp
qed

lemma unescape_escapeChar:
  assumes "printable [c]"
  shows "unescape (escapeChar c @ t) = c # unescape t"
proof (cases "find (\<lambda>(e, d). d = c) entities")
  case None
  then have "c \<noteq> CHR ''&''" "c \<notin> {CHR 0x09, CHR 0x0A, CHR 0x0D}" by (auto simp: entities_def split: if_splits)
  with None assms show ?thesis by (simp add: escapeChar_def printable_def unescape_plain)
next
  case (Some p)
  then obtain e where "p = (e, c)" "(e, c) \<in> set entities" by (auto dest: find_SomeD)
  with Some show ?thesis by (simp add: escapeChar_def unescape_entity)
qed

text \<open>Escaping is undone by reading the entities.\<close>

lemma unescape_EscapeText: "printable s \<Longrightarrow> unescape (EscapeText s) = s"
  by (induction s) (simp_all add: EscapeText_def unescape_escapeChar printable_def)

lemma escapeChar_safe: "set (escapeChar c) \<inter> {CHR ''<'', CHR ''>'', CHR 0x22, CHR 0x27, newline} = {}"
  by (auto simp: escapeChar_def entities_def split: if_splits)

lemma EscapeText_safe: "set (EscapeText s) \<inter> {CHR ''<'', CHR ''>'', CHR 0x22, CHR 0x27, newline} = {}"
  using escapeChar_safe by (auto simp: EscapeText_def)

lemma EscapeText_Nil: "EscapeText s = [] \<longleftrightarrow> s = []"
  by (cases s) (auto simp: EscapeText_def escapeChar_def entities_def)

section \<open>Printing\<close>

definition spaces :: "nat \<Rightarrow> string" where
  "spaces d = replicate (2 * d) CHR '' ''"

definition attribute :: "string \<times> string \<Rightarrow> string" where
  "attribute kv = '' '' @ fst kv @ ''='' @ [CHR 0x22] @ EscapeText (snd kv) @ [CHR 0x22]"

definition startTag :: "string \<Rightarrow> (string \<times> string) list \<Rightarrow> string" where
  "startTag n as = n @ concat (map attribute as)"

fun isElement :: "xml \<Rightarrow> bool" where
  "isElement (Element n as cs) \<longleftrightarrow> True"
| "isElement (CharData s) \<longleftrightarrow> False"

text \<open>An element is closed on a line of its own when the last thing written was an element.\<close>

fun render :: "nat \<Rightarrow> xml \<Rightarrow> string" where
  "render d (CharData s) = EscapeText s"
| "render d (Element n as cs) =
     ''<'' @ startTag n as @ ''>'' @
     concat (map (\<lambda>c. (if isElement c then newline # spaces (Suc d) else []) @ render (Suc d) c) cs) @
     (if cs \<noteq> [] \<and> isElement (last cs) then newline # spaces d else []) @
     ''</'' @ n @ ''>''"

definition printXml :: "xml \<Rightarrow> string" where
  "printXml x = render 0 x"

section \<open>Reading\<close>

definition readTag :: "string \<Rightarrow> XmlToken" where
  "readTag t = (case t of [] \<Rightarrow> StartElement [] | c # n \<Rightarrow> if c = CHR ''/'' then EndElement n else StartElement t)"

text \<open>Indentation starts with a line break, which escaped text does not contain.\<close>

function lex :: "string \<Rightarrow> XmlToken list" where
  "lex s =
     (case s of
        [] \<Rightarrow> []
      | c # cs \<Rightarrow>
          if c = CHR ''<'' then readTag (takeWhile (\<lambda>x. x \<noteq> CHR ''>'') cs) # lex (tl (dropWhile (\<lambda>x. x \<noteq> CHR ''>'') cs))
          else (if c = newline then [] else [Chars (unescape (takeWhile (\<lambda>x. x \<noteq> CHR ''<'') s))]) @
               lex (dropWhile (\<lambda>x. x \<noteq> CHR ''<'') cs))"
  by auto

termination
proof (relation "measure length", goal_cases)
  case (2 s c cs)
  have "length (tl (dropWhile (\<lambda>x. x \<noteq> CHR ''>'') cs)) \<le> length cs"
    by (metis diff_le_self le_trans length_dropWhile_le length_tl)
  with 2 show ?case by simp
next
  case (3 s c cs)
  then show ?case by (simp add: le_imp_less_Suc length_dropWhile_le)
qed simp

declare lex.simps [simp del]

lemma lex_Nil [simp]: "lex [] = []"
  by (simp add: lex.simps)

lemma until: "c \<notin> set t \<Longrightarrow> takeWhile (\<lambda>x. x \<noteq> c) (t @ c # ws) = t" "c \<notin> set t \<Longrightarrow> dropWhile (\<lambda>x. x \<noteq> c) (t @ c # ws) = c # ws"
  by (induction t) auto

lemma lex_tag: "CHR ''>'' \<notin> set t \<Longrightarrow> lex (CHR ''<'' # t @ CHR ''>'' # ws) = readTag t # lex ws"
  by (subst lex.simps) (simp add: until)

lemma lex_indent: "lex (newline # spaces d @ CHR ''<'' # ws) = lex (CHR ''<'' # ws)"
proof -
  have "CHR ''<'' \<notin> set (spaces d)" by (simp add: spaces_def)
  from until(2) [OF this] show ?thesis by (subst lex.simps) simp
qed

lemma lex_text:
  assumes "s \<noteq> []" and "printable s"
  shows "lex (EscapeText s @ CHR ''<'' # ws) = Chars s # lex (CHR ''<'' # ws)"
proof -
  obtain c cs where e: "EscapeText s = c # cs" using assms(1) EscapeText_Nil [of s] by (cases "EscapeText s") auto
  have safe: "CHR ''<'' \<notin> set (c # cs)" "CHR ''<'' \<notin> set cs" "c \<noteq> newline" "c \<noteq> CHR ''<''"
    using EscapeText_safe [of s] e by auto
  then have "lex ((c # cs) @ CHR ''<'' # ws) = Chars (unescape (c # cs)) # lex (CHR ''<'' # ws)"
    by (subst lex.simps) (simp add: until)
  then show ?thesis using e unescape_EscapeText [OF assms(2)] by simp
qed

section \<open>Printing and splitting\<close>

text \<open>The tags and texts of an element.\<close>

fun textTokens :: "xml \<Rightarrow> XmlToken list" where
  "textTokens (CharData s) = [Chars s]"
| "textTokens (Element n as cs) = StartElement (startTag n as) # concat (map textTokens cs) @ [EndElement n]"

definition good_name :: "string \<Rightarrow> bool" where
  "good_name n \<longleftrightarrow> n \<noteq> [] \<and> list_all (\<lambda>c. c \<notin> set ''<>/= '') n"

text \<open>An element holds elements, or one text that is not empty.\<close>

fun shaped :: "xml \<Rightarrow> bool" where
  "shaped (CharData s) \<longleftrightarrow> False"
| "shaped (Element n as cs) \<longleftrightarrow> good_name n \<and> list_all (good_name \<circ> fst) as \<and>
     (case cs of [CharData s] \<Rightarrow> s \<noteq> [] | _ \<Rightarrow> list_all shaped cs)"

fun printable_xml :: "xml \<Rightarrow> bool" where
  "printable_xml (CharData s) \<longleftrightarrow> printable s"
| "printable_xml (Element n as cs) \<longleftrightarrow> list_all (printable \<circ> snd) as \<and> list_all printable_xml cs"

lemma shaped_isElement: "shaped x \<Longrightarrow> isElement x"
  by (cases x) simp_all

lemma shaped_children: "shaped (Element n as cs) \<Longrightarrow> (\<exists>s. cs = [CharData s] \<and> s \<noteq> []) \<or> list_all shaped cs"
  by (cases cs; cases "hd cs"; cases "tl cs") auto

lemma render_starts: "isElement x \<Longrightarrow> \<exists>t. render d x = CHR ''<'' # t"
  by (cases x) simp_all

lemma good_nameD: "good_name n \<Longrightarrow> c \<in> set ''<>/= '' \<Longrightarrow> c \<notin> set n"
  by (auto simp: good_name_def list_all_iff)

lemma startTag_closed:
  assumes "good_name n" and "list_all (good_name \<circ> fst) as"
  shows "CHR ''>'' \<notin> set (startTag n as)" and "readTag (startTag n as) = StartElement (startTag n as)"
proof -
  have "CHR ''>'' \<notin> set (attribute kv)" if "good_name (fst kv)" for kv
    using EscapeText_safe [of "snd kv"] good_nameD [OF that, of "CHR ''>''"] by (auto simp: attribute_def)
  then show "CHR ''>'' \<notin> set (startTag n as)"
    using assms good_nameD [OF assms(1), of "CHR ''>''"] by (auto simp: startTag_def list_all_iff)
  obtain c m where "n = c # m" "c \<noteq> CHR ''/''"
    using assms(1) good_nameD [OF assms(1), of "CHR ''/''"] by (cases n) (auto simp: good_name_def)
  then show "readTag (startTag n as) = StartElement (startTag n as)"
    by (simp add: startTag_def readTag_def)
qed

lemma lex_endTag: "good_name n \<Longrightarrow> lex (''</'' @ n @ ''>'' @ ws) = EndElement n # lex ws"
  using lex_tag [of "CHR ''/'' # n" ws] good_nameD [of n "CHR ''>''"] by (simp add: readTag_def)

lemma lex_children:
  assumes "list_all isElement cs"
    and "\<And>c ws. c \<in> set cs \<Longrightarrow> lex (render d c @ ws) = textTokens c @ lex ws"
  shows "lex (concat (map (\<lambda>c. (if isElement c then newline # spaces d else []) @ render d c) cs) @ ws) =
    concat (map textTokens cs) @ lex ws"
  using assms
proof (induction cs)
  case (Cons c cs)
  obtain t where t: "render d c = CHR ''<'' # t" using Cons.prems(1) render_starts by auto
  have "lex (newline # spaces d @ render d c @ us) = lex (render d c @ us)" for us
    using lex_indent [of d "t @ us"] by (simp add: t)
  with Cons show ?case by simp
qed simp

lemma lex_closing:
  assumes "good_name n"
  shows "lex ((if b then newline # spaces d else []) @ ''</'' @ n @ ''>'' @ ws) = EndElement n # lex ws"
  using lex_endTag [OF assms, of ws] lex_indent [of d "CHR ''/'' # n @ ''>'' @ ws"] by (cases b) simp_all

lemma lex_render:
  "shaped x \<Longrightarrow> printable_xml x \<Longrightarrow> lex (render d x @ ws) = textTokens x @ lex ws"
proof (induction x arbitrary: d ws)
  case (Element n as cs)
  then have names: "good_name n" "list_all (good_name \<circ> fst) as" by simp_all
  let ?tail = "(if cs \<noteq> [] \<and> isElement (last cs) then newline # spaces d else []) @ ''</'' @ n @ ''>'' @ ws"
  have body: "lex (concat (map (\<lambda>c. (if isElement c then newline # spaces (Suc d) else []) @ render (Suc d) c) cs) @ ?tail) =
      concat (map textTokens cs) @ lex ?tail"
    using shaped_children [OF Element.prems(1)]
  proof
    assume "\<exists>s. cs = [CharData s] \<and> s \<noteq> []"
    then obtain s where s: "cs = [CharData s]" "s \<noteq> []" by blast
    with Element.prems have "printable s" by simp
    from lex_text [OF s(2) this, of "CHR ''/'' # n @ ''>'' @ ws"] s show ?thesis by simp
  next
    assume "list_all shaped cs"
    with Element show ?thesis
      by (intro lex_children) (auto simp: list_all_iff shaped_isElement)
  qed
  have "lex (render d (Element n as cs) @ ws) = StartElement (startTag n as) #
      lex (concat (map (\<lambda>c. (if isElement c then newline # spaces (Suc d) else []) @ render (Suc d) c) cs) @ ?tail)"
    using lex_tag [OF startTag_closed(1) [OF names]] startTag_closed(2) [OF names] by simp
  also have "\<dots> = StartElement (startTag n as) # concat (map textTokens cs) @ EndElement n # lex ws"
    by (simp only: body lex_closing [OF names(1)])
  finally show ?case by simp
qed simp

section \<open>Reading documents\<close>

text \<open>The attributes of a tag.\<close>

function readAttributes :: "string \<Rightarrow> (string \<times> string) list" where
  "readAttributes s =
     (case s of
        [] \<Rightarrow> []
      | _ # t \<Rightarrow>
          (let k = takeWhile (\<lambda>x. x \<noteq> CHR ''='') t;
               t = drop 2 (dropWhile (\<lambda>x. x \<noteq> CHR ''='') t);
               v = takeWhile (\<lambda>x. x \<noteq> CHR 0x22) t in
           (k, unescape v) # readAttributes (tl (dropWhile (\<lambda>x. x \<noteq> CHR 0x22) t))))"
  by auto

termination
proof (relation "measure length", goal_cases)
  case (2 s c t k u v)
  have "length u \<le> length t"
    using 2(3) length_dropWhile_le [of "\<lambda>x. x \<noteq> CHR ''=''" t] by simp
  moreover have "length (tl (dropWhile (\<lambda>x. x \<noteq> CHR 0x22) u)) \<le> length u"
    by (metis diff_le_self le_trans length_dropWhile_le length_tl)
  ultimately show ?case using 2(1) by simp
qed simp

declare readAttributes.simps [simp del]

lemma readAttributes_Nil [simp]: "readAttributes [] = []"
  by (simp add: readAttributes.simps)

lemma readAttributes_attribute:
  assumes "good_name (fst kv)" and "printable (snd kv)"
  shows "readAttributes (attribute kv @ t) = kv # readAttributes t"
proof -
  have "CHR ''='' \<notin> set (fst kv)" using good_nameD [OF assms(1), of "CHR ''=''"] by simp
  moreover have "CHR 0x22 \<notin> set (EscapeText (snd kv))" using EscapeText_safe [of "snd kv"] by auto
  ultimately show ?thesis
    using unescape_EscapeText [OF assms(2)]
    by (subst readAttributes.simps) (simp add: attribute_def until Let_def)
qed

lemma readAttributes_all:
  "list_all (good_name \<circ> fst) as \<Longrightarrow> list_all (printable \<circ> snd) as \<Longrightarrow> readAttributes (concat (map attribute as)) = as"
  by (induction as) (simp_all add: readAttributes_attribute)

definition tagName :: "string \<Rightarrow> string" where
  "tagName t = takeWhile (\<lambda>x. x \<noteq> CHR '' '') t"

definition tagAttributes :: "string \<Rightarrow> (string \<times> string) list" where
  "tagAttributes t = readAttributes (dropWhile (\<lambda>x. x \<noteq> CHR '' '') t)"

lemma tag_parts:
  assumes "good_name n" and "list_all (good_name \<circ> fst) as" and "list_all (printable \<circ> snd) as"
  shows "tagName (startTag n as) = n" "tagAttributes (startTag n as) = as"
proof -
  have n: "CHR '' '' \<notin> set n" using good_nameD [OF assms(1), of "CHR '' ''"] by simp
  have "tagName (startTag n as) = n \<and> dropWhile (\<lambda>x. x \<noteq> CHR '' '') (startTag n as) = concat (map attribute as)"
  proof (cases as)
    case Nil
    from n have "takeWhile (\<lambda>x. x \<noteq> CHR '' '') n = n" and "dropWhile (\<lambda>x. x \<noteq> CHR '' '') n = []"
      by (auto simp: takeWhile_eq_all_conv dropWhile_eq_Nil_conv)
    with Nil show ?thesis by (simp add: tagName_def startTag_def)
  next
    case (Cons kv rs)
    then show ?thesis using until [OF n] by (simp add: tagName_def startTag_def attribute_def)
  qed
  then show "tagName (startTag n as) = n" "tagAttributes (startTag n as) = as"
    by (simp_all add: tagAttributes_def readAttributes_all [OF assms(2,3)])
qed

text \<open>A stack of open tags, each with the children before it in its parent; an end tag closes the innermost.\<close>

fun buildXml :: "(string \<times> xml list) list \<Rightarrow> xml list \<Rightarrow> XmlToken list \<Rightarrow> xml list option" where
  "buildXml [] acc [] = Some (rev acc)"
| "buildXml (f # st) acc [] = None"
| "buildXml st acc (StartElement t # ts) = buildXml ((t, acc) # st) [] ts"
| "buildXml st acc (Chars s # ts) = buildXml st (CharData s # acc) ts"
| "buildXml [] acc (EndElement n # ts) = None"
| "buildXml ((t, before) # st) acc (EndElement n # ts) =
     (if tagName t = n then buildXml st (Element n (tagAttributes t) (rev acc) # before) ts else None)"

fun names_ok :: "xml \<Rightarrow> bool" where
  "names_ok (CharData s) \<longleftrightarrow> True"
| "names_ok (Element n as cs) \<longleftrightarrow>
     good_name n \<and> list_all (good_name \<circ> fst) as \<and> list_all (printable \<circ> snd) as \<and> list_all names_ok cs"

lemma shaped_names: "shaped x \<Longrightarrow> printable_xml x \<Longrightarrow> names_ok x"
proof (induction x)
  case (Element n as cs)
  from shaped_children [OF Element.prems(1)] have "list_all names_ok cs"
    using Element by (auto simp: list_all_iff)
  with Element.prems show ?case by simp
qed simp

lemma buildXml_children:
  assumes "\<And>x st acc ts. x \<in> set xs \<Longrightarrow> buildXml st acc (textTokens x @ ts) = buildXml st (x # acc) ts"
  shows "buildXml st acc (concat (map textTokens xs) @ ts) = buildXml st (rev xs @ acc) ts"
  using assms by (induction xs arbitrary: acc) simp_all

lemma buildXml_tokens:
  "names_ok x \<Longrightarrow> buildXml st acc (textTokens x @ ts) = buildXml st (x # acc) ts"
proof (induction x arbitrary: st acc ts)
  case (Element n as cs)
  then have names: "good_name n" "list_all (good_name \<circ> fst) as" "list_all (printable \<circ> snd) as" by simp_all
  have "buildXml ((startTag n as, acc) # st) [] (concat (map textTokens cs) @ EndElement n # ts) =
      buildXml ((startTag n as, acc) # st) (rev cs @ []) (EndElement n # ts)"
    using Element by (intro buildXml_children) (auto simp: list_all_iff)
  then show ?case using tag_parts [OF names] by simp
qed simp

text \<open>A document is one element.\<close>

definition readXml :: "string \<Rightarrow> xml option" where
  "readXml s = (case buildXml [] [] (lex s) of Some [x] \<Rightarrow> Some x | _ \<Rightarrow> None)"

lemma readXml_printXml: "shaped x \<Longrightarrow> printable_xml x \<Longrightarrow> readXml (printXml x) = Some x"
  using lex_render [of x 0 "[]"] buildXml_tokens [OF shaped_names, of x "[]" "[]" "[]"]
  by (simp add: readXml_def printXml_def)

end
