(* ===== verification/Pom_Document.thy ===== *)
theory Pom_Document
  imports Xml_Text Service_Image
begin

text \<open>
  The \<open>pom.xml\<close> of a build as a document: the project that \<open>pom.go\<close> generates, through the elements of
  \<open>Maven_Xml\<close> and the text of \<open>Xml_Text\<close>, up to the file that a build gets (\<open>build_document\<close>), and the settings that
  a build gets by default.
\<close>

section \<open>The shape of project documents\<close>

lemma shaped_Element:
  "good_name n \<Longrightarrow> list_all (good_name \<circ> fst) as \<Longrightarrow> list_all shaped cs \<Longrightarrow> shaped (Element n as cs)"
  by (cases cs; cases "hd cs"; cases "tl cs") auto

lemma shaped_fields [simp]:
  "list_all shaped (xtext k s) \<longleftrightarrow> good_name k"
  "good_name k \<Longrightarrow> list_all shaped (xopt k s)"
  by (simp_all add: xtext_def xopt_def)

declare shaped.simps(2) [simp del]

lemma shaped_nested [simp]:
  "good_name k \<Longrightarrow> list_all shaped cs \<Longrightarrow> list_all shaped (xstruct k cs)"
  "good_name k \<Longrightarrow> good_name item \<Longrightarrow> (\<And>x. list_all shaped (enc x)) \<Longrightarrow> list_all shaped (xlist k item enc xs)"
  by (auto simp: xstruct_def xlist_def list_all_iff intro!: shaped_Element)

lemma shaped_concat: "(\<And>x. x \<in> set xs \<Longrightarrow> list_all shaped (f x)) \<Longrightarrow> list_all shaped (concat (map f xs))"
  by (auto simp: list_all_iff)

named_theorems shaped_structs \<open>the elements of each struct have a proper shape\<close>

lemma shaped_Dependency [shaped_structs]: "list_all shaped (Dependency_xml d)"
  by (simp add: Dependency_xml_def Exclusion_xml_def good_name_def split: option.split)

lemma shaped_Repository [shaped_structs]: "list_all shaped (Repository_xml r)"
  by (simp add: Repository_xml_def RepositoryPolicy_xml_def good_name_def)

lemma shaped_PluginConfiguration [shaped_structs]: "list_all shaped (PluginConfiguration_xml c)"
  by (simp add: PluginConfiguration_xml_def ArtifactItem_xml_def good_name_def)

lemma shaped_Execution [shaped_structs]: "list_all shaped (Execution_xml e)"
  by (simp add: Execution_xml_def good_name_def shaped_structs shaped_concat)

lemma shaped_Plugin [shaped_structs]: "list_all shaped (Plugin_xml p)"
  by (simp add: Plugin_xml_def good_name_def shaped_structs)

lemma shaped_ProjectBuild [shaped_structs]: "list_all shaped (ProjectBuild_xml b)"
  by (simp add: ProjectBuild_xml_def good_name_def shaped_structs)

lemma shaped_Properties [shaped_structs]:
  assumes "good_name k" and "list_all (good_name \<circ> fst) m"
  shows "list_all shaped (Properties_xml k m)"
proof -
  have "list_all shaped ((\<lambda>(k, v). xtext (entryName k) v) e)" if "e \<in> set m" for e
  proof -
    have "good_name (fst e)" using assms(2) that by (simp add: list_all_iff)
    moreover from this have "fst e \<noteq> []" by (auto simp only: good_name_def)
    ultimately show ?thesis by (cases e) (simp add: entryName_def)
  qed
  then have "list_all shaped (concat (map (\<lambda>(k, v). xtext (entryName k) v) m))" by (rule shaped_concat)
  then show ?thesis using shaped_nested(1) [OF assms(1)] by (simp add: Properties_xml_def xstruct_def)
qed

text \<open>The names that are not fixed by the tags are those of the root and of the properties.\<close>

definition named_Project :: "Project \<Rightarrow> bool" where
  "named_Project p \<longleftrightarrow> good_name (XMLName p) \<and> list_all (good_name \<circ> fst) (p_Properties p)"

lemma shaped_Project: "named_Project p \<Longrightarrow> shaped (Project_xml p)"
  unfolding Project_xml_def named_Project_def
  by (intro shaped_Element)
    (simp_all add: good_name_def Parent_xml_def DependencyManagement_xml_def shaped_structs)

lemma project_document:
  assumes "named_Project p" and "ok_Project p" and "printable_xml (Project_xml p)"
  shows "map_option Project_of_xml (readXml (printXml (Project_xml p))) = Some p"
  using readXml_printXml [OF shaped_Project [OF assms(1)] assms(3)] Project_of_xml_inverse [OF assms(2)] by simp

text \<open>The settings that a build gets when the namespace has none of its own.\<close>

lemma shaped_Profile [shaped_structs]:
  "list_all (good_name \<circ> fst) (prof_Properties p) \<Longrightarrow> list_all shaped (Profile_xml p)"
  by (simp add: Profile_xml_def Activation_xml_def PropertyActivation_xml_def good_name_def shaped_structs split: option.split)

lemma shaped_NewDefaultSettings: "shaped (Settings_xml (NewDefaultSettings rs))"
  unfolding Settings_xml_def
  by (intro shaped_Element) (simp_all add: NewDefaultSettings_def NewSettings_def good_name_def xlist_def shaped_Element shaped_structs)

lemma default_settings_document:
  assumes "printable_xml (Settings_xml (NewDefaultSettings rs))"
  shows "map_option Settings_of_xml (readXml (printXml (Settings_xml (NewDefaultSettings rs)))) = Some (NewDefaultSettings rs)"
  using readXml_printXml [OF shaped_NewDefaultSettings assms]
  by (simp add: Settings_of_xml_inverse NewDefaultSettings_def)

section \<open>Generated projects\<close>

lemma grows_frame:
  "grows p q \<Longrightarrow> XMLName q = XMLName p \<and> p_Properties q = p_Properties p \<and> p_Build q = p_Build p"
proof -
  have "XMLName (AddDependencies ds p) = XMLName p \<and> p_Properties (AddDependencies ds p) = p_Properties p" for ds
    unfolding AddDependencies_def by (induction ds arbitrary: p) (simp_all add: AddDependency_def)
  then show "grows p q \<Longrightarrow> ?thesis" by (auto simp: grows_def AddDependencies_frame)
qed

text \<open>
  The project of \<open>TestPomGeneration\<close> in \<open>maven_test.go\<close> and the text the test expects of it; \<open>~\<close> stands for a
  quotation mark.
\<close>

definition testRepository :: Repository where
  "testRepository =
     \<lparr>repo_ID = ''central'', repo_Name = [], URL = ''https://repo.maven.apache.org/maven2'',
      Snapshots = emptyPolicy, Releases = emptyPolicy\<lparr>Enabled := True, UpdatePolicy := ''never''\<rparr>\<rparr>"

definition testProject :: Project where
  "testProject =
     \<lparr>XMLName = ''project'', XMLNs = ''http://maven.apache.org/POM/4.0.0'',
      XMLNsXsi = ''http://www.w3.org/2001/XMLSchema-instance'',
      XsiSchemaLocation = ''http://maven.apache.org/POM/4.0.0 http://maven.apache.org/xsd/maven-4.0.0.xsd'',
      ModelVersion = ''4.0.0'', p_GroupID = ''org.apache.camel.k.integration'', p_ArtifactID = ''camel-k-integration'',
      p_Version = ''1.0.0'', Packaging = ''jar'',
      p_Parent = \<lparr>par_GroupID = ''org.basepom'', par_ArtifactID = ''basepom-oss'', par_Version = ''30''\<rparr>,
      p_Properties = [],
      DependencyManagement =
        [(gavDependency ''org.apache.camel'' ''camel-bom'' ''2.22.1'')\<lparr>dep_Type := ''pom'', Scope := ''import''\<rparr>],
      p_Dependencies = [gavDependency ''org.apache.camel.k'' ''camel-k-runtime-jvm'' ''1.0.0''],
      Repositories = [testRepository], PluginRepositories = [testRepository],
      p_Build = \<lparr>DefaultGoal = [], Plugins = []\<rparr>\<rparr>"

definition expectedPom :: string where
  "expectedPom = map (\<lambda>c. if c = CHR ''~'' then CHR 0x22 else c) (Join
     [''<?xml version=~1.0~ encoding=~UTF-8~?>'',
      ''<project xmlns=~http://maven.apache.org/POM/4.0.0~ xmlns:xsi=~http://www.w3.org/2001/XMLSchema-instance~ '' @
        ''xsi:schemaLocation=~http://maven.apache.org/POM/4.0.0 http://maven.apache.org/xsd/maven-4.0.0.xsd~>'',
      ''  <modelVersion>4.0.0</modelVersion>'',
      ''  <groupId>org.apache.camel.k.integration</groupId>'',
      ''  <artifactId>camel-k-integration</artifactId>'',
      ''  <version>1.0.0</version>'',
      ''  <packaging>jar</packaging>'',
      ''  <parent>'',
      ''    <groupId>org.basepom</groupId>'',
      ''    <artifactId>basepom-oss</artifactId>'',
      ''    <version>30</version>'',
      ''  </parent>'',
      ''  <dependencyManagement>'',
      ''    <dependencies>'',
      ''      <dependency>'',
      ''        <groupId>org.apache.camel</groupId>'',
      ''        <artifactId>camel-bom</artifactId>'',
      ''        <version>2.22.1</version>'',
      ''        <type>pom</type>'',
      ''        <scope>import</scope>'',
      ''      </dependency>'',
      ''    </dependencies>'',
      ''  </dependencyManagement>'',
      ''  <dependencies>'',
      ''    <dependency>'',
      ''      <groupId>org.apache.camel.k</groupId>'',
      ''      <artifactId>camel-k-runtime-jvm</artifactId>'',
      ''      <version>1.0.0</version>'',
      ''    </dependency>'',
      ''  </dependencies>'',
      ''  <repositories>'',
      ''    <repository>'',
      ''      <id>central</id>'',
      ''      <url>https://repo.maven.apache.org/maven2</url>'',
      ''      <snapshots>'',
      ''        <enabled>false</enabled>'',
      ''      </snapshots>'',
      ''      <releases>'',
      ''        <enabled>true</enabled>'',
      ''        <updatePolicy>never</updatePolicy>'',
      ''      </releases>'',
      ''    </repository>'',
      ''  </repositories>'',
      ''  <pluginRepositories>'',
      ''    <pluginRepository>'',
      ''      <id>central</id>'',
      ''      <url>https://repo.maven.apache.org/maven2</url>'',
      ''      <snapshots>'',
      ''        <enabled>false</enabled>'',
      ''      </snapshots>'',
      ''      <releases>'',
      ''        <enabled>true</enabled>'',
      ''        <updatePolicy>never</updatePolicy>'',
      ''      </releases>'',
      ''    </pluginRepository>'',
      ''  </pluginRepositories>'',
      ''  <build>'',
      ''    <plugins></plugins>'',
      ''  </build>'',
      ''</project>''] [newline])"

lemma TestPomGeneration: "xmlHeader @ printXml (Project_xml testProject) = expectedPom"
  by code_simp

text \<open>The metadata of \<open>TestMetadata\<close> there, without the tabulators at the start of its lines.\<close>

definition testMetadata :: string where
  "testMetadata = map (\<lambda>c. if c = CHR ''~'' then CHR 0x22 else c) (Join
     [''<metadata modelVersion=~1.1.0~>'',
      ''<groupId>org.teiid.examples</groupId>'',
      ''<artifactId>postgresql-maven</artifactId>'',
      ''<version>1.0-SNAPSHOT</version>'',
      ''<versioning>'',
      ''  <snapshot>'',
      ''     <timestamp>20200506.095522</timestamp>'',
      ''     <buildNumber>1</buildNumber>'',
      ''  </snapshot>'',
      ''  <lastUpdated>20200506095522</lastUpdated>'',
      ''  <snapshotVersions>'',
      ''     <snapshotVersion>'',
      ''       <extension>vdb</extension>'',
      ''       <value>1.0-20200506.095522-1</value>'',
      ''       <updated>20200506095522</updated>'',
      ''     </snapshotVersion>'',
      ''     <snapshotVersion>'',
      ''        <extension>pom</extension>'',
      ''        <value>1.0-20200506.095522-1</value>'',
      ''        <updated>20200506095522</updated>'',
      ''     </snapshotVersion>'',
      ''   </snapshotVersions>'',
      ''</versioning>'',
      ''</metadata>''] [newline])"

definition unmarshal :: "string \<Rightarrow> error + xml" where
  "unmarshal s = (case readXml s of Some x \<Rightarrow> Inr x | None \<Rightarrow> Inl (Err ''EOF''))"

lemma TestMetadata:
  "case parseMavenMetadata unmarshal testMetadata of (m, err) \<Rightarrow>
     err = None \<and> meta_GroupID m = ''org.teiid.examples'' \<and> meta_ArtifactID m = ''postgresql-maven'' \<and>
     meta_Version m = ''1.0-SNAPSHOT'' \<and>
     map Extension (SnapshotVersions (meta_Versioning m)) = [''vdb'', ''pom''] \<and>
     Updated (hd (SnapshotVersions (meta_Versioning m))) = ''20200506095522'' \<and>
     sv_Value (hd (SnapshotVersions (meta_Versioning m))) = ''1.0-20200506.095522-1''"
  by code_simp

section \<open>Properties\<close>

text \<open>
  The text of the generated \<open>pom.xml\<close> says what the project says. Whatever coordinates, data sources and names
  the user chose, as long as their characters are characters of XML, reading the elements of the text gives
  back the generated project with its plug-in, field by field. So no coordinate, name or version is read as markup, no list is mixed up
  with another of the same element names, and nothing is left out.
\<close>

theorem pom_document:
  assumes "GenerateVdbPom r vdb sources a b c w = (Ok p, w')"
    and "printable_xml (Project_xml (addVdbCodeGenPlugIn (Config r) file m version p))"
  shows "map_option Project_of_xml (readXml (printXml (Project_xml (addVdbCodeGenPlugIn (Config r) file m version p)))) =
    Some (addVdbCodeGenPlugIn (Config r) file m version p)"
proof (rule project_document [OF _ _ assms(2)])
  obtain q where q: "addCoordinates (Dependencies (vdb_Source vdb)) (createMavenProject (Config r) (vdb_Name vdb)) = Inr q" "grows q p"
    using GenerateVdbPom_cases [of r vdb sources a b c w] assms(1) by auto
  obtain ds where "q = AddDependencies ds (createMavenProject (Config r) (vdb_Name vdb))"
    using addCoordinates_deps [OF q(1)] by blast
  then have "grows (createMavenProject (Config r) (vdb_Name vdb)) p"
    using grows_trans [OF grows_add, of _ _ p] q(2) by simp
  note frame = grows_frame [OF this]
  then show "named_Project (addVdbCodeGenPlugIn (Config r) file m version p)"
    and "ok_Project (addVdbCodeGenPlugIn (Config r) file m version p)"
    by (simp_all add: named_Project_def ok_Project_def ok_Plugin_def addVdbCodeGenPlugIn_def PrependBuildPlugin_def
      createMavenProject_def good_name_def plainExecution_def)
qed

text \<open>A user who tries to smuggle a dependency into the project.\<close>

definition smuggler :: VirtualDatabase where
  "smuggler = withDeps [''a:b:1</version></dependency><dependency><groupId>evil''] emptyVdb"

definition smuggledPom :: Project where
  "smuggledPom = (case fst (GenerateVdbPom emptyCluster smuggler [] False False False ()) of
     Ok p \<Rightarrow> p | _ \<Rightarrow> createPlainMavenProject [])"

lemma smuggledPom_generated:
  "GenerateVdbPom emptyCluster smuggler [] False False False () = (Ok smuggledPom, ())"
  "printable_xml (Project_xml (addVdbCodeGenPlugIn emptyConfiguration ''f'' False ''1'' smuggledPom))"
  by code_simp+

lemma pom_document_witness:
  "GenerateVdbPom emptyCluster smuggler [] False False False () = (Ok smuggledPom, ()) \<and>
   map_option Project_of_xml (readXml (printXml (Project_xml (addVdbCodeGenPlugIn emptyConfiguration ''f'' False ''1'' smuggledPom)))) =
     Some (addVdbCodeGenPlugIn emptyConfiguration ''f'' False ''1'' smuggledPom)"
proof -
  have "Config (emptyCluster :: unit Reconciler) = emptyConfiguration" by (simp add: emptyCluster_def)
  with smuggledPom_generated
    pom_document [of emptyCluster smuggler "[]" False False False "()" smuggledPom "()" "''f''" False "''1''"]
  show ?thesis by simp
qed

lemma payload_pom:
  "ensures (buildVdbBasedPayload r vdb) (\<lambda>files. xmlProject r = (\<lambda>p. Inr (printXml (Project_xml p))) \<longrightarrow>
     (\<exists>sources a b c m g w w'. GenerateVdbPom r vdb sources a b c w = (Ok g, w') \<and>
        map_of files ''/pom.xml'' = Some (xmlHeader @ printXml (Project_xml
          (addVdbCodeGenPlugIn (Config r) ''/tmp/src/src/main/resources/teiid.ddl'' m (Version (Status vdb)) g)))))"
    (is "ensures _ ?P")
proof -
  have pom: "?P files" if "GenerateVdbPom r vdb sources a b c w = (Ok g, w')"
      "EncodeXML (xmlProject r) (addVdbCodeGenPlugIn (Config r) ''/tmp/src/src/main/resources/teiid.ddl'' m (Version (Status vdb)) g) u = (Ok s, u')"
      "map_of files ''/pom.xml'' = Some s" for sources a b c w g w' m u s u' files
  proof
    assume "xmlProject r = (\<lambda>p. Inr (printXml (Project_xml p)))"
    with that(2,3) have "map_of files ''/pom.xml'' = Some (xmlHeader @ printXml (Project_xml
        (addVdbCodeGenPlugIn (Config r) ''/tmp/src/src/main/resources/teiid.ddl'' m (Version (Status vdb)) g)))"
      by (simp add: EncodeXML_def bindM_def returnM_def resM_def)
    with that(1) show "\<exists>sources a b c m g w w'. GenerateVdbPom r vdb sources a b c w = (Ok g, w') \<and>
        map_of files ''/pom.xml'' = Some (xmlHeader @ printXml (Project_xml
          (addVdbCodeGenPlugIn (Config r) ''/tmp/src/src/main/resources/teiid.ddl'' m (Version (Status vdb)) g)))" by blast
  qed
  show ?thesis
    unfolding buildVdbBasedPayload_def Let_def by (rule ens | rule pom, assumption, assumption, simp)+
qed

text \<open>
  C34: the build of a virtual database gets a \<open>pom.xml\<close> whose text reads back as the generated project: the one of its
  dependencies and data sources, with the plug-in that generates code from its DDL. The project has every
  dependency the user asked for, with the first version asked for unless it is a built-in one, none of them twice. Whatever
  coordinates, data sources and names the user chose, as long as their characters are characters of XML, none is
  read as markup and nothing is left out.
\<close>

theorem build_document:
  assumes "buildVdbBasedPayload r vdb w = (Ok files, w')" and "xmlProject r = (\<lambda>p. Inr (printXml (Project_xml p)))"
  shows "\<exists>m g p ds. map_of files ''/pom.xml'' = Some (xmlHeader @ printXml (Project_xml p)) \<and>
    p = addVdbCodeGenPlugIn (Config r) ''/tmp/src/src/main/resources/teiid.ddl'' m (Version (Status vdb)) g \<and>
    (printable_xml (Project_xml p) \<longrightarrow> map_option Project_of_xml (readXml (printXml (Project_xml p))) = Some p) \<and>
    map ParseGAV (Dependencies (vdb_Source vdb)) = map Inr ds \<and> distinct (map dep_key (p_Dependencies p)) \<and>
    (\<forall>d \<in> set ds. LookupDependency p d =
       find (\<lambda>x. dep_key x = dep_key d) (p_Dependencies (createMavenProject (Config r) (vdb_Name vdb)) @ ds))"
proof -
  obtain sources a b c m g u u' where g: "GenerateVdbPom r vdb sources a b c u = (Ok g, u')"
      "map_of files ''/pom.xml'' = Some (xmlHeader @ printXml (Project_xml
         (addVdbCodeGenPlugIn (Config r) ''/tmp/src/src/main/resources/teiid.ddl'' m (Version (Status vdb)) g)))"
    using ensuresD [OF payload_pom assms(1)] assms(2) by blast
  let ?p = "addVdbCodeGenPlugIn (Config r) ''/tmp/src/src/main/resources/teiid.ddl'' m (Version (Status vdb)) g"
  have same: "p_Dependencies ?p = p_Dependencies g" "LookupDependency ?p d = LookupDependency g d" for d
    by (simp_all add: addVdbCodeGenPlugIn_def PrependBuildPlugin_def LookupDependency_def)
  obtain ds where "map ParseGAV (Dependencies (vdb_Source vdb)) = map Inr ds" "distinct (map dep_key (p_Dependencies g))"
      "\<forall>d \<in> set ds. LookupDependency g d =
         find (\<lambda>x. dep_key x = dep_key d) (p_Dependencies (createMavenProject (Config r) (vdb_Name vdb)) @ ds)"
    using GenerateVdbPom_dependencies [OF g(1)] by (elim conjE exE) (rule that)
  then show ?thesis
    by (intro exI [of _ m] exI [of _ g] exI [of _ ?p] exI [of _ ds] conjI impI g(2) refl pom_document [OF g(1)])
      (simp_all only: same)
qed

lemma build_document_witness:
  "\<exists>files w' p. buildVdbBasedPayload (emptyCluster\<lparr>xmlProject := (\<lambda>p. Inr (printXml (Project_xml p)))\<rparr> :: unit Reconciler)
      (withDeps [''a:b:1''] emptyVdb) () = (Ok files, w') \<and>
     map_of files ''/pom.xml'' = Some (xmlHeader @ printXml (Project_xml p)) \<and>
     LookupDependency p (NewDependency ''a'' ''b'' ''1'') = Some (NewDependency ''a'' ''b'' ''1'')"
proof -
  let ?r = "emptyCluster\<lparr>xmlProject := (\<lambda>p. Inr (printXml (Project_xml p)))\<rparr> :: unit Reconciler"
  let ?m = "buildVdbBasedPayload ?r (withDeps [''a:b:1''] emptyVdb) ()"
  have "case fst ?m of Ok _ \<Rightarrow> True | _ \<Rightarrow> False" by code_simp
  then obtain files w' where f: "?m = (Ok files, w')" by (cases ?m; cases "fst ?m") auto
  let ?d = "NewDependency ''a'' ''b'' ''1''" and ?q = "createMavenProject (Config ?r) (vdb_Name (withDeps [''a:b:1''] emptyVdb))"
  have gav: "ParseGAV ''a:b:1'' = Inr ?d" and free: "find (\<lambda>x. dep_key x = dep_key ?d) (p_Dependencies ?q @ [?d]) = Some ?d" by code_simp+
  have deps: "Dependencies (vdb_Source (withDeps [''a:b:1''] emptyVdb)) = [''a:b:1'']" by simp
  have xml: "xmlProject ?r = (\<lambda>p. Inr (printXml (Project_xml p)))" by simp
  obtain m g p ds where p: "map_of files ''/pom.xml'' = Some (xmlHeader @ printXml (Project_xml p))" "map ParseGAV [''a:b:1''] = map Inr ds"
      "\<forall>d \<in> set ds. LookupDependency p d = find (\<lambda>x. dep_key x = dep_key d) (p_Dependencies ?q @ ds)"
    using build_document [OF f xml] unfolding deps by blast
  from p(2) gav have "ds = [?d]" by auto
  with p(3) free have "LookupDependency p ?d = Some ?d" by (simp only: list.set ball_simps)
  with f p(1) show ?thesis by blast
qed

text \<open>
  The project of a virtual database that is a JAR has a parent without coordinates. The tag of the field
  says \<open>omitempty\<close>, but no struct counts as empty for the encoder, so the element \<open>parent\<close> is written, with nothing in
  it, where Maven expects the coordinates of a project.
\<close>

theorem jar_pom_parent:
  assumes "GenerateJarPom r vdb w = (Ok p, w')"
  shows "kids ''parent'' (xchildren (Project_xml (addCopyPlugIn d typ target dir p))) = [Element ''parent'' [] []]"
proof -
  obtain repos w1 where "rangeM r (GetMavenRepositories (Config r) vdb) w = (Ok repos, w1)"
    using rangeM_total [of r "GetMavenRepositories (Config r) vdb" w] by blast
  with assms have p: "p = fold (\<lambda>kv p. AddPluginRepository (repositoryOf kv) (AddRepository (repositoryOf kv) p)) repos
      (createPlainMavenProject (vdb_Name vdb))"
    by (simp add: GenerateJarPom_def bindM_def returnM_def)
  have "p_Parent (fold (\<lambda>kv p. AddPluginRepository (repositoryOf kv) (AddRepository (repositoryOf kv) p)) repos q) = p_Parent q" for q
    by (induction repos arbitrary: q) (simp_all add: AddPluginRepository_def AddRepository_def)
  then have "p_Parent p = \<lparr>par_GroupID = [], par_ArtifactID = [], par_Version = []\<rparr>"
    by (simp add: p createPlainMavenProject_def)
  then show ?thesis
    by (simp add: Project_xml_def addCopyPlugIn_def AddBuildPlugin_def Parent_xml_def xopt_def) (simp add: xstruct_def)
qed

lemma jar_pom_parent_witness:
  "\<exists>p. GenerateJarPom emptyCluster emptyVdb () = (Ok p, ()) \<and>
     kids ''parent'' (xchildren (Project_xml (addCopyPlugIn (NewDependency ''a'' ''b'' ''1'') ''jar'' ''app.jar'' ''target'' p))) =
       [Element ''parent'' [] []]"
proof -
  obtain p w where p: "GenerateJarPom emptyCluster emptyVdb () = (Ok p, w)"
    using rangeM_total [of "emptyCluster :: unit Reconciler" "GetMavenRepositories (Config (emptyCluster :: unit Reconciler)) emptyVdb" "()"]
    by (auto simp: GenerateJarPom_def bindM_def returnM_def)
  from jar_pom_parent [OF p] p show ?thesis by auto
qed

end
