(* ===== verification/Spec2Isabelle.thy ===== *)
theory Spec2Isabelle
  imports Fleet Settled Builds Operator_Main Jaeger_Client Maven_Run Events Deep_Copy Open_Api Schemes Logs Pom_Document
begin

text \<open>
  The Teiid operator, verified.

  The program under \<open>src/\<close> is a Kubernetes operator written in Go. A user stores a
  \<open>VirtualDatabase\<close> object: a DDL text or a Maven coordinate, data sources, environment variables and
  ways to expose the service. The controller is called with the name of such an object again and again.
  Each call reads the object, lets the one action whose turn it is talk to the cluster, and writes the
  object back with a new phase. On its way from the initial to the running phase a virtual database
  gets a cache store, a builder image, its own image, a service and a route, a key store and a
  deployment; a change of its sources sends it back to the start.

  \<^bold>\<open>Parts and theories.\<close> Paths are relative to \<open>src/pkg\<close>; files without a directory are in
  \<open>controller/virtualdatabase\<close>.

  \<^item> \<open>Prelude\<close>: results of Go calls (a value, an error, a panic), the state monad of calls on the
    world, the handlers that also mutate the object, three small calculi over them (\<open>post\<close> for the
    object, \<open>noPanic\<close> and \<open>succeeds\<close>, \<open>ensures\<close> for the result) and the locale \<open>unique_add\<close>
    of lists that take an element only once.
  \<^item> \<open>Go_Strings\<close>, \<open>Regexp\<close>, \<open>Sha256\<close>: the standard library as far as it is used, executable:
    strings and \<open>Atoi\<close> with the range of \<open>int\<close>; leftmost-first regular expressions with capture
    groups, and a declarative relation they are sound for; SHA-256 and URL-safe base64.
  \<^item> \<open>Types\<close> (\<open>apis/teiid/v1alpha1/virtualdatabase_types.go\<close>), \<open>Objects\<close> (the Kubernetes and
    OpenShift objects with the fields the operator uses), \<open>Cluster\<close> (the parameters of the model).
  \<^item> \<open>Envvar\<close> (\<open>util/envvar\<close>), \<open>Proxy\<close> (\<open>util/proxy\<close>), \<open>Conf\<close> (\<open>util/conf\<close>,
    \<open>constants\<close>), \<open>Maven\<close> (\<open>util/maven\<close>), \<open>Kubernetes_Util\<close> (\<open>util/kubernetes\<close>), \<open>Zip\<close>
    (\<open>util/zip\<close>), \<open>Vdbutil\<close> (\<open>util/vdbutil\<close> and the downloads of \<open>util/maven\<close>), \<open>Util\<close>
    (\<open>util/util.go\<close>), \<open>Image\<close> (\<open>util/image\<close>), \<open>Webconsole\<close> (\<open>util/openshift\<close>), \<open>Maven_Run\<close> (the
    files and the process of \<open>util/maven\<close>), \<open>Jaeger_Client\<close> (\<open>util/opentracing\<close>), \<open>Events\<close>
    (\<open>util/events\<close>), \<open>Kube_Client\<close> (\<open>client\<close>, the variables of \<open>util/logs\<close>), \<open>Logs\<close> (the loggers of
    \<open>util/logs\<close>).
  \<^item> The API of the resource (\<open>apis/teiid/v1alpha1\<close>). \<open>Go_Memory\<close> and \<open>Deep_Copy\<close>
    (\<open>zz_generated.deepcopy.go\<close>): a memory of cells that hold what pointers, slices and maps point to, and the copies
    of every type in it; the locale \<open>deep_copy\<close> is the contract of a copy, interpreted for each type through
    combinators for pointers, slices and maps. \<open>Json\<close> (the struct tags of \<open>virtualdatabase_types.go\<close>): virtual databases as JSON documents,
    with the locale \<open>json_codec\<close>. \<open>Open_Api\<close> (\<open>zz_generated.openapi.go\<close>): the schemas of these documents.
    \<open>Schemes\<close> (\<open>apis/apis.go\<close>, \<open>addtoscheme_vdb_v1alpha1.go\<close>, \<open>register.go\<close>, the scheme of
    \<open>util/opentracing\<close>): the registration of types, and the clients that depend on it.
  \<^item> \<open>Maven_Xml\<close> (the tags of \<open>util/maven/maven_project_types.go\<close>), \<open>Xml_Text\<close> (the text that
    \<open>encoding/xml\<close> makes of elements, and a reader of it) and \<open>Pom_Document\<close>: the \<open>pom.xml\<close> of a build.
  \<^item> \<open>Digest\<close> (\<open>digest.go\<close>, \<open>updater.go\<close>), \<open>Convert_Ds\<close> (\<open>convert-ds-properties.go\<close>),
    \<open>Default_Envs\<close> (\<open>default_envs.go\<close>), \<open>Pom\<close> (\<open>pom.go\<close>), \<open>Prometheus_Config\<close>
    (\<open>prometheus-config.go\<close>): the computations the actions share.
  \<^item> \<open>Action\<close> (\<open>action.go\<close>): the interface of a step as a locale. An action touches nothing of the
    object but its status and the default number of replicas, moves it only along its own edges of the
    phase graph and keeps the digest fitting its sources. The locale is interpreted for all eight:
    \<open>Initialize\<close> (\<open>initialize.go\<close>), \<open>Cachestore\<close> (\<open>cachestore.go\<close>, \<open>util/cachestore\<close>),
    \<open>S2i_Builder\<close> (\<open>s2i_builder_image.go\<close>), \<open>Service_Image\<close> (\<open>service_image.go\<close>),
    \<open>Create_Service\<close> (\<open>create-service.go\<close>), \<open>Certificates\<close> (\<open>create-certificates.go\<close>,
    \<open>util/pkcs12\<close>), \<open>Deployments\<close> (\<open>deployment.go\<close>), \<open>Prometheus_Monitor\<close>
    (\<open>prometheus-monitor.go\<close>).
  \<^item> \<open>Controller\<close> (\<open>virtualdatabase_controller.go\<close>): \<open>Reconcile\<close> over the list of actions, its
    split into a decision (\<open>plan\<close>) and its execution, which the proofs work with, the phase graph, and the relation \<open>vdb_step\<close> of what a
    reconciliation may decide to store.
  \<^item> \<open>Footprint\<close>: where a reconciliation may write. A calculus (\<open>within\<close>) over every operation an action
    calls shows that, for a relation \<open>R\<close> on worlds and a scope of kinds, namespaces and names, the world moves only by
    steps of \<open>R\<close> when reads and the writes inside the scope do (\<open>permits\<close>). The scope \<open>own\<close> of a virtual
    database is enough (\<open>Reconcile_footprint\<close>).
  \<^item> \<open>Rely\<close>: the other clients of the API server, as an instance of that calculus with every write in scope: actions
    move the world only as others do. The operator reads through a cache that may be behind (\<open>seen\<close>); since the server checks the
    versions of what is written (\<open>serves\<close>), a reconciliation takes effect at one moment all the same
    (\<open>Reconcile_atomic\<close>), and one that read an outdated object has no effect (\<open>Reconcile_outdated\<close>). \<open>system_step\<close> interleaves reconciliations of one object with the steps of others.
  \<^item> \<open>Liveness\<close>: clusters in which every stage has what it waits for, and the way through them.
  \<^item> \<open>Fleet\<close>: any number of virtual databases on one server. To one of them a reconciliation of another is a
    sequence of steps of others, so \<open>fleet_step\<close> is simulated by \<open>system_step\<close> (\<open>fleet_step_cases\<close>), what
    \<open>Rely\<close> and \<open>Liveness\<close> show holds for each member under every schedule, and each member refines an abstract life
    cycle (\<open>fleet_refines\<close>). The examples run on a store whose cache is behind after every write.
  \<^item> \<open>Settled\<close>: the deploying phase, where the conditions of the deployment are watched, and the running phase, where it is
    compared with the specification and written when it differs, which it always does (\<open>Reconcile_rewrites\<close>).
    \<open>Builds\<close>: a count of the builds that are started.
  \<^item> \<open>Watch\<close> (\<open>watch.go\<close>, \<open>pkg/controller\<close>) and \<open>Operator_Main\<close> (\<open>cmd/manager/main.go\<close>): how the
    reconciler is built and registered, which events reach it, and the start of the process.

  \<^bold>\<open>State and parameters.\<close> The definitions keep the names of the code. A method of an action
  carries the name of the action in front (\<open>deployment_Handle\<close>). The API clients, the process
  environment, the loaded configuration, files, HTTP, random numbers, encoders and cryptography are
  fields of the record \<open>Reconciler\<close>; each call takes the world, of any type, and returns the next, so
  the answers are arbitrary and may change from call to call. What a theorem needs of them beyond their
  types is a hypothesis of it, such as \<open>api_server\<close> and \<open>fleet_server\<close> (others leave the status alone, a read answers with the stored object or
  an earlier version of it, as the comment on \<open>Client\<close> in \<open>virtualdatabase_controller.go\<close> has it, a write is accepted
  only for the stored version and replaces the object of its own namespace and name; an object that is deleted and created again
  counts as another one), \<open>permits\<close> (calls move the world by steps of a relation, an answer is of the object
  that was asked for, an owner reference keeps name and namespace), \<open>pure_reads\<close> (reads of secrets and config maps have no
  effect), \<open>range_permutes\<close> (Go visits every key of a map once) and \<open>pem_consumes\<close> (a decoded PEM
  block is not empty). Go maps are association lists; the order in which Go ranges over one is chosen by
  the world at each loop. An error is a value of \<open>error\<close>; dereferencing nil, indexing out of
  range and assigning to a nil map are the outcome \<open>Panic\<close>. Copies of an object are values, so the
  comparison in \<open>hasChanges\<close> compares what the handler made of the object with what was read; \<open>Deep_Copy\<close>
  justifies this: in a memory with pointers, what the actions write through their copy leaves the object that was read alone
  (\<open>DeepCopy_separates\<close>), and the comparison that follows pointers is, after any writes through the copy, that of values
  (\<open>memHasChanges_refines\<close>). \<open>reflect.DeepEqual\<close> on environments is equality of the full records of \<open>EnvVar\<close>.

  \<^bold>\<open>What is shown.\<close>

  \<^item> The controller, in this theory, \<open>Footprint\<close>, \<open>Fleet\<close> and \<open>Settled\<close>: a reconciliation takes effect at one moment; it writes only objects named after its virtual database and the builder image
    of the namespace, and leaves the other virtual databases alone; no phase is skipped and the phases settle; the failed phases are final until the sources change; the
    stored objects satisfy an invariant; in a cluster that has what is needed every virtual database runs
    after eleven reconciliations that read its present state, in any order with those that do not and those of others; a
    deployment is followed by its conditions and repaired when it drifts, but written again by every reconciliation also when it does
    not; the controller always comes back to an object, by its own request or by
    an event that passes its filter. Errors of handlers can be dropped, the change of a secret goes unnoticed, a deleted deployment is
    never made again, the service of another
    virtual database adopted and the console link of another deleted.
  \<^item> The actions: the gate of the initial phase; the environment and the selector of
    deployments; builds that are made once and followed by number, but repeated for each failure in the
    history of the builder image; services, routes, key and trust
    stores on every branch, with the crashes the code has.
  \<^item> The computations: the data sources in a DDL text, Maven coordinates, the generated project, the
    digests, the variables, the proxy settings, the archive extraction.
  \<^item> The API and the documents: deep copies share nothing; what was read as JSON is written without loss and conforms
    to the schema of its type; the definitions of the schemas are closed; the \<open>pom.xml\<close> of a build reads back as the generated
    project, whatever the user put into it; console links need the resource of the samples.

  \<^bold>\<open>Loops and bounds.\<close> Loops over lists are structural recursions. The loop of
  \<open>CreatePkcs12Truststore\<close> over the PEM blocks of a file runs with the length of the file plus one as
  fuel, which suffices for a decoder that consumes what it returns (\<open>CreatePkcs12Truststore_ends\<close>);
  the wait for a route makes 59 reads as in the code; a listener that calls back into a locked list of
  listeners never returns, which is the value \<open>None\<close>; the repetition in a regular expression runs on the
  rest of the text and ends because an empty iteration stops it. \<open>Atoi\<close> and the version count keep the
  range of a 64-bit \<open>int\<close>. Strings are lists of bytes; the case of letters is that of ASCII.

  \<^bold>\<open>Not modelled.\<close> What log lines look like; the fields of Kubernetes and OpenShift objects the code does not
  use; resource quantities other than by their text; in the JSON of a virtual database \<open>null\<close>, the order of the fields of an object, and field names that differ in case only;
  the defaulters, of which there are none; the type of an action, which has no fields; the YAML, tar, PEM, X.509 and PKCS12
  encodings, the SDK, the controller library and the transport of requests, which are parameters; sleeping. The
  XML encoder is a parameter of the builds, and \<open>Pom_Document\<close> is about the encoder of the standard library.
\<close>

section \<open>A contended store\<close>

text \<open>A store in which another client writes right after every read.\<close>

definition busyStore :: "(VirtualDatabase, VirtualDatabase) resource_client" where
  "busyStore = (constClient emptyVdb)\<lparr>
     rGet := (\<lambda>ns n u. (Inr u, u\<lparr>vdb_Meta := (vdb_Meta u)\<lparr>ResourceVersion := ResourceVersion (vdb_Meta u) @ ''1''\<rparr>\<rparr>)),
     rUpdate := (\<lambda>x u. if ResourceVersion (vdb_Meta x) = ResourceVersion (vdb_Meta u) then (Inr x, x) else (Inl (Conflict ''modified''), u))\<rparr>"

section \<open>Properties\<close>

text \<open>
  C2: what a reconciliation does to the stored object, whatever the cluster answers, however outdated the object is that
  it reads from the cache, and whoever else edits the object in the meantime. It takes effect at one moment: up to some world \<open>u\<close> only others have acted, and
  then the reconciliation writes nothing, or it replaces exactly the object stored in \<open>u\<close>. If the sources of
  that object changed, it is sent back to the initial phase with its new digest. Otherwise the
  specification is kept (but for the default number of replicas), the digest fits the sources, and the
  phase is the same or the next one along an edge of the phase graph.
\<close>

theorem Reconcile_safe:
  assumes "api_server ver stored r ns n" and "Reconcile r ns n w = (result, w')"
  shows "\<exists>u. (others ver stored)\<^sup>*\<^sup>* w u \<and>
    (w' = u \<or>
     (if IsVdbUpdated (stored u)
      then Spec (stored w') = Spec (stored u) \<and> Status (stored w') = Status (RedeployVdb (stored u))
      else (Spec (stored w') = Spec (stored u) \<or>
            Replicas (Spec (stored u)) = None \<and> Spec (stored w') = (Spec (stored u))\<lparr>Replicas := Some 1\<rparr>) \<and>
        \<not> IsVdbUpdated (stored w') \<and>
        (vdb_Phase (stored w') = vdb_Phase (stored u) \<or> (vdb_Phase (stored u), vdb_Phase (stored w')) \<in> phaseGraph)))"
proof -
  obtain u where u: "(others ver stored)\<^sup>*\<^sup>* w u"
      "w' = u \<or> (\<exists>x. vdb_step r (stored u) x \<and> Spec (stored w') = Spec x \<and> Status (stored w') = Status x)"
    using Reconcile_atomic [OF assms(1) order_refl assms(2)] by blast
  show ?thesis
  proof (cases "w' = u")
    case False
    with u obtain x where x: "vdb_step r (stored u) x" "Spec (stored w') = Spec x" "Status (stored w') = Status x" by blast
    note good = vdb_step_good [OF x(1)] IsVdbUpdated_cong [OF x(2,3)]
    show ?thesis
      by (intro exI [of _ u]) (use u(1) x(2,3) good in \<open>cases "IsVdbUpdated (stored u)"; auto simp: goodStep_def keeps_def RedeployVdb_frame\<close>)
  qed (use u(1) in blast)
qed

text \<open>The store of \<open>Fleet\<close>, with a cache that has not seen the last write.\<close>

theorem Reconcile_safe_witness:
  "let w = \<lparr>shelves = \<lambda>k. nextVersion (RedeployVdb shop), mirror = \<lambda>k. shop\<rparr>;
       w' = snd (Reconcile readyFleet ''ns'' ''shop'' w)
   in fst (rGet (vdbs readyFleet) ''ns'' ''shop'' w) = Inr shop \<and> shelf shopKey w \<noteq> shop \<and>
     (\<exists>u. (others length (shelf shopKey))\<^sup>*\<^sup>* w u \<and>
       (w' = u \<or>
        (if IsVdbUpdated (shelf shopKey u) then Status (shelf shopKey w') = Status (RedeployVdb (shelf shopKey u))
         else \<not> IsVdbUpdated (shelf shopKey w'))))"
proof -
  let ?w = "\<lparr>shelves = \<lambda>k. nextVersion (RedeployVdb shop), mirror = \<lambda>k. shop\<rparr>"
  obtain result w' where w': "Reconcile readyFleet ''ns'' ''shop'' ?w = (result, w')" by fastforce
  have "label shopKey shop = shop" using shelf_shop(1) by (simp add: shelf_def openingDay_def fleet_keys)
  then have "fst (rGet (vdbs readyFleet) ''ns'' ''shop'' ?w) = Inr shop"
    by (simp add: readyFleet_def fleetStore_def cached_def shelf_def nextVersion_def RedeployVdb_frame)
  moreover have "version (shelf shopKey ?w) \<noteq> version shop" by (simp add: shelf_def nextVersion_def RedeployVdb_frame)
  moreover note Reconcile_safe [OF fleet_api [OF readyFleet_server] w']
  ultimately show ?thesis unfolding Let_def using w' by (fastforce split: if_splits)
qed

text \<open>
  C15: the failed phases are final. A virtual database in the error phase, with a failed builder or service
  image, or in a phase no action knows is only looked at: the reconciliation makes no further call and
  asks to be called again, until the sources change.
\<close>

theorem Reconcile_final:
  assumes "rGet (vdbs r) ns n w = (Inr v, w')" and "\<not> IsVdbUpdated v" and "vdb_Phase v \<notin> set pipeline"
  shows "Reconcile r ns n w = (Ok \<lparr>RequeueAfter = 5 * Second\<rparr>, w')"
proof -
  have "list_all (\<lambda>a. \<not> CanHandle a v) (buildSteps r)"
    using assms(3) by (simp add: buildSteps_def new_action can_handle pipeline_def)
  from planSteps_skip [OF this, of v "[]"] have "planSteps v (buildSteps r) v = returnM None" by simp
  with assms(2) show ?thesis
    unfolding Reconcile_found [OF assms(1)] by (simp add: plan_def bindM_def returnM_def)
qed

theorem Reconcile_final_witness:
  "Reconcile readyCluster ''ns'' ''shop'' (setPhase ReconcilerPhaseError (RedeployVdb shop)) =
   (Ok \<lparr>RequeueAfter = 5 * Second\<rparr>, setPhase ReconcilerPhaseError (RedeployVdb shop))"
proof (rule Reconcile_final)
  have "digestInput (RedeployVdb shop) = digestInput shop" by (rule digestInput_cong) (simp add: RedeployVdb_frame)
  then show "\<not> IsVdbUpdated (setPhase ReconcilerPhaseError (RedeployVdb shop))"
    by (simp add: IsVdbUpdated_eq RedeployVdb_frame)
qed (simp_all add: readyCluster_def versionedStore_def pipeline_def)

text \<open>
  C14: a change of the sources restarts everything, from the failed phases too: the reconciliation writes
  an object in the initial phase, with the digest of the new sources and the old specification, and does
  nothing else; its result is that of the write.
\<close>

theorem Reconcile_restarts:
  assumes "rGet (vdbs r) ns n w = (Inr v, w')" and "IsVdbUpdated v"
  shows "\<exists>v'. vdb_Phase v' = ReconcilerPhaseInitial \<and> \<not> IsVdbUpdated v' \<and> Spec v' = Spec v \<and> vdb_Meta v' = vdb_Meta v \<and>
    Reconcile r ns n w =
      (case rUpdate (vdbs r) v' w' of (Inl e, w'') \<Rightarrow> (Fail e, w'') | (Inr _, w'') \<Rightarrow> (Ok emptyResult, w''))"
proof (intro exI conjI)
  show "Reconcile r ns n w =
      (case rUpdate (vdbs r) (RedeployVdb v) w' of (Inl e, w'') \<Rightarrow> (Fail e, w'') | (Inr _, w'') \<Rightarrow> (Ok emptyResult, w''))"
    using assms(2) unfolding Reconcile_found [OF assms(1)]
    by (simp add: plan_def returnM_def) (auto simp: bindM_def updateM_def callM_def returnM_def split: prod.split sum.split)
qed (simp_all add: RedeployVdb_frame IsVdbUpdated_eq digestInput_cong [OF RedeployVdb_frame(2)])

theorem Reconcile_restarts_witness:
  "\<exists>v'. vdb_Phase v' = ReconcilerPhaseInitial \<and> \<not> IsVdbUpdated v' \<and>
     Reconcile readyCluster ''ns'' ''shop'' (setPhase ReconcilerPhaseError shop) = (Ok emptyResult, v')"
proof -
  have "IsVdbUpdated (setPhase ReconcilerPhaseError shop)" by (simp add: IsVdbUpdated_eq shop_simps emptyStatus_def)
  moreover have "rGet (vdbs readyCluster) ''ns'' ''shop'' u = (Inr u, u)" for u
    by (simp add: readyCluster_def versionedStore_def)
  moreover have "rUpdate (vdbs readyCluster) x (setPhase ReconcilerPhaseError shop) = (Inr (nextVersion x), nextVersion x)"
    if "vdb_Meta x = vdb_Meta (setPhase ReconcilerPhaseError shop)" for x
    using that by (simp add: readyCluster_def versionedStore_def)
  moreover have "IsVdbUpdated (nextVersion x) = IsVdbUpdated x" "vdb_Phase (nextVersion x) = vdb_Phase x" for x
    by (simp_all add: nextVersion_def IsVdbUpdated_eq digestInput_def)
  ultimately show ?thesis
    using Reconcile_restarts [of readyCluster "''ns''" "''shop''" "setPhase ReconcilerPhaseError shop"] by fastforce
qed

text \<open>
  The reconciliation of a deleted virtual database succeeds and is not repeated, whether or not the
  console knows links and whatever happens to the removal of the link.
\<close>

theorem Reconcile_deleted:
  assumes "rGet (vdbs r) ns n w = (Inl (NotFound m), w')"
  shows "\<exists>w''. Reconcile r ns n w = (Ok emptyResult, w'')"
proof -
  obtain x w1 where c: "crdExists r ''ConsoleLink'' w' = (x, w1)" by fastforce
  obtain u w2 where "RemoveConsoleLink r (objectMeta n ns) w1 = (Ok u, w2)"
    using succeeds_console(4) [of r "objectMeta n ns"] unfolding succeeds_def by (metis prod.collapse)
  with assms c show ?thesis
    by (cases x) (simp_all add: Reconcile_def ConsoleLinkExists_def tryM_def getM_def callM_def bindM_def returnM_def)
qed

theorem Reconcile_deleted_witness:
  "\<exists>w''. Reconcile emptyCluster ''ns'' ''shop'' () = (Ok emptyResult, w'')"
  by (rule Reconcile_deleted [where m = "''not found''" and w' = "()"]) (simp add: emptyCluster_def emptyClient_def)

text \<open>
  The error of a handler that changed nothing is dropped. While the certificates of a virtual database
  cannot be turned into a key store, each reconciliation reports success and asks to be called again.
\<close>

theorem Reconcile_drops_error:
  assumes "rGet (vdbs r) ns n w = (Inr v, w1)" and "\<not> IsVdbUpdated v" and "vdb_Phase v = ReconcilerPhaseServiceCreated"
    and "createCertificate_Handle r (v, w1) = (Fail e, v, w2)"
  shows "Reconcile r ns n w = (Ok \<lparr>RequeueAfter = 5 * Second\<rparr>, w2)"
proof -
  have "planSteps v (buildSteps r) v w1 = (Ok None, w2)"
    using assms(3,4) by (simp add: buildSteps_def new_action can_handle hasChanges_def returnM_def)
  with assms(2) show ?thesis unfolding Reconcile_found [OF assms(1)] by (simp add: plan_def bindM_def returnM_def)
qed

theorem Reconcile_drops_error_witness:
  "Reconcile (emptyCluster\<lparr>vdbs := constClient (setPhase ReconcilerPhaseServiceCreated (RedeployVdb shop))\<rparr>) ''ns'' ''shop'' () =
   (Ok \<lparr>RequeueAfter = 5 * Second\<rparr>, ())"
proof (rule Reconcile_drops_error)
  have "digestInput (RedeployVdb shop) = digestInput shop" by (rule digestInput_cong) (simp add: RedeployVdb_frame)
  then show "\<not> IsVdbUpdated (setPhase ReconcilerPhaseServiceCreated (RedeployVdb shop))"
    by (simp add: IsVdbUpdated_eq RedeployVdb_frame)
  show "createCertificate_Handle (emptyCluster\<lparr>vdbs := constClient (setPhase ReconcilerPhaseServiceCreated (RedeployVdb shop))\<rparr>)
      (setPhase ReconcilerPhaseServiceCreated (RedeployVdb shop), ()) =
    (Fail (NotFound ''not found''), setPhase ReconcilerPhaseServiceCreated (RedeployVdb shop), ())"
    by (simp add: createCertificate_Handle_def GetSecret_def emptyCluster_def emptyClient_def monad_defs)
qed (simp_all add: constClient_def)

text \<open>
  C16: a virtual database is never forgotten. After every reconciliation that succeeds the controller comes
  back to the object: it asked for it, or it wrote an object whose update event passes the filter of the
  watch. This rests on the API server counting the generations of an object without a status subresource,
  as the definition of the custom resource (\<open>deploy/crds/teiid.io_virtualdatabases_crd.yaml\<close>) has it: every write of the status, too, then
  passes the filter, although the comment on the filter says that it ignores them. (After an error the controller library tries again.)
\<close>

theorem Reconcile_comes_back:
  assumes "rGet (vdbs r) ns n w = (Inr v, w1)" and "counts_generations r v" and "Reconcile r ns n w = (Ok result, w')"
  shows "0 < RequeueAfter result \<or>
    (\<exists>x w2 y. plan r v w1 = (Ok (Some (x, None)), w2) \<and> rUpdate (vdbs r) x w2 = (Inr y, w') \<and> UpdateFunc v y)"
proof -
  obtain d w2 where d: "plan r v w1 = (d, w2)" by fastforce
  have e: "bindM (plan r v) (execute r) w1 = (Ok result, w')" using assms(3) Reconcile_found [OF assms(1)] by simp
  then consider "d = Ok None" | x err where "d = Ok (Some (x, err))"
    using d by (cases d) (auto simp: bindM_def, metis option.exhaust surj_pair)
  then show ?thesis
  proof cases
    case 1
    with d e show ?thesis by (auto simp: bindM_def returnM_def Second_def)
  next
    case 2
    obtain y w3 where y: "rUpdate (vdbs r) x w2 = (y, w3)" by fastforce
    with d e 2 obtain y' where y': "y = Inr y'" "err = None" "w3 = w'"
      by (cases y; cases err) (auto simp: bindM_def updateM_def callM_def returnM_def failM_def)
    from d 2 have "vdb_step r v x" by (auto intro: vdb_step.decided)
    from vdb_step_changes [OF this] assms(2) y y' have "UpdateFunc v y'"
      unfolding counts_generations_def UpdateFunc_def by metis
    with d 2 y y' show ?thesis by auto
  qed
qed

theorem Reconcile_comes_back_witness:
  "\<exists>y. Reconcile (emptyCluster\<lparr>vdbs := (constClient emptyVdb)\<lparr>rUpdate := (\<lambda>x w. let y =
       x\<lparr>vdb_Meta := (vdb_Meta x)\<lparr>Generation := Generation (vdb_Meta x) + 1\<rparr>\<rparr> in (Inr y, y))\<rparr>\<rparr>) [] [] emptyVdb = (Ok emptyResult, y) \<and>
     UpdateFunc emptyVdb y"
proof -
  let ?r = "emptyCluster\<lparr>vdbs := (constClient emptyVdb)\<lparr>rUpdate := (\<lambda>x w. let y =
       x\<lparr>vdb_Meta := (vdb_Meta x)\<lparr>Generation := Generation (vdb_Meta x) + 1\<rparr>\<rparr> in (Inr y, y))\<rparr>\<rparr> :: VirtualDatabase Reconciler"
  have g: "rGet (vdbs ?r) [] [] emptyVdb = (Inr emptyVdb, emptyVdb)" by (simp add: constClient_def)
  have u: "IsVdbUpdated emptyVdb" by (simp add: IsVdbUpdated_eq emptyVdb_def emptyStatus_def)
  then have p: "plan ?r emptyVdb w = (Ok (Some (RedeployVdb emptyVdb, None)), w)" for w
    by (simp add: plan_def returnM_def)
  have "Reconcile ?r [] [] emptyVdb = bindM (updateM (vdbs ?r) (RedeployVdb emptyVdb)) (\<lambda>_. returnM emptyResult) emptyVdb"
    unfolding Reconcile_found [OF g] by (simp only: bindM_def p prod.case res.case execute_simps)
  then obtain y where y: "Reconcile ?r [] [] emptyVdb = (Ok emptyResult, y)"
    by (simp add: bindM_def updateM_def callM_def returnM_def Let_def)
  moreover have "counts_generations ?r emptyVdb" by (simp add: counts_generations_def Let_def constClient_def)
  ultimately have "\<exists>x w2 y'. plan ?r emptyVdb emptyVdb = (Ok (Some (x, None)), w2) \<and>
      rUpdate (vdbs ?r) x w2 = (Inr y', y) \<and> UpdateFunc emptyVdb y'"
    using Reconcile_comes_back [OF g _ y] by (simp add: emptyResult_def)
  then have "UpdateFunc emptyVdb y" by (auto simp: Let_def constClient_def)
  with y show ?thesis by blast
qed

text \<open>
  C8: no update is lost. The object a reconciliation writes carries the resource version it was read with.
  When the store rejects writes with an outdated version, and somebody wrote the object while the actions
  talked to the cluster, the reconciliation leaves what they wrote alone and fails with a conflict.
\<close>

theorem Reconcile_no_lost_update:
  assumes "rGet (vdbs r) ns n w = (Inr v, w1)" and "plan r v w1 = (Ok (Some d), w2)"
    and "\<And>x u. ResourceVersion (vdb_Meta x) \<noteq> ResourceVersion (vdb_Meta (stored u)) \<Longrightarrow>
      \<exists>m u'. rUpdate (vdbs r) x u = (Inl (Conflict m), u') \<and> stored u' = stored u"
    and "ResourceVersion (vdb_Meta (stored w2)) \<noteq> ResourceVersion (vdb_Meta v)"
  shows "\<exists>m w'. Reconcile r ns n w = (Fail (Conflict m), w') \<and> stored w' = stored w2"
proof -
  obtain v' err where d: "d = (v', err)" by fastforce
  with assms(2) have "vdb_step r v v'" by (auto intro: vdb_step.decided)
  from vdb_step_changes [OF this] assms(4) have "ResourceVersion (vdb_Meta v') \<noteq> ResourceVersion (vdb_Meta (stored w2))" by simp
  then obtain m w' where "rUpdate (vdbs r) v' w2 = (Inl (Conflict m), w')" "stored w' = stored w2"
    using assms(3) by blast
  with assms(2) d show ?thesis
    unfolding Reconcile_found [OF assms(1)]
    by (cases err) (simp_all add: bindM_def updateM_def callM_def)
qed

theorem Reconcile_no_lost_update_witness:
  "\<exists>m. Reconcile (emptyCluster\<lparr>vdbs := busyStore\<rparr>) ''ns'' ''shop'' shop =
     (Fail (Conflict m), shop\<lparr>vdb_Meta := (vdb_Meta shop)\<lparr>ResourceVersion := ResourceVersion (vdb_Meta shop) @ ''1''\<rparr>\<rparr>)"
proof -
  let ?w = "shop\<lparr>vdb_Meta := (vdb_Meta shop)\<lparr>ResourceVersion := ResourceVersion (vdb_Meta shop) @ ''1''\<rparr>\<rparr>"
  have "IsVdbUpdated shop" by (simp add: IsVdbUpdated_eq shop_simps emptyStatus_def)
  then have "plan (emptyCluster\<lparr>vdbs := busyStore\<rparr>) shop ?w = (Ok (Some (RedeployVdb shop, None)), ?w)"
    by (simp add: plan_def returnM_def)
  then have "\<exists>m w'. Reconcile (emptyCluster\<lparr>vdbs := busyStore\<rparr>) ''ns'' ''shop'' shop = (Fail (Conflict m), w') \<and> w' = ?w"
    by (rule Reconcile_no_lost_update [where stored = "\<lambda>u. u" and v = shop, rotated]) (simp_all add: busyStore_def)
  then show ?thesis by auto
qed

text \<open>
  C30: the deletion of a virtual database can take the console link of another. Links are not namespaced and
  their names join name and namespace by a dash, which both may contain: when the link of a virtual
  database \<open>v\<close> has the name that the deleted one's would have, the reconciliation of the deleted one
  deletes the link of \<open>v\<close>.
\<close>

theorem Reconcile_deletes_link:
  assumes "rGet (vdbs r) ns n w = (Inl (NotFound m), w1)" and "crdExists r ''ConsoleLink'' w1 = (Inr (), w2)"
    and "rGet (consoleLinks r) [] (consoleLinkName (vdb_Meta v)) w2 = (Inr link, w3)"
    and "vdb_Name v @ ''-'' @ vdb_Namespace v = n @ ''-'' @ ns"
  shows "Reconcile r ns n w = (Ok emptyResult, snd (rDelete (consoleLinks r) link w3))"
proof -
  have "consoleLinkName (objectMeta n ns) = consoleLinkName (vdb_Meta v)"
    using assms(4) by (simp add: consoleLinkName_def objectMeta_def)
  then have "RemoveConsoleLink r (objectMeta n ns) w2 = (Ok (), snd (rDelete (consoleLinks r) link w3))"
    using assms(3) by (cases "rDelete (consoleLinks r) link w3"; cases "fst (rDelete (consoleLinks r) link w3)")
      (auto simp: RemoveConsoleLink_def doDeleteConsoleLink_def tryM_def getM_def deleteM_def callM_def returnM_def)
  with assms(1,2) show ?thesis
    by (simp add: Reconcile_def ConsoleLinkExists_def tryM_def getM_def callM_def bindM_def returnM_def)
qed

theorem Reconcile_deletes_link_witness:
  "\<exists>link. Namespaces link = [''prod''] \<and>
     Reconcile (emptyCluster\<lparr>crdExists := (\<lambda>k w. (Inr (), w)),
       consoleLinks := (constClient link)\<lparr>rDelete := (\<lambda>x w. (Inr (), x # w))\<rparr>\<rparr>) ''eu-prod'' ''shop'' [] = (Ok emptyResult, [link])"
proof -
  let ?v = "emptyVdb\<lparr>vdb_Meta := objectMeta ''shop-eu'' ''prod''\<rparr>"
  let ?link = "createNamespaceDashboardLink (consoleLinkName (vdb_Meta ?v)) emptyRoute ?v"
  let ?r = "emptyCluster\<lparr>crdExists := (\<lambda>k w. (Inr (), w)),
       consoleLinks := (constClient ?link)\<lparr>rDelete := (\<lambda>x w. (Inr (), x # w))\<rparr>\<rparr>"
  have "Reconcile ?r ''eu-prod'' ''shop'' [] = (Ok emptyResult, snd (rDelete (consoleLinks ?r) ?link []))"
    by (rule Reconcile_deletes_link [where m = "''not found''" and ?w1.0 = "[]" and ?w2.0 = "[]" and v = ?v])
      (simp_all add: cluster_defs objectMeta_def)
  then show ?thesis by (intro exI [of _ ?link]) (simp add: createNamespaceDashboardLink_def objectMeta_def)
qed

text \<open>
  C26: a virtual database takes any service of its name for its own. When there is a service of its name and namespace, the
  action creates neither a service nor a route, and the reconciliation stores the next phase as if it had. The
  external service of a virtual database \<open>shop\<close> is named \<open>shop-external\<close>, so a virtual database of that name next to
  it runs without a service and a route of its own, and its name resolves to the pods of \<open>shop\<close>. In the same way a
  change of \<open>spec.expose\<close> has no effect on a virtual database whose service exists.
\<close>

theorem Reconcile_adopts_service:
  assumes "rGet (vdbs r) ns n w0 = (Inr v, w)" and "\<not> IsVdbUpdated v" and "vdb_Phase v = ReconcilerPhaseServiceImageFinished"
    and "rGet (secrets r) (vdb_Namespace v) (vdb_Name v) w = (x, w1)"
    and "rGet (services r) (vdb_Namespace v) (vdb_Name v) w1 = (Inr svc, w2)"
  shows "Reconcile r ns n w0 =
    (case rUpdate (vdbs r) (setPhase ReconcilerPhaseServiceCreated v) w2 of
       (Inl e, w') \<Rightarrow> (Fail e, w')
     | (Inr _, w') \<Rightarrow> (Ok emptyResult, w'))"
proof -
  have "createService_Handle r (v, w) = (Ok (), setPhase ReconcilerPhaseServiceCreated v, w2)"
    using assms(4,5) by (cases x) (simp_all add: createService_Handle_def findSecret_def GetService_def getM_def monad_defs)
  then have "planSteps v (buildSteps r) v w = (Ok (Some (setPhase ReconcilerPhaseServiceCreated v, None)), w2)"
    using assms(3) by (intro planSteps_decides [where bs = "take 4 (buildSteps r)" and a = "buildSteps r ! 4" and cs = "drop 5 (buildSteps r)"])
      (auto simp: buildSteps_def new_action can_handle hasChanges_def dest: arg_cong [of _ _ Phase])
  with assms(2) show ?thesis
    unfolding Reconcile_found [OF assms(1)]
    by (simp add: plan_def bindM_def updateM_def callM_def returnM_def split: prod.split sum.split)
qed

theorem Reconcile_adopts_service_witness:
  "\<exists>svc. createExternalService emptyCluster shop (vdb_Name shop @ ''-external'') ''LoadBalancer'' () = (Ok svc, ()) \<and>
     Name (svc_Meta svc) = ''shop-external'' \<and> svc_Selector svc = matchLabels ''shop'' \<and>
     Reconcile (emptyCluster\<lparr>vdbs := constClient (setPhase ReconcilerPhaseServiceImageFinished (RedeployVdb
       (shop\<lparr>vdb_Meta := objectMeta ''shop-external'' ''ns''\<rparr>))), services := constClient svc\<rparr>) ''ns'' ''shop-external'' () = (Ok emptyResult, ())"
proof -
  let ?v = "setPhase ReconcilerPhaseServiceImageFinished (RedeployVdb (shop\<lparr>vdb_Meta := objectMeta ''shop-external'' ''ns''\<rparr>))"
  obtain svc where svc: "createExternalService emptyCluster shop (vdb_Name shop @ ''-external'') ''LoadBalancer'' () = (Ok svc, ())"
      "Name (svc_Meta svc) = ''shop-external''" "svc_Selector svc = matchLabels ''shop''"
    by (simp add: createExternalService_def ensureService_def ownedService_def EnsureObject_def Let_def emptyCluster_def emptyClient_def
        getM_def createM_def monad_defs shop_simps objectMeta_def)
  have "digestInput ?v = digestInput (shop\<lparr>vdb_Meta := objectMeta ''shop-external'' ''ns''\<rparr>)"
    by (rule digestInput_cong) (simp add: RedeployVdb_frame)
  then have "\<not> IsVdbUpdated ?v" by (simp add: IsVdbUpdated_eq RedeployVdb_frame)
  then have "Reconcile (emptyCluster\<lparr>vdbs := constClient ?v, services := constClient svc\<rparr>) ''ns'' ''shop-external'' () = (Ok emptyResult, ())"
    by (subst Reconcile_adopts_service [where v = ?v and w = "()" and ?w1.0 = "()" and ?w2.0 = "()" and svc = svc])
      (simp_all add: constClient_def emptyCluster_def emptyClient_def)
  with svc show ?thesis by blast
qed

end
